(* ===== verification/Prelude.thy ===== *)
theory Prelude
  imports Main "HOL-Library.Multiset" "HOL-Library.Sublist"
begin

text \<open>
  Shared vocabulary of the development: the collections of rewrite rules, the operations of Go's
  \<^verbatim>\<open>strings\<close> package that the sources call, the environment that supplies what the code reads from
  outside (clock, UUID generator, decimal printing), and list lemmas used by several components.

  Amounts and prices are \<^verbatim>\<open>decimal.Decimal\<close> in the code: exact decimal numbers whose \<^verbatim>\<open>Add\<close>,
  \<^verbatim>\<open>Sub\<close> and comparisons are documented to be exact. They are a type parameter \<open>'d\<close> of the model,
  constrained to a linearly ordered integral domain, the laws the code relies on.
  Strings are byte strings; the character classes are the ASCII ones.
\<close>

named_theorems go_enum \<comment> \<open>the string constants of the code's enumerations\<close>
named_theorems book_simps \<comment> \<open>field equations of book operations\<close>
named_theorems inv_intros \<comment> \<open>one preservation rule per operation\<close>

subsection \<open>What the code reads from outside\<close>

text \<open>
  \<open>uuid e n\<close> is the result of the \<open>n\<close>-th call of \<^verbatim>\<open>uuid.NewString()\<close>, \<open>clock e n\<close> the reading of
  \<^verbatim>\<open>time.Now()\<close> at tick \<open>n\<close>, \<open>dec_str e\<close> is \<^verbatim>\<open>Decimal.String()\<close>. A time is a number of nanoseconds;
  the zero \<^verbatim>\<open>time.Time\<close> is \<open>0\<close>.
\<close>

record 'd env =
  uuid :: "nat \<Rightarrow> string"
  clock :: "nat \<Rightarrow> int"
  dec_str :: "'d \<Rightarrow> string"

type_synonym time = int

definition zero_time :: time where
  [simp]: "zero_time = 0"

definition hour :: time where
  "hour = 3600000000000"

subsection \<open>Go string operations\<close>

definition contains_char :: "char \<Rightarrow> string \<Rightarrow> bool" where
  "contains_char c s = (c \<in> set s)"

fun split_on :: "char \<Rightarrow> string \<Rightarrow> string list" where
  "split_on c [] = [[]]"
| "split_on c (x # xs) =
     (if x = c then [] # split_on c xs
      else (case split_on c xs of [] \<Rightarrow> [[x]] | p # ps \<Rightarrow> (x # p) # ps))"

definition is_space :: "char \<Rightarrow> bool" where
  "is_space c = (c = CHR '' '' \<or> (9 \<le> (of_char c :: nat) \<and> (of_char c :: nat) \<le> 13))"

definition trim_space :: "string \<Rightarrow> string" where
  "trim_space s = rev (dropWhile is_space (rev (dropWhile is_space s)))"

definition is_upper :: "char \<Rightarrow> bool" where
  "is_upper c = (65 \<le> (of_char c :: nat) \<and> (of_char c :: nat) \<le> 90)"

definition is_lower :: "char \<Rightarrow> bool" where
  "is_lower c = (97 \<le> (of_char c :: nat) \<and> (of_char c :: nat) \<le> 122)"

definition is_digit :: "char \<Rightarrow> bool" where
  "is_digit c = (48 \<le> (of_char c :: nat) \<and> (of_char c :: nat) \<le> 57)"

text \<open>Hexadecimal digits: either case is read, the lower one is written.\<close>

definition is_hex :: "char \<Rightarrow> bool" where
  "is_hex c = (is_digit c \<or> (97 \<le> (of_char c :: nat) \<and> (of_char c :: nat) \<le> 102) \<or>
     (65 \<le> (of_char c :: nat) \<and> (of_char c :: nat) \<le> 70))"

definition hex_digit :: "nat \<Rightarrow> char" where
  "hex_digit n = (if n < 10 then char_of (48 + n) else char_of (87 + n))"

definition hex_value :: "char \<Rightarrow> nat" where
  "hex_value c = (let n = of_char c in if n < 58 then n - 48 else if n < 97 then n - 55 else n - 87)"

definition upper_char :: "char \<Rightarrow> char" where
  "upper_char c = (if is_lower c then char_of ((of_char c :: nat) - 32) else c)"

definition lower_char :: "char \<Rightarrow> char" where
  "lower_char c = (if is_upper c then char_of ((of_char c :: nat) + 32) else c)"

definition to_upper :: "string \<Rightarrow> string" where
  "to_upper s = map upper_char s"

definition to_lower :: "string \<Rightarrow> string" where
  "to_lower s = map lower_char s"

subsection \<open>Lemmas on the string operations\<close>

lemma split_on_not_Nil [simp]: "split_on c s \<noteq> []"
  by (cases s) (auto split: list.splits)

lemma length_split_on: "length (split_on c s) = Suc (count_list s c)"
proof (induction s)
  case (Cons x xs)
  then show ?case by (auto split: list.splits)
qed simp

lemma split_on_no_sep [simp]: "c \<notin> set s \<Longrightarrow> split_on c s = [s]"
  by (induction s) auto

lemma split_on_append: "c \<notin> set a \<Longrightarrow> split_on c (a @ c # b) = a # split_on c b"
  by (induction a) auto

lemma split_on_parts: "p \<in> set (split_on c s) \<Longrightarrow> c \<notin> set p"
proof (induction s arbitrary: p)
  case (Cons x xs)
  then show ?case by (cases "split_on c xs") (auto split: if_splits)
qed simp

lemma split_on_twoD:
  assumes "split_on c s = [a, b]"
  shows "s = a @ c # b \<and> c \<notin> set a \<and> c \<notin> set b"
proof -
  have parts: "c \<notin> set a" "c \<notin> set b"
    using assms split_on_parts [of a c s] split_on_parts [of b c s] by auto
  have "s = a @ c # b" using assms
  proof (induction s arbitrary: a)
    case (Cons x xs)
    show ?case
    proof (cases "x = c")
      case True
      with Cons.prems have "a = []" and "split_on c xs = [b]" by auto
      moreover from \<open>split_on c xs = [b]\<close> have "xs = b"
      proof -
        have "count_list xs c = 0" using length_split_on [of c xs] \<open>split_on c xs = [b]\<close> by simp
        then have "c \<notin> set xs" by (simp add: count_list_0_iff)
        with \<open>split_on c xs = [b]\<close> show ?thesis by simp
      qed
      ultimately show ?thesis using True by simp
    next
      case False
      with Cons.prems obtain a' where "a = x # a'" and "split_on c xs = [a', b]"
        by (auto split: list.splits)
      with Cons.IH show ?thesis by simp
    qed
  qed simp
  with parts show ?thesis by blast
qed

lemma dropWhile_id: "(s \<noteq> [] \<Longrightarrow> \<not> P (hd s)) \<Longrightarrow> dropWhile P s = s"
  by (cases s) auto

lemma trim_space_id:
  assumes "s \<noteq> [] \<Longrightarrow> \<not> is_space (hd s)" and "s \<noteq> [] \<Longrightarrow> \<not> is_space (last s)"
  shows "trim_space s = s"
proof -
  have "dropWhile is_space s = s" using assms(1) by (rule dropWhile_id)
  moreover have "dropWhile is_space (rev s) = rev s"
    by (rule dropWhile_id) (use assms(2) in \<open>auto simp: hd_rev\<close>)
  ultimately show ?thesis by (simp add: trim_space_def)
qed

lemma hd_dropWhile_not: "dropWhile P s \<noteq> [] \<Longrightarrow> \<not> P (hd (dropWhile P s))"
  by (rule hd_dropWhile)

lemma trim_space_ends:
  assumes "trim_space s \<noteq> []"
  shows "\<not> is_space (hd (trim_space s)) \<and> \<not> is_space (last (trim_space s))"
proof -
  define t where "t = dropWhile is_space s"
  define u where "u = dropWhile is_space (rev t)"
  have ts: "trim_space s = rev u" by (simp add: trim_space_def t_def u_def)
  from assms ts have une: "u \<noteq> []" by simp
  then have tne: "t \<noteq> []" by (auto simp: u_def)
  have last_ok: "\<not> is_space (last (trim_space s))"
    using une hd_dropWhile_not [of is_space "rev t"] by (simp add: ts last_rev u_def)
  obtain pre where "rev t = pre @ u"
    using takeWhile_dropWhile_id [of is_space "rev t"] u_def by metis
  then have "t = rev u @ rev pre" by (metis rev_append rev_rev_ident)
  then have "hd (rev u) = hd t" using une by (simp add: hd_append)
  moreover have "\<not> is_space (hd t)" using tne hd_dropWhile_not [of is_space s] by (simp add: t_def)
  ultimately show ?thesis using last_ok ts by simp
qed

lemma trim_space_idem [simp]: "trim_space (trim_space s) = trim_space s"
  by (rule trim_space_id) (use trim_space_ends [of s] in auto)

lemma set_trim_space: "set (trim_space s) \<subseteq> set s"
  by (auto simp: trim_space_def dest!: set_dropWhileD)

lemma of_char_hex_digit: "n < 16 \<Longrightarrow> (of_char (hex_digit n) :: nat) = (if n < 10 then 48 + n else 87 + n)"
  by (simp add: hex_digit_def)

lemma hex_value_digit [simp]: "n < 16 \<Longrightarrow> hex_value (hex_digit n) = n"
  by (simp add: hex_value_def of_char_hex_digit)

lemma is_hex_digit [simp]: "n < 16 \<Longrightarrow> is_hex (hex_digit n)"
  by (auto simp: is_hex_def is_digit_def of_char_hex_digit)

lemma of_char_upper_char: "is_lower c \<Longrightarrow> of_char (upper_char c) = (of_char c :: nat) - 32"
  by (auto simp: upper_char_def is_lower_def)

lemma upper_char_idem [simp]: "upper_char (upper_char c) = upper_char c"
proof (cases "is_lower c")
  case True
  then have "(of_char (upper_char c) :: nat) = of_char c - 32" by (rule of_char_upper_char)
  moreover have "(of_char c :: nat) - 32 < 97" using True by (auto simp: is_lower_def)
  ultimately have "\<not> is_lower (upper_char c)" by (simp add: is_lower_def)
  then show ?thesis by (simp add: upper_char_def)
qed (simp add: upper_char_def)

lemma to_upper_idem [simp]: "to_upper (to_upper s) = to_upper s"
  by (simp add: to_upper_def)

lemma to_upper_Nil_iff [simp]: "to_upper s = [] \<longleftrightarrow> s = []"
  by (simp add: to_upper_def)

subsection \<open>Guard chains\<close>

text \<open>A validator is a chain of guards that return an error; it succeeds when no guard fires.\<close>

lemma guard_Inr [simp]: "((if c then Inl e else r) = Inr x) = (\<not> c \<and> r = Inr x)"
  by simp

lemma guard_Inr' [simp]: "(Inr x = (if c then Inl e else r)) = (\<not> c \<and> r = Inr x)"
  by auto

subsection \<open>Lists\<close>

text \<open>Removing the element at an index, as \<^verbatim>\<open>append(s[:i], s[i+1:]...)\<close> does.\<close>

definition remove_nth :: "nat \<Rightarrow> 'a list \<Rightarrow> 'a list" where
  "remove_nth i xs = take i xs @ drop (Suc i) xs"

lemma remove_nth_append_Cons [simp]: "remove_nth (length pre) (pre @ x # xs) = pre @ xs"
  by (simp add: remove_nth_def)

lemma length_remove_nth: "i < length xs \<Longrightarrow> length (remove_nth i xs) = length xs - 1"
  by (simp add: remove_nth_def)

lemma set_remove_nth: "set (remove_nth i xs) \<subseteq> set xs"
  by (auto simp: remove_nth_def dest: in_set_takeD in_set_dropD)

lemma distinct_remove_nth: "distinct xs \<Longrightarrow> distinct (remove_nth i xs)"
  using set_take_disj_set_drop_if_distinct [of xs i "Suc i"] by (simp add: remove_nth_def)

lemma set_tl_subset: "set (tl xs) \<subseteq> set xs"
  by (cases xs) auto

lemma subseq_set: "subseq xs ys \<Longrightarrow> set xs \<subseteq> set ys"
  by (induction rule: list_emb.induct) auto

lemma subseq_distinct: "subseq xs ys \<Longrightarrow> distinct ys \<Longrightarrow> distinct xs"
  by (induction rule: list_emb.induct) (auto dest: subseq_set)

lemma subseq_remove_nth: "subseq (remove_nth i xs) xs"
proof (induction xs arbitrary: i)
  case (Cons x xs)
  then show ?case by (cases i) (auto simp: remove_nth_def)
qed (simp add: remove_nth_def)

text \<open>The first row that satisfies a predicate, as a query with \<^verbatim>\<open>First\<close> finds it.\<close>

lemma find_append: "find P (xs @ ys) = (case find P xs of None \<Rightarrow> find P ys | Some x \<Rightarrow> Some x)"
  by (induction xs) auto

lemma find_None: "find P xs = None \<longleftrightarrow> (\<forall>x \<in> set xs. \<not> P x)"
  by (induction xs) auto

lemma find_map_keep: "(\<And>x. P (h x) = P x) \<Longrightarrow> find P (map h xs) = map_option h (find P xs)"
  by (induction xs) auto

text \<open>The first index that satisfies a predicate, as \<^verbatim>\<open>slices.IndexFunc\<close> finds it.\<close>

fun index_of :: "('a \<Rightarrow> bool) \<Rightarrow> 'a list \<Rightarrow> nat option" where
  "index_of P [] = None"
| "index_of P (x # xs) = (if P x then Some 0 else map_option Suc (index_of P xs))"

lemma index_of_None [simp]: "index_of P xs = None \<longleftrightarrow> (\<forall>x \<in> set xs. \<not> P x)"
  by (induction xs) auto

lemma index_of_SomeD:
  "index_of P xs = Some i \<Longrightarrow> i < length xs \<and> P (xs ! i) \<and> (\<forall>j < i. \<not> P (xs ! j))"
proof (induction xs arbitrary: i)
  case (Cons x xs)
  show ?case
  proof (cases "P x")
    case False
    with Cons.prems obtain j where j: "index_of P xs = Some j" and i: "i = Suc j" by auto
    from Cons.IH [OF j] False i show ?thesis by (auto simp: less_Suc_eq_0_disj)
  qed (use Cons.prems in auto)
qed simp

end
