(* ===== verification/Level_Tree.thy ===== *)
theory Level_Tree
  imports Prelude
begin

text \<open>
  The ordered container the order book keeps its price levels in. The code uses
  \<^verbatim>\<open>btree.BTreeG\<close> (google/btree), built from a \<^verbatim>\<open>less\<close> function; its documented behaviour is that
  of an ordered sequence holding at most one item per equivalence class of \<^verbatim>\<open>less\<close>. The items are
  the list \<^verbatim>\<open>Ascend\<close> visits, and each operation is described by its effect on that list. The locale
  states when a \<^verbatim>\<open>less\<close> makes this container well behaved.
\<close>

definition equiv_by :: "('a \<Rightarrow> 'a \<Rightarrow> bool) \<Rightarrow> 'a \<Rightarrow> 'a \<Rightarrow> bool" where
  "equiv_by lt x y = (\<not> lt x y \<and> \<not> lt y x)"

fun bt_get :: "('a \<Rightarrow> 'a \<Rightarrow> bool) \<Rightarrow> 'a \<Rightarrow> 'a list \<Rightarrow> 'a option" where
  "bt_get lt k [] = None"
| "bt_get lt k (x # xs) = (if equiv_by lt k x then Some x else bt_get lt k xs)"

fun bt_replace_or_insert :: "('a \<Rightarrow> 'a \<Rightarrow> bool) \<Rightarrow> 'a \<Rightarrow> 'a list \<Rightarrow> 'a list" where
  "bt_replace_or_insert lt k [] = [k]"
| "bt_replace_or_insert lt k (x # xs) =
     (if lt k x then k # x # xs
      else if lt x k then x # bt_replace_or_insert lt k xs
      else k # xs)"

fun bt_delete :: "('a \<Rightarrow> 'a \<Rightarrow> bool) \<Rightarrow> 'a \<Rightarrow> 'a list \<Rightarrow> 'a list" where
  "bt_delete lt k [] = []"
| "bt_delete lt k (x # xs) = (if equiv_by lt k x then xs else x # bt_delete lt k xs)"

text \<open>
  The tree holds pointers, so the code also writes through an item it has found. Writing the item
  equivalent to \<open>k\<close> changes that one entry.
\<close>

definition bt_update :: "('a \<Rightarrow> 'a \<Rightarrow> bool) \<Rightarrow> 'a \<Rightarrow> ('a \<Rightarrow> 'a) \<Rightarrow> 'a list \<Rightarrow> 'a list" where
  "bt_update lt k f xs = map (\<lambda>x. if equiv_by lt k x then f x else x) xs"

locale level_order =
  fixes lt :: "'a \<Rightarrow> 'a \<Rightarrow> bool"
  assumes less_irrefl: "\<not> lt x x"
    and less_trans: "lt x y \<Longrightarrow> lt y z \<Longrightarrow> lt x z"
    and less_equiv: "lt x y \<Longrightarrow> equiv_by lt y z \<Longrightarrow> lt x z"
    and equiv_less: "equiv_by lt x y \<Longrightarrow> lt y z \<Longrightarrow> lt x z"
begin

lemma equiv_refl: "equiv_by lt x x"
  by (simp add: equiv_by_def less_irrefl)

lemma equiv_sym: "equiv_by lt x y \<Longrightarrow> equiv_by lt y x"
  by (simp add: equiv_by_def)

lemma set_insert_subset: "set (bt_replace_or_insert lt k xs) \<subseteq> insert k (set xs)"
  by (induction xs) auto

lemma set_delete_subset: "set (bt_delete lt k xs) \<subseteq> set xs"
  by (induction xs) auto

lemma sorted_insert: "sorted_wrt lt xs \<Longrightarrow> sorted_wrt lt (bt_replace_or_insert lt k xs)"
proof (induction xs)
  case (Cons x xs)
  consider "lt k x" | "\<not> lt k x" "lt x k" | "\<not> lt k x" "\<not> lt x k" by blast
  then show ?case
  proof cases
    case 1
    then show ?thesis using Cons.prems by (auto intro: less_trans)
  next
    case 2
    then show ?thesis using Cons set_insert_subset [of k xs] by auto
  next
    case 3
    then have "equiv_by lt k x" by (simp add: equiv_by_def)
    then show ?thesis using Cons.prems 3 by (auto intro: equiv_less)
  qed
qed simp

lemma sorted_delete: "sorted_wrt lt xs \<Longrightarrow> sorted_wrt lt (bt_delete lt k xs)"
  by (induction xs) (use set_delete_subset in fastforce)+

lemma sorted_not_equiv_rest:
  "sorted_wrt lt (x # xs) \<Longrightarrow> equiv_by lt k x \<Longrightarrow> y \<in> set xs \<Longrightarrow> \<not> equiv_by lt k y"
  by (meson equiv_less equiv_by_def sorted_wrt.simps(2))

lemma get_Some: "bt_get lt k xs = Some x \<Longrightarrow> x \<in> set xs \<and> equiv_by lt k x"
  by (induction xs) (auto split: if_splits)

lemma get_None: "bt_get lt k xs = None \<longleftrightarrow> (\<forall>x \<in> set xs. \<not> equiv_by lt k x)"
  by (induction xs) auto

lemma get_unique:
  "sorted_wrt lt xs \<Longrightarrow> x \<in> set xs \<Longrightarrow> equiv_by lt k x \<Longrightarrow> bt_get lt k xs = Some x"
proof (induction xs)
  case (Cons y ys)
  then show ?case using sorted_not_equiv_rest [of y ys k x] by auto
qed simp

lemma get_insert_same: "bt_get lt k (bt_replace_or_insert lt k xs) = Some k"
  by (induction xs) (auto simp: equiv_refl equiv_by_def less_irrefl)

lemma get_delete_same:
  "sorted_wrt lt xs \<Longrightarrow> bt_get lt k (bt_delete lt k xs) = None"
proof (induction xs)
  case (Cons x xs)
  then show ?case using sorted_not_equiv_rest [of x xs k] by (auto simp: get_None)
qed simp

lemma insert_absent:
  assumes "sorted_wrt lt xs" and "bt_get lt k xs = None"
  shows "set (bt_replace_or_insert lt k xs) = insert k (set xs)"
  using assms by (induction xs) (auto simp: equiv_by_def split: if_splits)

lemma mset_insert_absent:
  "bt_get lt k xs = None \<Longrightarrow> mset (bt_replace_or_insert lt k xs) = add_mset k (mset xs)"
  by (induction xs) (auto simp: equiv_by_def split: if_splits)

lemma sorted_update:
  assumes "sorted_wrt lt xs" and "\<And>x. equiv_by lt x (f x)"
  shows "sorted_wrt lt (bt_update lt k f xs)"
proof -
  have "\<And>x y. lt x y \<Longrightarrow>
     lt (if equiv_by lt k x then f x else x) (if equiv_by lt k y then f y else y)"
    using assms(2) by (smt (verit) equiv_less equiv_sym less_equiv)
  with assms(1) show ?thesis
    unfolding bt_update_def sorted_wrt_map by (rule sorted_wrt_mono_rel [rotated]) blast
qed

lemma delete_hd: "bt_delete lt x (x # xs) = xs"
  by (simp add: equiv_refl)

end

end
