(* ===== verification/Domain_Entities.thy ===== *)
theory Domain_Entities
  imports Prelude
begin

text \<open>
  The domain entities of \<^verbatim>\<open>internal/domain/entities\<close> that the order flow stores: orders, trades and
  trading pairs, their constructors with the validation they do, and the hooks the ORM runs before an
  insert. Association fields and the ORM's bookkeeping columns are left out. A failed constructor
  (\<^verbatim>\<open>nil\<close>) is \<open>None\<close>; an error result is \<open>Inl\<close> of a constructor per message.
  \<^verbatim>\<open>uuid.Parse\<close> (google/uuid) is the parameter \<open>uuid_ok\<close>.
\<close>

subsection \<open>Orders (order.go)\<close>

definition ent_OrderTypeLimit :: string where [simp]: "ent_OrderTypeLimit = ''limit''"
definition ent_OrderTypeMarket :: string where [simp]: "ent_OrderTypeMarket = ''market''"
definition ent_OrderTypeCancel :: string where [simp]: "ent_OrderTypeCancel = ''cancel''"
definition ent_SideBuy :: string where [simp]: "ent_SideBuy = ''buy''"
definition ent_SideSell :: string where [simp]: "ent_SideSell = ''sell''"
definition ent_StatusOpen :: string where [simp]: "ent_StatusOpen = ''open''"
definition ent_StatusCancelled :: string where [simp]: "ent_StatusCancelled = ''cancelled''"
definition ent_GTC :: string where [simp]: "ent_GTC = ''GTC''"

definition DefaultRestingOrderLifetime :: time where
  "DefaultRestingOrderLifetime = 24 * hour"

definition MaxRestingDays :: int where
  "MaxRestingDays = 30"

definition RestingOrderExpiresAt :: "time option \<Rightarrow> time \<Rightarrow> time" where
  "RestingOrderExpiresAt userExpire placement =
     (case userExpire of
        Some u \<Rightarrow> if u \<noteq> zero_time then u else placement + DefaultRestingOrderLifetime
      | None \<Rightarrow> placement + DefaultRestingOrderLifetime)"

record 'd db_order =
  dID :: string
  dUserID :: string
  dPair :: string
  dType :: string
  dSide :: string
  dBehavior :: string
  dPrice :: 'd
  dQuantity :: 'd
  dFilled :: 'd
  dStatus :: string
  dExpiresAt :: time
  dTimestamp :: time

datatype entity_error =
    UserIDRequired | PairRequired | InvalidOrderType string | InvalidOrderSide string
  | NegativePrice | NonPositiveQuantity
  | InvalidPairFormat string | EmptyPairSymbol string
  | InvalidMakerOrderID string | InvalidTakerOrderID string
  | NonPositivePrice | ExecutedAtRequired

definition validateNewOrderInputs ::
  "string \<Rightarrow> string \<Rightarrow> string \<Rightarrow> string \<Rightarrow> 'd::linordered_idom \<Rightarrow> 'd \<Rightarrow> entity_error + unit" where
  "validateNewOrderInputs userID pair orderType side price quantity =
     (if userID = [] then Inl UserIDRequired
      else if pair = [] \<or> \<not> contains_char CHR ''/'' pair then Inl PairRequired
      else if orderType \<noteq> ent_OrderTypeLimit \<and> orderType \<noteq> ent_OrderTypeMarket \<and>
              orderType \<noteq> ent_OrderTypeCancel then Inl (InvalidOrderType orderType)
      else if side \<noteq> ent_SideBuy \<and> side \<noteq> ent_SideSell then Inl (InvalidOrderSide side)
      else if price < 0 then Inl NegativePrice
      else if quantity \<le> 0 then Inl NonPositiveQuantity
      else Inr ())"

definition ent_NewOrder ::
  "string \<Rightarrow> string \<Rightarrow> string \<Rightarrow> string \<Rightarrow> 'd::linordered_idom \<Rightarrow> 'd \<Rightarrow> time option \<Rightarrow> time
   \<Rightarrow> 'd db_order option" where
  "ent_NewOrder userID pair orderType side price quantity expireAt now =
     (case validateNewOrderInputs userID pair orderType side price quantity of
        Inl _ \<Rightarrow> None
      | Inr _ \<Rightarrow> Some \<lparr> dID = [], dUserID = userID, dPair = pair, dType = orderType, dSide = side,
          dBehavior = ent_GTC, dPrice = price, dQuantity = quantity, dFilled = 0,
          dStatus = ent_StatusOpen, dExpiresAt = RestingOrderExpiresAt expireAt now,
          dTimestamp = now \<rparr>)"

definition ent_Remaining :: "'d::linordered_idom db_order \<Rightarrow> 'd" where
  "ent_Remaining d = dQuantity d - dFilled d"

definition ent_IsFilled :: "'d::linordered_idom db_order \<Rightarrow> bool" where
  "ent_IsFilled d = (ent_Remaining d = 0)"

definition ent_BeforeCreate :: "string \<Rightarrow> time \<Rightarrow> 'd db_order \<Rightarrow> 'd db_order" where
  "ent_BeforeCreate newID now d =
     (let d1 = (if dID d = [] then d\<lparr>dID := newID\<rparr> else d);
          d2 = (if dBehavior d1 = [] then d1\<lparr>dBehavior := ent_GTC\<rparr> else d1)
      in if dExpiresAt d2 = zero_time
         then d2\<lparr>dExpiresAt := RestingOrderExpiresAt None
                  (if dTimestamp d2 = zero_time then now else dTimestamp d2)\<rparr>
         else d2)"

subsection \<open>Trades (trade.go)\<close>

record 'd db_trade =
  tdID :: string
  tdPair :: string
  tdMakerOrderID :: string
  tdTakerOrderID :: string
  tdPrice :: 'd
  tdQuantity :: 'd
  tdExecutedAt :: time

definition trade_BeforeCreate :: "string \<Rightarrow> 'd db_trade \<Rightarrow> 'd db_trade" where
  "trade_BeforeCreate newID t = (if tdID t = [] then t\<lparr>tdID := newID\<rparr> else t)"

definition NormalizePairToSlash :: "string \<Rightarrow> entity_error + string" where
  "NormalizePairToSlash pair =
     (let p = trim_space pair in
      if p = [] then Inl PairRequired
      else
        let parts =
          (if count_list p CHR ''/'' = 1 \<and> count_list p CHR ''-'' = 0
             then Some (split_on CHR ''/'' p)
           else if count_list p CHR ''-'' = 1 \<and> count_list p CHR ''/'' = 0
             then Some (split_on CHR ''-'' p)
           else None)
        in case parts of
             None \<Rightarrow> Inl (InvalidPairFormat pair)
           | Some ps \<Rightarrow>
               let base = to_upper (trim_space (ps ! 0)); quote = to_upper (trim_space (ps ! 1))
               in if base = [] \<or> quote = [] then Inl (EmptyPairSymbol pair)
                  else Inr (base @ ''/'' @ quote))"

definition NewTrade ::
  "(string \<Rightarrow> bool) \<Rightarrow> string \<Rightarrow> string \<Rightarrow> string \<Rightarrow> 'd::linordered_idom \<Rightarrow> 'd \<Rightarrow> time
   \<Rightarrow> entity_error + 'd db_trade" where
  "NewTrade uuid_ok pair makerOrderID takerOrderID price quantity executedAt =
     (case NormalizePairToSlash pair of
        Inl e \<Rightarrow> Inl e
      | Inr normalizedPair \<Rightarrow>
          if \<not> uuid_ok (trim_space makerOrderID) then Inl (InvalidMakerOrderID makerOrderID)
          else if \<not> uuid_ok (trim_space takerOrderID) then Inl (InvalidTakerOrderID takerOrderID)
          else if \<not> 0 < price then Inl NonPositivePrice
          else if \<not> 0 < quantity then Inl NonPositiveQuantity
          else if executedAt = zero_time then Inl ExecutedAtRequired
          else Inr \<lparr> tdID = [], tdPair = normalizedPair,
                 tdMakerOrderID = trim_space makerOrderID,
                 tdTakerOrderID = trim_space takerOrderID,
                 tdPrice = price, tdQuantity = quantity, tdExecutedAt = executedAt \<rparr>)"

subsection \<open>Trading pairs (trading\_pair.go)\<close>

definition TradingPairStatusActive :: string where [go_enum]: "TradingPairStatusActive = ''active''"
definition TradingPairStatusInactive :: string where [go_enum]: "TradingPairStatusInactive = ''inactive''"

record pair_availability =
  paTestnet :: bool
  paMainnet :: bool

text \<open>Of the two assets of a pair the model keeps what is read of them, their symbols; a pair's symbol reads
  through these two string pointers, and \<open>None\<close> is a nil dereference.\<close>

record trading_pair =
  tpID :: string
  tpBaseAssetID :: string
  tpBaseSymbol :: "string option"
  tpQuoteAssetID :: string
  tpQuoteSymbol :: "string option"
  tpMaxLeverage :: int
  tpSzDecimal :: int
  tpTickSize :: int
  tpAvailability :: pair_availability
  tpStatus :: string

definition tp_Symbol :: "trading_pair \<Rightarrow> string option" where
  "tp_Symbol tp = (case (tpBaseSymbol tp, tpQuoteSymbol tp) of
     (Some b, Some q) \<Rightarrow> Some (b @ ''/'' @ q) | _ \<Rightarrow> None)"

subsection \<open>Lemmas\<close>

lemma validateNewOrderInputs_Inr:
  "validateNewOrderInputs u p t s pr q = Inr x \<longleftrightarrow>
   u \<noteq> [] \<and> CHR ''/'' \<in> set p \<and> t \<in> {''limit'', ''market'', ''cancel''} \<and>
   s \<in> {''buy'', ''sell''} \<and> 0 \<le> pr \<and> 0 < q"
  by (auto simp: validateNewOrderInputs_def contains_char_def)

lemma ent_NewOrder_SomeD:
  assumes "ent_NewOrder u p t s pr q ex now = Some d"
  shows "dFilled d = 0 \<and> ent_Remaining d = q \<and> 0 < q \<and> 0 \<le> pr \<and> dStatus d = ''open'' \<and>
         dSide d \<in> {''buy'', ''sell''} \<and> dType d \<in> {''limit'', ''market'', ''cancel''} \<and>
         dUserID d = u \<and> u \<noteq> []"
proof -
  from assms have "validateNewOrderInputs u p t s pr q = Inr ()"
    by (auto simp: ent_NewOrder_def split: sum.splits)
  moreover from this assms have "d = \<lparr> dID = [], dUserID = u, dPair = p, dType = t, dSide = s,
     dBehavior = ent_GTC, dPrice = pr, dQuantity = q, dFilled = 0, dStatus = ent_StatusOpen,
     dExpiresAt = RestingOrderExpiresAt ex now, dTimestamp = now \<rparr>"
    by (simp add: ent_NewOrder_def)
  ultimately show ?thesis by (auto simp: validateNewOrderInputs_Inr ent_Remaining_def)
qed

lemma RestingOrderExpiresAt_nonzero:
  "0 < now \<Longrightarrow> RestingOrderExpiresAt ex now \<noteq> zero_time"
  by (auto simp: RestingOrderExpiresAt_def DefaultRestingOrderLifetime_def hour_def
      split: option.splits)

lemma ent_BeforeCreate_fixed:
  "dID d \<noteq> [] \<Longrightarrow> dBehavior d \<noteq> [] \<Longrightarrow> dExpiresAt d \<noteq> zero_time \<Longrightarrow> ent_BeforeCreate i now d = d"
  by (simp add: ent_BeforeCreate_def Let_def)

lemma upper_char_sep [simp]: "upper_char c = CHR ''/'' \<longleftrightarrow> c = CHR ''/''"
  and upper_char_dash [simp]: "upper_char c = CHR ''-'' \<longleftrightarrow> c = CHR ''-''"
proof -
  have low: "is_lower c \<Longrightarrow> (of_char (upper_char c) :: nat) \<ge> 65"
    by (subst of_char_upper_char) (auto simp: is_lower_def)
  have "upper_char c = x \<longleftrightarrow> c = x" if "(of_char x :: nat) < 65" for x
  proof (cases "is_lower c")
    case True
    then have "upper_char c \<noteq> x" using low that by auto
    moreover have "c \<noteq> x" using True that by (auto simp: is_lower_def)
    ultimately show ?thesis by simp
  qed (simp add: upper_char_def)
  from this [of "CHR ''/''"] this [of "CHR ''-''"]
  show "upper_char c = CHR ''/'' \<longleftrightarrow> c = CHR ''/''" and "upper_char c = CHR ''-'' \<longleftrightarrow> c = CHR ''-''"
    by simp_all
qed

lemma is_space_upper_char [simp]: "is_space (upper_char c) = is_space c"
proof (cases "is_lower c")
  case True
  then have "(of_char (upper_char c) :: nat) \<ge> 65" by (subst of_char_upper_char) (auto simp: is_lower_def)
  moreover have "(of_char c :: nat) \<ge> 97" using True by (simp add: is_lower_def)
  ultimately show ?thesis by (auto simp: is_space_def)
qed (simp add: upper_char_def)

lemma trim_space_to_upper: "trim_space (to_upper s) = to_upper (trim_space s)"
  by (simp add: trim_space_def to_upper_def dropWhile_map rev_map comp_def)

lemma set_to_upper_sep [simp]:
  "CHR ''/'' \<in> set (to_upper s) \<longleftrightarrow> CHR ''/'' \<in> set s"
  "CHR ''-'' \<in> set (to_upper s) \<longleftrightarrow> CHR ''-'' \<in> set s"
proof -
  have "x \<in> set (to_upper s) \<longleftrightarrow> (\<exists>c \<in> set s. upper_char c = x)" for x
    by (auto simp: to_upper_def)
  then show "CHR ''/'' \<in> set (to_upper s) \<longleftrightarrow> CHR ''/'' \<in> set s"
    and "CHR ''-'' \<in> set (to_upper s) \<longleftrightarrow> CHR ''-'' \<in> set s" by simp_all
qed

text \<open>A symbol: what both halves of a normalised pair are.\<close>

definition clean_symbol :: "string \<Rightarrow> bool" where
  "clean_symbol s = (s \<noteq> [] \<and> CHR ''/'' \<notin> set s \<and> CHR ''-'' \<notin> set s \<and>
     trim_space s = s \<and> to_upper s = s)"

lemma NormalizePairToSlash_InrD:
  assumes "NormalizePairToSlash pair = Inr r"
  shows "\<exists>b q. r = b @ ''/'' @ q \<and> clean_symbol b \<and> clean_symbol q"
proof -
  define p where "p = trim_space pair"
  have split: "\<exists>b q. r = to_upper (trim_space b) @ ''/'' @ to_upper (trim_space q) \<and>
      to_upper (trim_space b) \<noteq> [] \<and> to_upper (trim_space q) \<noteq> [] \<and>
      CHR ''/'' \<notin> set b \<and> CHR ''/'' \<notin> set q \<and> CHR ''-'' \<notin> set b \<and> CHR ''-'' \<notin> set q"
    if c: "count_list p c = 1" and d: "count_list p d = 0" and cd: "{c, d} = {CHR ''/'', CHR ''-''}"
      and r: "r = to_upper (trim_space (split_on c p ! 0)) @ ''/'' @ to_upper (trim_space (split_on c p ! 1))"
      and ne: "to_upper (trim_space (split_on c p ! 0)) \<noteq> []" "to_upper (trim_space (split_on c p ! 1)) \<noteq> []"
    for c d
  proof -
    have "length (split_on c p) = 2" using c by (simp add: length_split_on)
    then obtain b q where bq: "split_on c p = [b, q]"
      by (metis One_nat_def Suc_1 length_0_conv length_Suc_conv)
    then have "p = b @ c # q" and "c \<notin> set b" and "c \<notin> set q" using split_on_twoD by blast+
    moreover have "d \<notin> set p" using d by (simp add: count_list_0_iff)
    ultimately show ?thesis using r ne bq cd by (intro exI [of _ b] exI [of _ q]) (auto simp: doubleton_eq_iff)
  qed
  have "\<exists>b q. r = to_upper (trim_space b) @ ''/'' @ to_upper (trim_space q) \<and>
      to_upper (trim_space b) \<noteq> [] \<and> to_upper (trim_space q) \<noteq> [] \<and>
      CHR ''/'' \<notin> set b \<and> CHR ''/'' \<notin> set q \<and> CHR ''-'' \<notin> set b \<and> CHR ''-'' \<notin> set q"
  proof (cases "count_list p CHR ''/'' = 1 \<and> count_list p CHR ''-'' = 0")
    case True
    with assms show ?thesis
      by (intro split [of "CHR ''/''" "CHR ''-''"])
        (auto simp: NormalizePairToSlash_def Let_def p_def [symmetric] split: if_splits)
  next
    case False
    with assms have "count_list p CHR ''-'' = 1 \<and> count_list p CHR ''/'' = 0"
      by (auto simp: NormalizePairToSlash_def Let_def p_def [symmetric] split: if_splits)
    with assms show ?thesis
      by (intro split [of "CHR ''-''" "CHR ''/''"])
        (auto simp: NormalizePairToSlash_def Let_def p_def [symmetric] split: if_splits)
  qed
  then obtain b q where "r = to_upper (trim_space b) @ ''/'' @ to_upper (trim_space q)"
    and "to_upper (trim_space b) \<noteq> []" and "to_upper (trim_space q) \<noteq> []"
    and "CHR ''/'' \<notin> set b" "CHR ''/'' \<notin> set q" "CHR ''-'' \<notin> set b" "CHR ''-'' \<notin> set q"
    by blast
  moreover from this have "clean_symbol (to_upper (trim_space b))" "clean_symbol (to_upper (trim_space q))"
    using set_trim_space [of b] set_trim_space [of q]
    by (auto simp: clean_symbol_def trim_space_to_upper)
  ultimately show ?thesis by blast
qed

lemma NormalizePairToSlash_clean:
  assumes "clean_symbol b" and "clean_symbol q" and "sep = CHR ''/'' \<or> sep = CHR ''-''"
  shows "NormalizePairToSlash (b @ sep # q) = Inr (b @ ''/'' @ q)"
proof -
  have ends: "\<not> is_space (hd b)" "\<not> is_space (last q)"
    using assms(1,2) trim_space_ends [of b] trim_space_ends [of q] by (auto simp: clean_symbol_def)
  have trim: "trim_space (b @ sep # q) = b @ sep # q"
    using ends assms(1,2) by (intro trim_space_id) (auto simp: clean_symbol_def)
  have cnt: "count_list b CHR ''/'' = 0" "count_list b CHR ''-'' = 0"
    "count_list q CHR ''/'' = 0" "count_list q CHR ''-'' = 0"
    using assms(1,2) by (auto simp: clean_symbol_def count_list_0_iff)
  have "split_on sep (b @ sep # q) = [b, q]"
    using assms by (auto simp: clean_symbol_def split_on_append)
  with trim cnt assms show ?thesis
    by (auto simp: NormalizePairToSlash_def Let_def clean_symbol_def)
qed

end
