(* ===== verification/Event_Types.thy ===== *)
theory Event_Types
  imports Domain_Entities
begin

text \<open>
  The events of \<^verbatim>\<open>internal/adapter/messaging/kafka\<close> (event.go, order\_event.go, trade\_event.go):
  their constructors with the input validation, the updates the matching engine makes to an order
  event before it publishes it, and the dispatch of event types to topics. A constructor takes the
  environment and the tick of its first outside call: an order event reads the clock once for a
  missing expiry and once for its header, and takes one UUID.
\<close>

subsection \<open>Enumerations (event.go, order\_event.go)\<close>

definition kafka_OrderTypeLimit :: string where [simp]: "kafka_OrderTypeLimit = ''limit''"
definition kafka_OrderTypeMarket :: string where [simp]: "kafka_OrderTypeMarket = ''market''"
definition kafka_OrderTypeCancel :: string where [simp]: "kafka_OrderTypeCancel = ''cancel''"
definition kafka_SideBuy :: string where [simp]: "kafka_SideBuy = ''buy''"
definition kafka_SideSell :: string where [simp]: "kafka_SideSell = ''sell''"
definition kafka_StatusOpen :: string where [simp]: "kafka_StatusOpen = ''open''"
definition kafka_StatusPartial :: string where [simp]: "kafka_StatusPartial = ''partial''"
definition kafka_StatusFilled :: string where [simp]: "kafka_StatusFilled = ''filled''"
definition kafka_StatusCancelled :: string where [simp]: "kafka_StatusCancelled = ''cancelled''"
definition kafka_StatusExpired :: string where [simp]: "kafka_StatusExpired = ''expired''"
definition kafka_OrderBehaviorTIF :: string where [simp]: "kafka_OrderBehaviorTIF = ''TIF''"
definition kafka_OrderBehaviorGTC :: string where [simp]: "kafka_OrderBehaviorGTC = ''GTC''"
definition kafka_OrderBehaviorIOC :: string where [simp]: "kafka_OrderBehaviorIOC = ''IOC''"
definition kafka_OrderBehaviorALO :: string where [simp]: "kafka_OrderBehaviorALO = ''ALO''"

definition EventOrderSubmitted :: string where [simp]: "EventOrderSubmitted = ''ORDER_SUBMITTED''"
definition EventOrderFilled :: string where [simp]: "EventOrderFilled = ''ORDER_FILLED''"
definition EventOrderPartial :: string where [simp]: "EventOrderPartial = ''ORDER_PARTIAL_FILLED''"
definition EventOrderStatus :: string where [simp]: "EventOrderStatus = ''ORDER_STATUS_CHANGED''"
definition EventOrderCanceled :: string where [simp]: "EventOrderCanceled = ''ORDER_CANCELED''"
definition EventOrderExpired :: string where [simp]: "EventOrderExpired = ''ORDER_EXPIRED''"
definition EventTradeExecuted :: string where [simp]: "EventTradeExecuted = ''TRADE_EXECUTED''"

subsection \<open>Topics\<close>

definition CoinhubOpenOrderEventTopic :: string where
  "CoinhubOpenOrderEventTopic = ''coinhub.order.open''"
definition CoinHubFilledOrderEventTopic :: string where
  "CoinHubFilledOrderEventTopic = ''coinhub.order.filled''"
definition CoinhubPartialOrderEventTopic :: string where
  "CoinhubPartialOrderEventTopic = ''coinhub.order.partial''"
definition CoinHubOrderStatusTopic :: string where
  "CoinHubOrderStatusTopic = ''coinhub.order.status''"
definition CoinHubOrderSubmittedTopic :: string where
  "CoinHubOrderSubmittedTopic = ''coinhub.order.submitted''"
definition CoinHubOrderPlacedTopic :: string where
  "CoinHubOrderPlacedTopic = ''coinhub.order.placed''"
definition CoinHubOrderCanceledTopic :: string where
  "CoinHubOrderCanceledTopic = ''coinhub.order.canceled''"
definition CoinHubOrderExpiredTopic :: string where
  "CoinHubOrderExpiredTopic = ''coinhub.order.expired''"
definition CoinHubTradeExecutedTopic :: string where
  "CoinHubTradeExecutedTopic = ''coinhub.trade.executed''"

lemmas topic_defs =
  CoinhubOpenOrderEventTopic_def CoinHubFilledOrderEventTopic_def
  CoinhubPartialOrderEventTopic_def CoinHubOrderStatusTopic_def CoinHubOrderSubmittedTopic_def
  CoinHubOrderPlacedTopic_def CoinHubOrderCanceledTopic_def CoinHubOrderExpiredTopic_def
  CoinHubTradeExecutedTopic_def

definition CoinhubOrderEventDispatcher :: "string \<Rightarrow> string" where
  "CoinhubOrderEventDispatcher eventType =
     (if eventType = EventOrderPartial then CoinhubPartialOrderEventTopic
      else if eventType = EventOrderFilled then CoinHubFilledOrderEventTopic
      else if eventType = EventOrderStatus then CoinHubOrderStatusTopic
      else if eventType = EventOrderSubmitted then CoinHubOrderSubmittedTopic
      else if eventType = EventOrderCanceled then CoinHubOrderCanceledTopic
      else if eventType = EventOrderExpired then CoinHubOrderExpiredTopic
      else if eventType = EventTradeExecuted then CoinHubTradeExecutedTopic
      else CoinHubOrderStatusTopic)"

definition CoinhubAllOrderTopicsByEventTypes :: "string list \<Rightarrow> string list" where
  "CoinhubAllOrderTopicsByEventTypes eventTypes = map CoinhubOrderEventDispatcher eventTypes"

definition CoinhubAllCurrentOrderTopics :: "string list" where
  "CoinhubAllCurrentOrderTopics =
     [CoinhubOpenOrderEventTopic, CoinHubFilledOrderEventTopic, CoinhubPartialOrderEventTopic,
      CoinHubOrderStatusTopic, CoinHubOrderSubmittedTopic, CoinHubOrderPlacedTopic,
      CoinHubOrderCanceledTopic, CoinHubOrderExpiredTopic, CoinHubTradeExecutedTopic]"

definition CoinhubTradeExecutedEventTopic :: string where
  "CoinhubTradeExecutedEventTopic = ''coinhub.trade.executed''"

definition CoinhubTradeEventDispatcher :: "string \<Rightarrow> string" where
  "CoinhubTradeEventDispatcher eventType =
     (if eventType = EventTradeExecuted then CoinhubTradeExecutedEventTopic
      else CoinhubTradeExecutedEventTopic)"

definition CoinhubAllTradeTopicsByEventTypes :: "string list \<Rightarrow> string list" where
  "CoinhubAllTradeTopicsByEventTypes eventTypes = map CoinhubTradeEventDispatcher eventTypes"

definition CoinhubAllCurrentTradeTopics :: "string list" where
  "CoinhubAllCurrentTradeTopics = [CoinhubTradeExecutedEventTopic]"

subsection \<open>Order events\<close>

record event_header =
  hEventID :: string
  hEventType :: string
  hVersion :: string
  hOccuredAt :: time

record 'd order_event =
  eHeader :: event_header
  eID :: string
  eUserID :: string
  ePair :: string
  eType :: string
  eSide :: string
  eBehavior :: string
  eExpiresAt :: time
  ePrice :: 'd
  eQuantity :: 'd
  eFilled :: 'd
  eStatus :: string
  eRemainingQty :: 'd

text \<open>What publishing an event can answer.\<close>

datatype kafka_error = MarshalError string | ProduceError string

datatype event_error =
    OrderIDRequired | EvUserIDRequired | PairFormat | EvInvalidOrderType string
  | InvalidBehavior string | ExpiresAtRequired | InvalidStatus string | InvalidEventType string
  | EvInvalidSide string | PriceNegative | QuantityNotPositive | FilledNegative | RemainingNegative
  | MakerUserRequired | TakerUserRequired | MakerOrderRequired | TakerOrderRequired
  | EvPairRequired | QuantityNegative

definition validateNewOrderEventInputs ::
  "string \<Rightarrow> string \<Rightarrow> string \<Rightarrow> string \<Rightarrow> string \<Rightarrow> string \<Rightarrow> string \<Rightarrow> 'd::linordered_idom \<Rightarrow> 'd \<Rightarrow>
   'd \<Rightarrow> 'd \<Rightarrow> string \<Rightarrow> time \<Rightarrow> event_error + unit" where
  "validateNewOrderEventInputs id0 userID pair orderType newStatus eventType side price quantity
     filled remainingQty behavior expiresAt =
     (if id0 = [] then Inl OrderIDRequired
      else if userID = [] then Inl EvUserIDRequired
      else if pair = [] \<or> \<not> contains_char CHR ''-'' pair then Inl PairFormat
      else if orderType \<noteq> kafka_OrderTypeLimit \<and> orderType \<noteq> kafka_OrderTypeMarket \<and>
              orderType \<noteq> kafka_OrderTypeCancel then Inl (EvInvalidOrderType orderType)
      else if behavior \<notin> {kafka_OrderBehaviorTIF, kafka_OrderBehaviorGTC,
              kafka_OrderBehaviorIOC, kafka_OrderBehaviorALO} then Inl (InvalidBehavior behavior)
      else if expiresAt = zero_time then Inl ExpiresAtRequired
      else if newStatus \<notin> {kafka_StatusOpen, kafka_StatusPartial, kafka_StatusFilled,
              kafka_StatusCancelled, kafka_StatusExpired} then Inl (InvalidStatus newStatus)
      else if eventType \<notin> {EventOrderSubmitted, EventOrderFilled, EventOrderPartial,
              EventOrderStatus, EventOrderCanceled, EventOrderExpired, EventTradeExecuted}
           then Inl (InvalidEventType eventType)
      else if side \<noteq> kafka_SideBuy \<and> side \<noteq> kafka_SideSell then Inl (EvInvalidSide side)
      else if price < 0 then Inl PriceNegative
      else if quantity \<le> 0 then Inl QuantityNotPositive
      else if filled < 0 then Inl FilledNegative
      else if remainingQty < 0 then Inl RemainingNegative
      else Inr ())"

text \<open>
  \<^verbatim>\<open>NewOrderEvent\<close> validates its inputs, builds an error value when they are invalid and drops it:
  the event is returned either way, as here.
\<close>

definition NewOrderEvent ::
  "'d::linordered_idom env \<Rightarrow> nat \<Rightarrow> string \<Rightarrow> string \<Rightarrow> string \<Rightarrow> string \<Rightarrow> string \<Rightarrow> string \<Rightarrow> string \<Rightarrow>
   'd \<Rightarrow> 'd \<Rightarrow> 'd \<Rightarrow> 'd \<Rightarrow> string \<Rightarrow> time \<Rightarrow> 'd order_event" where
  "NewOrderEvent e n id0 userID pair orderType newStatus eventType side price quantity filled
     remainingQty behavior expiresAt =
     (let behavior = (if behavior = [] then kafka_OrderBehaviorGTC else behavior);
          expiresAt = (if expiresAt = zero_time then clock e n + DefaultRestingOrderLifetime
                       else expiresAt);
          _ = validateNewOrderEventInputs id0 userID pair orderType newStatus eventType side price
                quantity filled remainingQty behavior expiresAt
      in \<lparr> eHeader = \<lparr> hEventID = uuid e n, hEventType = eventType, hVersion = ''v1'',
             hOccuredAt = clock e (Suc n) \<rparr>,
           eID = id0, eUserID = userID, ePair = pair, eType = orderType, eSide = side,
           eBehavior = behavior, eExpiresAt = expiresAt, ePrice = price, eQuantity = quantity,
           eFilled = filled, eStatus = newStatus, eRemainingQty = remainingQty \<rparr>)"

definition ChangeStatusEvent :: "string \<Rightarrow> string \<Rightarrow> 'd order_event \<Rightarrow> 'd order_event" where
  "ChangeStatusEvent newEventType newOrderStatus ev =
     ev\<lparr>eHeader := (eHeader ev)\<lparr>hEventType := newEventType\<rparr>, eStatus := newOrderStatus\<rparr>"

definition UpdateOrderFilled :: "'d::linordered_idom \<Rightarrow> 'd order_event \<Rightarrow> 'd order_event" where
  "UpdateOrderFilled qty ev =
     ev\<lparr>eFilled := eFilled ev + qty, eRemainingQty := eRemainingQty ev - qty\<rparr>"

text \<open>\<^verbatim>\<open>GetQuoteAsset\<close> indexes the second part of the split pair: \<open>None\<close> is its panic.\<close>

definition GetBaseAsset :: "'d order_event \<Rightarrow> string" where
  "GetBaseAsset ev = hd (split_on CHR ''-'' (ePair ev))"

definition GetQuoteAsset :: "'d order_event \<Rightarrow> string option" where
  "GetQuoteAsset ev =
     (case split_on CHR ''-'' (ePair ev) of _ # q # _ \<Rightarrow> Some q | _ \<Rightarrow> None)"

subsection \<open>Trade events\<close>

record 'd trade_event =
  tHeader :: event_header
  tMakerUserID :: string
  tTakerUserID :: string
  tMakerOrderID :: string
  tTakerOrderID :: string
  tPair :: string
  tPrice :: 'd
  tQuantity :: 'd
  tMakerFilled :: bool
  tTakerFilled :: bool
  tMakerRemaining :: string
  tTakerRemaining :: string

definition validateNewTradeEventInputs ::
  "string \<Rightarrow> string \<Rightarrow> string \<Rightarrow> string \<Rightarrow> string \<Rightarrow> 'd::linordered_idom \<Rightarrow> 'd \<Rightarrow> event_error + unit" where
  "validateNewTradeEventInputs makerUserID takerUserID makerOrderID takerOrderID pair price quantity =
     (if makerUserID = [] then Inl MakerUserRequired
      else if takerUserID = [] then Inl TakerUserRequired
      else if makerOrderID = [] then Inl MakerOrderRequired
      else if takerOrderID = [] then Inl TakerOrderRequired
      else if pair = [] then Inl EvPairRequired
      else if \<not> (contains_char CHR ''-'' pair \<or> contains_char CHR ''/'' pair) then Inl PairFormat
      else if price < 0 then Inl PriceNegative
      else if quantity < 0 then Inl QuantityNegative
      else Inr ())"

definition zero_header :: event_header where
  "zero_header = \<lparr> hEventID = [], hEventType = [], hVersion = [], hOccuredAt = zero_time \<rparr>"

definition zero_trade_event :: "'d::linordered_idom trade_event" where
  "zero_trade_event = \<lparr> tHeader = zero_header, tMakerUserID = [], tTakerUserID = [],
     tMakerOrderID = [], tTakerOrderID = [], tPair = [], tPrice = 0, tQuantity = 0,
     tMakerFilled = False, tTakerFilled = False, tMakerRemaining = [], tTakerRemaining = [] \<rparr>"

definition NewTradeStatusEvent ::
  "'d::linordered_idom env \<Rightarrow> nat \<Rightarrow> string \<Rightarrow> string \<Rightarrow> string \<Rightarrow> string \<Rightarrow> string \<Rightarrow> 'd \<Rightarrow> 'd \<Rightarrow>
   bool \<Rightarrow> bool \<Rightarrow> 'd \<Rightarrow> 'd \<Rightarrow> 'd trade_event" where
  "NewTradeStatusEvent e n makerUserID takerUserID makerOrderID takerOrderID pair price quantity
     makerFilled takerFilled makerRemaining takerRemaining =
     (case validateNewTradeEventInputs makerUserID takerUserID makerOrderID takerOrderID pair price
             quantity of
        Inl _ \<Rightarrow> zero_trade_event
      | Inr _ \<Rightarrow> \<lparr> tHeader = \<lparr> hEventID = uuid e n, hEventType = EventTradeExecuted,
             hVersion = ''v1'', hOccuredAt = clock e (Suc n) \<rparr>,
           tMakerUserID = makerUserID, tTakerUserID = takerUserID, tMakerOrderID = makerOrderID,
           tTakerOrderID = takerOrderID, tPair = pair, tPrice = price, tQuantity = quantity,
           tMakerFilled = makerFilled, tTakerFilled = takerFilled,
           tMakerRemaining = dec_str e makerRemaining, tTakerRemaining = dec_str e takerRemaining \<rparr>)"

subsection \<open>Lemmas\<close>

lemma NewOrderEvent_fields [simp]:
  "eID (NewOrderEvent e n i u p t st et s pr q f r b x) = i"
  "eUserID (NewOrderEvent e n i u p t st et s pr q f r b x) = u"
  "ePair (NewOrderEvent e n i u p t st et s pr q f r b x) = p"
  "eType (NewOrderEvent e n i u p t st et s pr q f r b x) = t"
  "eSide (NewOrderEvent e n i u p t st et s pr q f r b x) = s"
  "ePrice (NewOrderEvent e n i u p t st et s pr q f r b x) = pr"
  "eQuantity (NewOrderEvent e n i u p t st et s pr q f r b x) = q"
  "eFilled (NewOrderEvent e n i u p t st et s pr q f r b x) = f"
  "eRemainingQty (NewOrderEvent e n i u p t st et s pr q f r b x) = r"
  "eStatus (NewOrderEvent e n i u p t st et s pr q f r b x) = st"
  "hEventType (eHeader (NewOrderEvent e n i u p t st et s pr q f r b x)) = et"
  "hEventID (eHeader (NewOrderEvent e n i u p t st et s pr q f r b x)) = uuid e n"
  "hVersion (eHeader (NewOrderEvent e n i u p t st et s pr q f r b x)) = ''v1''"
  by (simp_all add: NewOrderEvent_def Let_def)

lemma event_update_fields [simp]:
  "eID (ChangeStatusEvent a b ev) = eID ev" "eID (UpdateOrderFilled q ev) = eID ev"
  "eUserID (ChangeStatusEvent a b ev) = eUserID ev" "eUserID (UpdateOrderFilled q ev) = eUserID ev"
  "ePair (ChangeStatusEvent a b ev) = ePair ev" "ePair (UpdateOrderFilled q ev) = ePair ev"
  "eSide (ChangeStatusEvent a b ev) = eSide ev" "eSide (UpdateOrderFilled q ev) = eSide ev"
  "eType (ChangeStatusEvent a b ev) = eType ev" "eType (UpdateOrderFilled q ev) = eType ev"
  "ePrice (ChangeStatusEvent a b ev) = ePrice ev" "ePrice (UpdateOrderFilled q ev) = ePrice ev"
  "eQuantity (ChangeStatusEvent a b ev) = eQuantity ev" "eQuantity (UpdateOrderFilled q ev) = eQuantity ev"
  "eFilled (ChangeStatusEvent a b ev) = eFilled ev" "eFilled (UpdateOrderFilled q ev) = eFilled ev + q"
  "eRemainingQty (ChangeStatusEvent a b ev) = eRemainingQty ev"
  "eRemainingQty (UpdateOrderFilled q ev) = eRemainingQty ev - q"
  "eStatus (ChangeStatusEvent a b ev) = b" "eStatus (UpdateOrderFilled q ev) = eStatus ev"
  "hEventType (eHeader (ChangeStatusEvent a b ev)) = a" "eHeader (UpdateOrderFilled q ev) = eHeader ev"
  "hEventID (eHeader (ChangeStatusEvent a b ev)) = hEventID (eHeader ev)"
  by (simp_all add: ChangeStatusEvent_def UpdateOrderFilled_def)

text \<open>The amounts of an event agree: what is filled and what remains make up the quantity.\<close>

definition event_balanced :: "'d::linordered_idom order_event \<Rightarrow> bool" where
  "event_balanced ev = (eFilled ev + eRemainingQty ev = eQuantity ev \<and> 0 \<le> eFilled ev \<and>
     0 \<le> eRemainingQty ev)"

lemma event_balanced_update:
  "event_balanced ev \<Longrightarrow> 0 \<le> q \<Longrightarrow> q \<le> eRemainingQty ev \<Longrightarrow> event_balanced (UpdateOrderFilled q ev)"
  by (simp add: event_balanced_def)

lemma event_balanced_change [simp]: "event_balanced (ChangeStatusEvent a b ev) = event_balanced ev"
  by (simp add: event_balanced_def)

lemma validateNewOrderEventInputs_Inr:
  "validateNewOrderEventInputs i u p t st et s pr q f r b x = Inr () \<longleftrightarrow>
   i \<noteq> [] \<and> u \<noteq> [] \<and> (p \<noteq> [] \<and> contains_char CHR ''-'' p) \<and>
   (t = kafka_OrderTypeLimit \<or> t = kafka_OrderTypeMarket \<or> t = kafka_OrderTypeCancel) \<and>
   b \<in> {kafka_OrderBehaviorTIF, kafka_OrderBehaviorGTC, kafka_OrderBehaviorIOC,
        kafka_OrderBehaviorALO} \<and>
   x \<noteq> zero_time \<and>
   st \<in> {kafka_StatusOpen, kafka_StatusPartial, kafka_StatusFilled, kafka_StatusCancelled,
         kafka_StatusExpired} \<and>
   et \<in> {EventOrderSubmitted, EventOrderFilled, EventOrderPartial, EventOrderStatus,
         EventOrderCanceled, EventOrderExpired, EventTradeExecuted} \<and>
   (s = kafka_SideBuy \<or> s = kafka_SideSell) \<and>
   \<not> pr < 0 \<and> \<not> q \<le> 0 \<and> \<not> f < 0 \<and> \<not> r < 0"
  unfolding validateNewOrderEventInputs_def guard_Inr
  by (simp only: de_Morgan_conj de_Morgan_disj not_not simp_thms)

lemma validateNewTradeEventInputs_Inr:
  "validateNewTradeEventInputs mu tu mo to p pr q = Inr y \<longleftrightarrow>
   mu \<noteq> [] \<and> tu \<noteq> [] \<and> mo \<noteq> [] \<and> to \<noteq> [] \<and>
   (CHR ''-'' \<in> set p \<or> CHR ''/'' \<in> set p) \<and> 0 \<le> pr \<and> 0 \<le> q"
  unfolding validateNewTradeEventInputs_def by (auto simp: contains_char_def)

lemma NewTradeStatusEvent_valid:
  assumes "mu \<noteq> []" "tu \<noteq> []" "mo \<noteq> []" "to \<noteq> []" "CHR ''-'' \<in> set p \<or> CHR ''/'' \<in> set p"
    and "0 \<le> pr" "0 \<le> q"
  shows "NewTradeStatusEvent e n mu tu mo to p pr q mf tf mr tr =
    \<lparr> tHeader = \<lparr> hEventID = uuid e n, hEventType = EventTradeExecuted, hVersion = ''v1'',
        hOccuredAt = clock e (Suc n) \<rparr>,
      tMakerUserID = mu, tTakerUserID = tu, tMakerOrderID = mo, tTakerOrderID = to, tPair = p,
      tPrice = pr, tQuantity = q, tMakerFilled = mf, tTakerFilled = tf,
      tMakerRemaining = dec_str e mr, tTakerRemaining = dec_str e tr \<rparr>"
proof -
  have "validateNewTradeEventInputs mu tu mo to p pr q = Inr ()"
    using assms by (simp add: validateNewTradeEventInputs_Inr)
  then show ?thesis by (simp add: NewTradeStatusEvent_def)
qed

lemma GetQuoteAsset_None_iff: "GetQuoteAsset ev = None \<longleftrightarrow> CHR ''-'' \<notin> set (ePair ev)"
proof -
  obtain p ps where ps: "split_on CHR ''-'' (ePair ev) = p # ps"
    by (metis list.exhaust split_on_not_Nil)
  have "ps = [] \<longleftrightarrow> count_list (ePair ev) CHR ''-'' = 0"
    using length_split_on [of "CHR ''-''" "ePair ev"] ps by (simp flip: length_0_conv)
  then show ?thesis by (auto simp: GetQuoteAsset_def ps count_list_0_iff split: list.splits)
qed

lemma dispatcher_current: "CoinhubOrderEventDispatcher et \<in> set CoinhubAllCurrentOrderTopics"
  by (simp add: CoinhubOrderEventDispatcher_def CoinhubAllCurrentOrderTopics_def)

end
