(* ===== verification/Engine_Order.thy ===== *)
theory Engine_Order
  imports Event_Types
begin

text \<open>
  \<^verbatim>\<open>internal/engine/order.go\<close>, errors.go and price\_level.go: the engine's order, its accessors and
  mutators, and a price level. A price level holds pointers to orders, and the matching loops write
  through them while they iterate over a copy of the slice, so the model keeps the orders in an
  explicit store: a pointer is a natural number, the store maps it to the order.
\<close>

datatype engine_error =
    ErrOrderbookEmpty | ErrOrderNotValid | ErrOrderNotFoundInOrderbook | ErrNoOrderbookForPair string
  | ErrNoBestOrderInOrderbook | ErrOrderNotFoundInPriceLevel
  | ErrPublishOrderEventFailed kafka_error | ErrPublishCancelEventFailed kafka_error
  | ErrInitOrderConsumerFailed | ErrInvalidSymbolFormat string
  | ErrRepository string

definition OrderTypeLimit :: string where [simp]: "OrderTypeLimit = ''limit''"
definition OrderTypeMarket :: string where [simp]: "OrderTypeMarket = ''market''"
definition OrderTypeCancel :: string where [simp]: "OrderTypeCancel = ''cancel''"
definition SideBuy :: string where [simp]: "SideBuy = ''buy''"
definition SideSell :: string where [simp]: "SideSell = ''sell''"
definition StatusOpen :: string where [simp]: "StatusOpen = ''open''"
definition StatusPartial :: string where [simp]: "StatusPartial = ''partial''"
definition StatusFilled :: string where [simp]: "StatusFilled = ''filled''"
definition StatusCancelled :: string where [simp]: "StatusCancelled = ''cancelled''"
definition OrderBehaviorGTC :: string where [simp]: "OrderBehaviorGTC = ''GTC''"

record 'd order =
  oID :: string
  oUserID :: string
  oPair :: string
  oType :: string
  oSide :: string
  oBehavior :: string
  oPrice :: 'd
  oQuantity :: 'd
  oFilled :: 'd
  oStatus :: string
  oExpiresAt :: time
  oTimestamp :: time

definition NewOrder ::
  "'d::linordered_idom env \<Rightarrow> nat \<Rightarrow> string \<Rightarrow> string \<Rightarrow> string \<Rightarrow> string \<Rightarrow> 'd \<Rightarrow> 'd \<Rightarrow> time option
   \<Rightarrow> 'd order" where
  "NewOrder e n userID pair orderType side price quantity expireAt =
     (let now = clock e n
      in \<lparr> oID = uuid e n, oUserID = userID, oPair = pair, oType = orderType, oSide = side,
           oBehavior = OrderBehaviorGTC, oPrice = price, oQuantity = quantity, oFilled = 0,
           oStatus = StatusOpen, oExpiresAt = RestingOrderExpiresAt expireAt now,
           oTimestamp = now \<rparr>)"

definition Remaining :: "'d::linordered_idom order \<Rightarrow> 'd" where
  "Remaining o1 = oQuantity o1 - oFilled o1"

definition IsPartial :: "'d::linordered_idom order \<Rightarrow> bool" where
  "IsPartial o1 = (Remaining o1 \<noteq> 0)"

definition IsFilled :: "'d::linordered_idom order \<Rightarrow> bool" where
  "IsFilled o1 = (Remaining o1 = 0)"

definition ChangeStatusTo :: "string \<Rightarrow> 'd order \<Rightarrow> 'd order" where
  "ChangeStatusTo s o1 = o1\<lparr>oStatus := s\<rparr>"

text \<open>\<^verbatim>\<open>AddToFilled\<close> computes the sum and drops it: the filled amount stays.\<close>

definition AddToFilled :: "'d::linordered_idom \<Rightarrow> 'd order \<Rightarrow> 'd order" where
  "AddToFilled qty o1 = (let _ = oFilled o1 + qty in ChangeStatusTo StatusPartial o1)"

type_synonym 'd store = "nat \<Rightarrow> 'd order"

subsection \<open>Price levels (price\_level.go)\<close>

record 'd level =
  lvPrice :: 'd
  lvOrders :: "nat list"

definition NewPriceLevel :: "nat list \<Rightarrow> 'd \<Rightarrow> 'd level" where
  "NewPriceLevel orders price = \<lparr> lvPrice = price, lvOrders = orders \<rparr>"

definition AskLevel_Less :: "'d::linordered_idom level \<Rightarrow> 'd level \<Rightarrow> bool" where
  "AskLevel_Less a other = (lvPrice a < lvPrice other)"

definition BidLevel_Less :: "'d::linordered_idom level \<Rightarrow> 'd level \<Rightarrow> bool" where
  "BidLevel_Less b other = (lvPrice b > lvPrice other)"

definition RemoveFilledOrderInPriceLevel :: "nat \<Rightarrow> 'd level \<Rightarrow> 'd level" where
  "RemoveFilledOrderInPriceLevel idx pl = pl\<lparr>lvOrders := remove_nth idx (lvOrders pl)\<rparr>"

definition RemoveOrderInPriceLevelBasedOnOrderID ::
  "'d store \<Rightarrow> string \<Rightarrow> 'd level \<Rightarrow> engine_error + 'd level" where
  "RemoveOrderInPriceLevelBasedOnOrderID st orderID pl =
     (case index_of (\<lambda>r. oID (st r) = orderID) (lvOrders pl) of
        Some i \<Rightarrow> Inr (pl\<lparr>lvOrders := remove_nth i (lvOrders pl)\<rparr>)
      | None \<Rightarrow> Inl ErrOrderNotFoundInPriceLevel)"

definition OrderExistByOrderID :: "'d store \<Rightarrow> string \<Rightarrow> 'd level \<Rightarrow> bool" where
  "OrderExistByOrderID st orderID pl = list_ex (\<lambda>r. oID (st r) = orderID) (lvOrders pl)"

definition OrderExistByOrderIDAndReturn :: "'d store \<Rightarrow> string \<Rightarrow> 'd level \<Rightarrow> nat option" where
  "OrderExistByOrderIDAndReturn st orderID pl =
     (case index_of (\<lambda>r. oID (st r) = orderID) (lvOrders pl) of
        Some idx \<Rightarrow> Some (lvOrders pl ! idx) | None \<Rightarrow> None)"

subsection \<open>Lemmas\<close>

text \<open>An order is filled between nothing and its quantity.\<close>

definition order_ok :: "'d::linordered_idom order \<Rightarrow> bool" where
  "order_ok o1 = (0 \<le> oFilled o1 \<and> oFilled o1 \<le> oQuantity o1)"

lemma order_ok_Remaining: "order_ok o1 \<Longrightarrow> 0 \<le> Remaining o1"
  by (simp add: order_ok_def Remaining_def)

lemma Remaining_simps [simp]:
  "Remaining (o1\<lparr>oFilled := oFilled o1 + q\<rparr>) = Remaining o1 - q"
  "Remaining (ChangeStatusTo s o1) = Remaining o1"
  by (simp_all add: Remaining_def ChangeStatusTo_def)

lemma ChangeStatusTo_fields [simp]:
  "oID (ChangeStatusTo s o1) = oID o1" "oUserID (ChangeStatusTo s o1) = oUserID o1"
  "oPair (ChangeStatusTo s o1) = oPair o1" "oPrice (ChangeStatusTo s o1) = oPrice o1"
  "oSide (ChangeStatusTo s o1) = oSide o1" "oType (ChangeStatusTo s o1) = oType o1"
  "oBehavior (ChangeStatusTo s o1) = oBehavior o1"
  "oQuantity (ChangeStatusTo s o1) = oQuantity o1" "oFilled (ChangeStatusTo s o1) = oFilled o1"
  "oStatus (ChangeStatusTo s o1) = s" "oExpiresAt (ChangeStatusTo s o1) = oExpiresAt o1"
  by (simp_all add: ChangeStatusTo_def)

lemma order_ok_status [simp]: "order_ok (ChangeStatusTo s o1) = order_ok o1"
  by (simp add: order_ok_def)

lemma order_ok_fill:
  "order_ok o1 \<Longrightarrow> 0 \<le> q \<Longrightarrow> q \<le> Remaining o1 \<Longrightarrow> order_ok (o1\<lparr>oFilled := oFilled o1 + q\<rparr>)"
  by (simp add: order_ok_def Remaining_def)

lemma NewOrder_fields [simp]:
  "oFilled (NewOrder e n u p t s pr q x) = 0" "oQuantity (NewOrder e n u p t s pr q x) = q"
  "oPrice (NewOrder e n u p t s pr q x) = pr" "oID (NewOrder e n u p t s pr q x) = uuid e n"
  "oUserID (NewOrder e n u p t s pr q x) = u" "oPair (NewOrder e n u p t s pr q x) = p"
  "oType (NewOrder e n u p t s pr q x) = t" "oSide (NewOrder e n u p t s pr q x) = s"
  "oStatus (NewOrder e n u p t s pr q x) = ''open''"
  "oBehavior (NewOrder e n u p t s pr q x) = ''GTC''"
  by (simp_all add: NewOrder_def Let_def)

lemma RemoveOrder_InrD:
  assumes "RemoveOrderInPriceLevelBasedOnOrderID st i pl = Inr pl'"
  shows "lvPrice pl' = lvPrice pl \<and>
         (\<exists>k < length (lvOrders pl). oID (st (lvOrders pl ! k)) = i \<and>
            (\<forall>j < k. oID (st (lvOrders pl ! j)) \<noteq> i) \<and> lvOrders pl' = remove_nth k (lvOrders pl))"
  using assms
  by (auto simp: RemoveOrderInPriceLevelBasedOnOrderID_def dest!: index_of_SomeD split: option.splits)

lemma RemoveOrder_Inl_iff:
  "RemoveOrderInPriceLevelBasedOnOrderID st i pl = Inl err \<longleftrightarrow>
   err = ErrOrderNotFoundInPriceLevel \<and> \<not> OrderExistByOrderID st i pl"
proof (cases "index_of (\<lambda>r. oID (st r) = i) (lvOrders pl)")
  case (Some k)
  then have "\<exists>r \<in> set (lvOrders pl). oID (st r) = i"
    using index_of_SomeD [OF Some] nth_mem by blast
  then show ?thesis
    by (auto simp: RemoveOrderInPriceLevelBasedOnOrderID_def OrderExistByOrderID_def list_ex_iff Some)
next
  case None
  have "\<not> OrderExistByOrderID st i pl"
    using None by (simp add: OrderExistByOrderID_def list_ex_iff)
  then show ?thesis unfolding RemoveOrderInPriceLevelBasedOnOrderID_def None by auto
qed

end
