(* ===== verification/Book_Side.thy ===== *)
theory Book_Side
  imports Level_Tree Engine_Order
begin

text \<open>
  \<^verbatim>\<open>internal/engine/side.go\<close>: one side of an order book, price levels ordered by the side's
  \<^verbatim>\<open>less\<close>: ascending prices for asks, descending for bids. The locale \<open>price_queues\<close> is the contract the
  order book relies on, a FIFO queue of order pointers per price with a best price; it is interpreted
  on the side's operations.
\<close>

record 'd side =
  sLevels :: "'d level list"
  sIsAsk :: bool
  sDegree :: int

definition side_less :: "bool \<Rightarrow> 'd::linordered_idom level \<Rightarrow> 'd level \<Rightarrow> bool" where
  "side_less isAsk a b = (if isAsk then lvPrice a < lvPrice b else lvPrice a > lvPrice b)"

definition NewSide :: "int \<Rightarrow> bool \<Rightarrow> 'd side" where
  "NewSide degree isAsk =
     (let degree = (if degree = 0 then 32 else degree)
      in \<lparr> sLevels = [], sIsAsk = isAsk, sDegree = degree \<rparr>)"

definition Side_Add :: "'d::linordered_idom store \<Rightarrow> nat \<Rightarrow> 'd side \<Rightarrow> 'd side" where
  "Side_Add st r s =
     (let key = NewPriceLevel [] (oPrice (st r)); lt = side_less (sIsAsk s);
          levels = (case bt_get lt key (sLevels s) of
                      Some existing \<Rightarrow> sLevels s
                    | None \<Rightarrow> bt_replace_or_insert lt key (sLevels s))
      in s\<lparr>sLevels := bt_update lt key (\<lambda>lv. lv\<lparr>lvOrders := lvOrders lv @ [r]\<rparr>) levels\<rparr>)"

definition BestPriceLevel :: "'d side \<Rightarrow> 'd level option" where
  "BestPriceLevel s = (case sLevels s of [] \<Rightarrow> None | p1 # _ \<Rightarrow> Some p1)"

definition PopFront :: "'d::linordered_idom side \<Rightarrow> 'd side" where
  "PopFront s =
     (case sLevels s of
        [] \<Rightarrow> s
      | p # rest \<Rightarrow>
          let first = (if 0 < length (lvOrders p) then p\<lparr>lvOrders := tl (lvOrders p)\<rparr> else p)
          in if length (lvOrders first) = 0
             then s\<lparr>sLevels := bt_delete (side_less (sIsAsk s)) first (first # rest)\<rparr>
             else s\<lparr>sLevels := first # rest\<rparr>)"

definition RemoveLevel :: "'d::linordered_idom \<Rightarrow> 'd side \<Rightarrow> 'd side" where
  "RemoveLevel price s =
     s\<lparr>sLevels := bt_delete (side_less (sIsAsk s)) (NewPriceLevel [] price) (sLevels s)\<rparr>"

definition GetLevel :: "'d::linordered_idom \<Rightarrow> 'd side \<Rightarrow> 'd level option" where
  "GetLevel price s = bt_get (side_less (sIsAsk s)) (NewPriceLevel [] price) (sLevels s)"

text \<open>The empty levels are collected first and then deleted one by one.\<close>

definition RemoveEmptyLevel :: "'d::linordered_idom side \<Rightarrow> 'd side" where
  "RemoveEmptyLevel s =
     (let empty = filter (\<lambda>p. length (lvOrders p) = 0) (sLevels s)
      in s\<lparr>sLevels := fold (bt_delete (side_less (sIsAsk s))) empty (sLevels s)\<rparr>)"

text \<open>\<^verbatim>\<open>removeEmptyLevels\<close> of helper.go, the same on a slice of levels.\<close>

definition removeEmptyLevels :: "'d level list \<Rightarrow> 'd level list" where
  "removeEmptyLevels levels = filter (\<lambda>lvl. 0 < length (lvOrders lvl)) levels"

subsection \<open>The order of the levels\<close>

interpretation side_order: level_order "side_less a" for a
proof
  show "\<not> side_less a x x" for x :: "'d::linordered_idom level" by (simp add: side_less_def)
qed (auto simp: side_less_def equiv_by_def split: if_splits)

lemma equiv_side_less [simp]: "equiv_by (side_less a) x y \<longleftrightarrow> lvPrice x = lvPrice y"
  by (auto simp: equiv_by_def side_less_def)

lemma NewPriceLevel_fields [simp]:
  "lvPrice (NewPriceLevel os p) = p" "lvOrders (NewPriceLevel os p) = os"
  by (simp_all add: NewPriceLevel_def)

subsection \<open>Well-formed sides\<close>

definition side_refs :: "'d side \<Rightarrow> nat list" where
  "side_refs s = concat (map lvOrders (sLevels s))"

definition level_wf :: "'d::linordered_idom store \<Rightarrow> nat \<Rightarrow> 'd level \<Rightarrow> bool" where
  "level_wf st n lv = (\<forall>r \<in> set (lvOrders lv). r < n \<and> oPrice (st r) = lvPrice lv)"

text \<open>Sorted levels, whose pointers are allocated, carry the level's price and occur once.\<close>

definition side_wf :: "'d::linordered_idom store \<Rightarrow> nat \<Rightarrow> 'd side \<Rightarrow> bool" where
  "side_wf st n s = (sorted_wrt (side_less (sIsAsk s)) (sLevels s) \<and>
     (\<forall>lv \<in> set (sLevels s). level_wf st n lv) \<and> distinct (side_refs s))"

definition no_empty_level :: "'d side \<Rightarrow> bool" where
  "no_empty_level s = (\<forall>lv \<in> set (sLevels s). lvOrders lv \<noteq> [])"

definition side_ok :: "'d::linordered_idom store \<Rightarrow> nat \<Rightarrow> 'd side \<Rightarrow> bool" where
  "side_ok st n s = (side_wf st n s \<and> no_empty_level s)"

text \<open>The queue at a price: empty when there is no level.\<close>

definition queue_at :: "'d::linordered_idom side \<Rightarrow> 'd \<Rightarrow> nat list" where
  "queue_at s p = (case GetLevel p s of None \<Rightarrow> [] | Some lv \<Rightarrow> lvOrders lv)"

lemma side_ok_NewSide [simp]: "side_ok st n (NewSide d a)"
  by (simp add: side_ok_def side_wf_def no_empty_level_def NewSide_def side_refs_def Let_def)

lemma sorted_prices_distinct:
  assumes "sorted_wrt (side_less a) ls" and "x \<in> set ls" and "y \<in> set ls"
    and "lvPrice x = lvPrice y"
  shows "x = y"
proof -
  have "bt_get (side_less a) x ls = Some x"
    by (rule side_order.get_unique [OF assms(1,2)]) simp
  moreover have "bt_get (side_less a) x ls = Some y"
    by (rule side_order.get_unique [OF assms(1,3)]) (simp add: assms(4))
  ultimately show ?thesis by simp
qed

lemma side_refs_set: "set (side_refs s) = (\<Union>lv \<in> set (sLevels s). set (lvOrders lv))"
  by (simp add: side_refs_def)

lemma side_wf_mono:
  "side_wf st n s \<Longrightarrow> n \<le> n' \<Longrightarrow> (\<And>r. r < n \<Longrightarrow> oPrice (st' r) = oPrice (st r)) \<Longrightarrow> side_wf st' n' s"
  by (fastforce simp: side_wf_def level_wf_def)

lemma side_wf_refs_bound: "side_wf st n s \<Longrightarrow> r \<in> set (side_refs s) \<Longrightarrow> r < n"
  by (auto simp: side_wf_def level_wf_def side_refs_set)

text \<open>Appending a pointer to a level of the list, and inserting a fresh level.\<close>

lemma update_absent: "\<forall>x \<in> set ls. lvPrice x \<noteq> lvPrice k \<Longrightarrow> bt_update (side_less a) k f ls = ls"
  by (induction ls) (auto simp: bt_update_def)

lemma mset_refs_update:
  assumes "sorted_wrt (side_less a) ls" and "lv \<in> set ls" and "lvPrice lv = lvPrice k"
  shows "mset (concat (map lvOrders (bt_update (side_less a) k (\<lambda>lv. lv\<lparr>lvOrders := lvOrders lv @ [r]\<rparr>) ls)))
       = add_mset r (mset (concat (map lvOrders ls)))"
  using assms
proof (induction ls)
  case (Cons x xs)
  show ?case
  proof (cases "lvPrice x = lvPrice k")
    case True
    have "lvPrice y \<noteq> lvPrice k" if "y \<in> set xs" for y
      using side_order.sorted_not_equiv_rest [OF Cons.prems(1) _ that, of k] True by auto
    then have "bt_update (side_less a) k (\<lambda>lv. lv\<lparr>lvOrders := lvOrders lv @ [r]\<rparr>) xs = xs"
      by (intro update_absent) simp
    then show ?thesis using True by (simp add: bt_update_def)
  next
    case False
    with Cons show ?thesis by (auto simp: bt_update_def)
  qed
qed simp

lemma mset_refs_insert:
  assumes "bt_get (side_less a) k ls = None" and "lvOrders k = []"
  shows "mset (concat (map lvOrders (bt_replace_or_insert (side_less a) k ls)))
       = mset (concat (map lvOrders ls))"
proof -
  have "mset (concat (map lvOrders xs)) = \<Sum>\<^sub># (image_mset (mset \<circ> lvOrders) (mset xs))" for xs :: "'a level list"
    by (induction xs) auto
  then show ?thesis using side_order.mset_insert_absent [OF assms(1)] assms(2) by simp
qed

subsection \<open>The queue at a price\<close>

lemma queue_Cons:
  "queue_at (s\<lparr>sLevels := x # xs\<rparr>) p =
   (if lvPrice x = p then lvOrders x else queue_at (s\<lparr>sLevels := xs\<rparr>) p)"
  by (auto simp: queue_at_def GetLevel_def)

lemma queue_Nil [simp]: "queue_at (s\<lparr>sLevels := []\<rparr>) p = []"
  by (simp add: queue_at_def GetLevel_def)

lemma queue_absent: "\<forall>lv \<in> set ls. lvPrice lv \<noteq> p \<Longrightarrow> queue_at (s\<lparr>sLevels := ls\<rparr>) p = []"
  by (induction ls) (auto simp: queue_Cons)

lemma queue_update:
  "queue_at (s\<lparr>sLevels := bt_update (side_less a) k (\<lambda>lv. lv\<lparr>lvOrders := lvOrders lv @ [r]\<rparr>) ls\<rparr>) p =
   (if p = lvPrice k \<and> (\<exists>lv \<in> set ls. lvPrice lv = p)
    then queue_at (s\<lparr>sLevels := ls\<rparr>) p @ [r] else queue_at (s\<lparr>sLevels := ls\<rparr>) p)"
proof (induction ls)
  case (Cons x xs)
  have "bt_update (side_less a) k f (x # xs) =
        (if lvPrice k = lvPrice x then f x else x) # bt_update (side_less a) k f xs" for f
    by (simp add: bt_update_def)
  with Cons show ?case by (auto simp: queue_Cons queue_absent)
qed (simp add: bt_update_def)

lemma queue_insert:
  assumes "\<forall>lv \<in> set ls. lvPrice lv \<noteq> lvPrice k" and "lvOrders k = []"
  shows "queue_at (s\<lparr>sLevels := bt_replace_or_insert (side_less a) k ls\<rparr>) p =
         queue_at (s\<lparr>sLevels := ls\<rparr>) p"
  using assms(1)
proof (induction ls)
  case Nil
  show ?case by (simp add: queue_Cons assms(2))
next
  case (Cons x xs)
  show ?case
  proof (cases "side_less a k x")
    case True
    then show ?thesis
      using Cons.prems queue_absent [of "x # xs" "lvPrice k" s]
      by (auto simp: queue_Cons assms(2))
  next
    case False
    with Cons.prems have "side_less a x k" by (auto simp: side_less_def)
    with False Cons show ?thesis by (simp add: queue_Cons)
  qed
qed

text \<open>What \<^verbatim>\<open>Side.Add\<close> leaves: the levels with a level at the price, then the order appended there.\<close>

definition with_level :: "'d::linordered_idom level \<Rightarrow> 'd side \<Rightarrow> 'd level list" where
  "with_level key s = (case bt_get (side_less (sIsAsk s)) key (sLevels s) of
     Some existing \<Rightarrow> sLevels s | None \<Rightarrow> bt_replace_or_insert (side_less (sIsAsk s)) key (sLevels s))"

lemma Side_Add_with_level:
  "Side_Add st r s = s\<lparr>sLevels := bt_update (side_less (sIsAsk s)) (NewPriceLevel [] (oPrice (st r)))
     (\<lambda>lv. lv\<lparr>lvOrders := lvOrders lv @ [r]\<rparr>) (with_level (NewPriceLevel [] (oPrice (st r))) s)\<rparr>"
  by (simp add: Side_Add_def with_level_def Let_def)

lemma with_level_sorted:
  "sorted_wrt (side_less (sIsAsk s)) (sLevels s) \<Longrightarrow>
   sorted_wrt (side_less (sIsAsk s)) (with_level k s)"
  by (auto simp: with_level_def side_order.sorted_insert split: option.split)

lemma with_level_present: "\<exists>lv \<in> set (with_level k s). lvPrice lv = lvPrice k"
proof (cases "bt_get (side_less (sIsAsk s)) k (sLevels s)")
  case None
  have "bt_get (side_less (sIsAsk s)) k (with_level k s) = Some k"
    using None by (simp add: with_level_def side_order.get_insert_same)
  then show ?thesis using side_order.get_Some by fastforce
next
  case (Some lv)
  then show ?thesis using side_order.get_Some [OF Some] by (auto simp: with_level_def)
qed

lemma with_level_set: "set (with_level k s) \<subseteq> insert k (set (sLevels s))"
  using side_order.set_insert_subset by (fastforce simp: with_level_def split: option.splits)

lemma with_level_queue: "lvOrders k = [] \<Longrightarrow> queue_at (s\<lparr>sLevels := with_level k s\<rparr>) p = queue_at s p"
proof (cases "bt_get (side_less (sIsAsk s)) k (sLevels s)")
  case None
  assume "lvOrders k = []"
  moreover from None have "\<forall>lv \<in> set (sLevels s). lvPrice lv \<noteq> lvPrice k"
    by (auto simp: side_order.get_None)
  ultimately have "queue_at (s\<lparr>sLevels := bt_replace_or_insert (side_less (sIsAsk s)) k (sLevels s)\<rparr>) p
    = queue_at (s\<lparr>sLevels := sLevels s\<rparr>) p" by (intro queue_insert)
  then show ?thesis by (simp add: with_level_def None)
qed (simp add: with_level_def)

lemma with_level_refs:
  "lvOrders k = [] \<Longrightarrow> mset (concat (map lvOrders (with_level k s))) = mset (side_refs s)"
  by (cases "bt_get (side_less (sIsAsk s)) k (sLevels s)")
     (auto simp: with_level_def side_refs_def mset_refs_insert)

lemma Side_Add_IsAsk [simp]: "sIsAsk (Side_Add st r s) = sIsAsk s"
  by (simp add: Side_Add_with_level)

lemma Side_Add_refs:
  assumes "sorted_wrt (side_less (sIsAsk s)) (sLevels s)"
  shows "mset (side_refs (Side_Add st r s)) = add_mset r (mset (side_refs s))"
proof -
  obtain lv where "lv \<in> set (with_level (NewPriceLevel [] (oPrice (st r))) s)"
    and "lvPrice lv = lvPrice (NewPriceLevel [] (oPrice (st r)))"
    using with_level_present by blast
  from mset_refs_update [OF with_level_sorted [OF assms] this]
  show ?thesis by (simp add: Side_Add_with_level side_refs_def [of "s\<lparr>sLevels := x\<rparr>" for x] with_level_refs)
qed

lemma Side_Add_queue:
  "queue_at (Side_Add st r s) = (queue_at s)(oPrice (st r) := queue_at s (oPrice (st r)) @ [r])"
proof
  fix p
  let ?k = "NewPriceLevel [] (oPrice (st r))"
  show "queue_at (Side_Add st r s) p =
        ((queue_at s)(oPrice (st r) := queue_at s (oPrice (st r)) @ [r])) p"
    using with_level_present [of ?k s] with_level_queue [of ?k s]
    by (auto simp: Side_Add_with_level queue_update)
qed

lemma Side_Add_levels:
  assumes "lv \<in> set (sLevels (Side_Add st r s))"
  shows "lv \<in> set (sLevels s) \<and> lvPrice lv \<noteq> oPrice (st r) \<or>
     (lvPrice lv = oPrice (st r) \<and>
      (lvOrders lv = [r] \<or> (\<exists>lv' \<in> set (sLevels s). lvPrice lv' = lvPrice lv \<and> lvOrders lv = lvOrders lv' @ [r])))"
proof -
  let ?k = "NewPriceLevel [] (oPrice (st r))"
  obtain x where x: "x \<in> set (with_level ?k s)"
    and lv: "lv = (if oPrice (st r) = lvPrice x then x\<lparr>lvOrders := lvOrders x @ [r]\<rparr> else x)"
    using assms by (auto simp: Side_Add_with_level bt_update_def)
  from x with_level_set [of ?k s] consider "x = ?k" | "x \<in> set (sLevels s)" by blast
  then show ?thesis by cases (auto simp: lv)
qed

lemma Side_Add_sorted:
  "sorted_wrt (side_less (sIsAsk s)) (sLevels s) \<Longrightarrow>
   sorted_wrt (side_less (sIsAsk s)) (sLevels (Side_Add st r s))"
  unfolding Side_Add_with_level
  by (simp, rule side_order.sorted_update [OF with_level_sorted]) simp_all

lemma Side_Add_wf [inv_intros]:
  assumes "side_wf st n s" and "r < n" and "r \<notin> set (side_refs s)"
  shows "side_wf st n (Side_Add st r s)"
proof -
  have srt: "sorted_wrt (side_less (sIsAsk s)) (sLevels s)" using assms(1) by (simp add: side_wf_def)
  have "distinct (side_refs (Side_Add st r s))"
    using Side_Add_refs [OF srt, of st r] assms by (metis side_wf_def distinct.simps(2) mset.simps(2) mset_eq_imp_distinct_iff)
  moreover have "level_wf st n lv" if "lv \<in> set (sLevels (Side_Add st r s))" for lv
    using Side_Add_levels [OF that] assms(1,2) by (auto simp: side_wf_def level_wf_def)
  ultimately show ?thesis using Side_Add_sorted [OF srt] by (simp add: side_wf_def)
qed

lemma Side_Add_no_empty [inv_intros]: "no_empty_level s \<Longrightarrow> no_empty_level (Side_Add st r s)"
  unfolding no_empty_level_def using Side_Add_levels by (metis append_is_Nil_conv not_Cons_self2)

subsection \<open>Taking orders off the front, dropping empty levels\<close>

lemma PopFront_levels:
  "sLevels (PopFront s) =
   (case sLevels s of [] \<Rightarrow> []
    | p # rest \<Rightarrow> if tl (lvOrders p) = [] then rest else p\<lparr>lvOrders := tl (lvOrders p)\<rparr> # rest)"
  by (auto simp: PopFront_def Let_def split: list.split)

lemma PopFront_IsAsk [simp]: "sIsAsk (PopFront s) = sIsAsk s"
  by (auto simp: PopFront_def Let_def split: list.split)

lemma PopFront_no_empty [inv_intros]: "no_empty_level s \<Longrightarrow> no_empty_level (PopFront s)"
  by (cases "sLevels s") (auto simp: no_empty_level_def PopFront_levels)

lemma PopFront_wf [inv_intros]: "side_wf st n s \<Longrightarrow> side_wf st n (PopFront s)"
proof (cases "sLevels s")
  case (Cons p rest)
  assume wf: "side_wf st n s"
  note tl = set_tl_subset [of "lvOrders p"]
  have srt: "sorted_wrt (side_less (sIsAsk s)) (sLevels (PopFront s))"
    using wf by (auto simp: side_wf_def PopFront_levels Cons side_less_def split: if_splits)
  have "level_wf st n lv" if "lv \<in> set (sLevels (PopFront s))" for lv
    using that wf tl by (auto simp: side_wf_def level_wf_def PopFront_levels Cons split: if_splits)
  moreover have "distinct (side_refs (PopFront s))"
    using wf tl by (auto simp: side_wf_def side_refs_def PopFront_levels Cons distinct_tl)
  ultimately show ?thesis using srt by (simp add: side_wf_def)
qed (simp add: PopFront_def)

lemma PopFront_refs: "set (side_refs (PopFront s)) \<subseteq> set (side_refs s)"
proof (cases "sLevels s")
  case (Cons p rest)
  then show ?thesis using set_tl_subset [of "lvOrders p"] by (auto simp: side_refs_def PopFront_levels)
qed (simp add: PopFront_def)

lemma BestPriceLevel_Some: "BestPriceLevel s = Some p \<longleftrightarrow> (\<exists>rest. sLevels s = p # rest)"
  by (auto simp: BestPriceLevel_def split: list.splits)

lemma PopFront_queue:
  assumes "sorted_wrt (side_less (sIsAsk s)) (sLevels s)" and "BestPriceLevel s = Some b"
  shows "queue_at (PopFront s) = (queue_at s)(lvPrice b := tl (lvOrders b))"
proof
  fix q
  from assms(2) obtain rest where ls: "sLevels s = b # rest" by (auto simp: BestPriceLevel_Some)
  have "\<forall>lv \<in> set rest. lvPrice lv \<noteq> lvPrice b"
    using assms(1) by (auto simp: ls side_less_def split: if_splits)
  then have rest: "queue_at (s\<lparr>sLevels := rest\<rparr>) (lvPrice b) = []" by (rule queue_absent)
  have p: "PopFront s = s\<lparr>sLevels := sLevels (PopFront s)\<rparr>"
    by (auto simp: PopFront_def Let_def split: list.split)
  have "queue_at s q = queue_at (s\<lparr>sLevels := b # rest\<rparr>) q" by (simp flip: ls)
  moreover have "queue_at (PopFront s) q =
    queue_at (s\<lparr>sLevels := (if tl (lvOrders b) = [] then rest
                          else b\<lparr>lvOrders := tl (lvOrders b)\<rparr> # rest)\<rparr>) q"
    by (subst p) (simp add: PopFront_levels ls)
  ultimately show "queue_at (PopFront s) q = ((queue_at s)(lvPrice b := tl (lvOrders b))) q"
    by (auto simp: queue_Cons rest)
qed

lemma fold_delete_set: "set (fold (bt_delete lt) ks ls) \<subseteq> set ls"
proof (induction ks arbitrary: ls)
  case (Cons k ks)
  have "set (bt_delete lt k ls) \<subseteq> set ls" by (induction ls) auto
  then show ?case using Cons [of "bt_delete lt k ls"] by auto
qed simp

lemma delete_filter:
  "sorted_wrt (side_less a) ls \<Longrightarrow>
   bt_delete (side_less a) k ls = filter (\<lambda>x. lvPrice x \<noteq> lvPrice k) ls"
proof (induction ls)
  case (Cons x xs)
  show ?case
  proof (cases "lvPrice x = lvPrice k")
    case True
    have "lvPrice y \<noteq> lvPrice k" if "y \<in> set xs" for y
      using side_order.sorted_not_equiv_rest [OF Cons.prems _ that, of k] True by auto
    then show ?thesis using True by (simp add: filter_id_conv)
  next
    case False
    with Cons show ?thesis by auto
  qed
qed simp

lemma fold_delete_filter:
  "sorted_wrt (side_less a) ls \<Longrightarrow>
   fold (bt_delete (side_less a)) ks ls = filter (\<lambda>x. lvPrice x \<notin> lvPrice ` set ks) ls"
proof (induction ks arbitrary: ls)
  case (Cons k ks)
  have "sorted_wrt (side_less a) (bt_delete (side_less a) k ls)"
    using Cons.prems by (rule side_order.sorted_delete)
  from Cons.IH [OF this] show ?case
    by (simp add: delete_filter [OF Cons.prems] filter_filter_mset conj_commute)
qed simp

text \<open>Deleting the empty levels one by one keeps exactly the levels with orders.\<close>

lemma RemoveEmptyLevel_filter:
  assumes "sorted_wrt (side_less (sIsAsk s)) (sLevels s)"
  shows "RemoveEmptyLevel s = s\<lparr>sLevels := filter (\<lambda>p. lvOrders p \<noteq> []) (sLevels s)\<rparr>"
proof -
  have "lvPrice x \<in> lvPrice ` set (filter (\<lambda>p. length (lvOrders p) = 0) (sLevels s)) \<longleftrightarrow>
        lvOrders x = []" if "x \<in> set (sLevels s)" for x
    using sorted_prices_distinct [OF assms] that by fastforce
  then show ?thesis
    by (simp add: RemoveEmptyLevel_def Let_def fold_delete_filter [OF assms] cong: filter_cong)
qed

lemma RemoveEmptyLevel_IsAsk [simp]: "sIsAsk (RemoveEmptyLevel s) = sIsAsk s"
  by (simp add: RemoveEmptyLevel_def Let_def)

lemma concat_filter_nonempty: "concat (map f (filter (\<lambda>p. f p \<noteq> []) xs)) = concat (map f xs)"
  by (induction xs) auto

lemma RemoveEmptyLevel_refs:
  "sorted_wrt (side_less (sIsAsk s)) (sLevels s) \<Longrightarrow> side_refs (RemoveEmptyLevel s) = side_refs s"
  by (simp add: RemoveEmptyLevel_filter side_refs_def concat_filter_nonempty)

lemma RemoveEmptyLevel_ok [inv_intros]: "side_wf st n s \<Longrightarrow> side_ok st n (RemoveEmptyLevel s)"
  using RemoveEmptyLevel_refs [of s] RemoveEmptyLevel_filter [of s]
  by (auto simp: side_ok_def side_wf_def no_empty_level_def sorted_wrt_filter)

lemma RemoveEmptyLevel_id:
  "side_ok st n s \<Longrightarrow> RemoveEmptyLevel s = s"
  by (simp add: side_ok_def side_wf_def no_empty_level_def RemoveEmptyLevel_filter filter_id_conv)

text \<open>A side stays well formed when its levels lose orders.\<close>

definition shrunk :: "'d level \<Rightarrow> 'd level \<Rightarrow> bool" where
  "shrunk x y = (lvPrice y = lvPrice x \<and> subseq (lvOrders y) (lvOrders x))"

lemma shrunk_refl [simp]: "shrunk x x"
  by (simp add: shrunk_def)

lemma shrunk_all_refl [simp]: "list_all2 shrunk xs xs"
  by (simp add: list_all2_refl)

lemma shrunk_refs: "list_all2 shrunk xs ys \<Longrightarrow>
  subseq (concat (map lvOrders ys)) (concat (map lvOrders xs))"
  by (induction rule: list_all2_induct) (auto simp: shrunk_def intro: list_emb_append_mono)

lemma shrunk_sorted:
  "list_all2 shrunk xs ys \<Longrightarrow> sorted_wrt (side_less a) xs \<Longrightarrow> sorted_wrt (side_less a) ys"
proof -
  assume "list_all2 shrunk xs ys" and srt: "sorted_wrt (side_less a) xs"
  then have eq: "map lvPrice ys = map lvPrice xs"
    by (induction rule: list_all2_induct) (auto simp: shrunk_def)
  define R where "R = (\<lambda>p q :: 'a. if a then p < q else p > q)"
  have "side_less a = (\<lambda>x y. R (lvPrice x) (lvPrice y))"
    by (intro ext) (simp add: side_less_def R_def)
  then have "sorted_wrt (side_less a) zs = sorted_wrt R (map lvPrice zs)" for zs :: "'a level list"
    by (simp add: sorted_wrt_map)
  with srt eq show ?thesis by simp
qed

lemma shrunk_wf:
  assumes "side_wf st n s" and "list_all2 shrunk (sLevels s) ls"
  shows "side_wf st n (s\<lparr>sLevels := ls\<rparr>)"
proof -
  have "distinct (side_refs (s\<lparr>sLevels := ls\<rparr>))"
    using assms shrunk_refs [OF assms(2)] by (auto simp: side_wf_def side_refs_def intro: subseq_distinct)
  moreover have "level_wf st n lv" if lv: "lv \<in> set ls" for lv
  proof -
    obtain x where "x \<in> set (sLevels s)" and "shrunk x lv"
      using assms(2) lv by (metis in_set_conv_nth list_all2_conv_all_nth)
    then show ?thesis using assms(1)
      by (auto simp: side_wf_def level_wf_def shrunk_def dest: subseq_set)
  qed
  ultimately show ?thesis using shrunk_sorted [OF assms(2)] assms(1) by (simp add: side_wf_def)
qed

lemma shrunk_trans: "shrunk x y \<Longrightarrow> shrunk y z \<Longrightarrow> shrunk x z"
  by (auto simp: shrunk_def intro: subseq_order.trans)

subsection \<open>The contract of a side\<close>

text \<open>
  A side promises a FIFO queue per price and a best price. \<open>better\<close> is the strict order of the prices,
  \<open>price r\<close> the price of the order behind a pointer.
\<close>

locale price_queues =
  fixes better :: "'p \<Rightarrow> 'p \<Rightarrow> bool"
    and price :: "'r \<Rightarrow> 'p"
    and ok :: "'s \<Rightarrow> bool"
    and queue :: "'s \<Rightarrow> 'p \<Rightarrow> 'r list"
    and best :: "'s \<Rightarrow> 'p option"
    and enq :: "'r \<Rightarrow> 's \<Rightarrow> 's"
    and deq :: "'s \<Rightarrow> 's"
  assumes better_irrefl: "\<not> better p p"
    and better_asym: "better p q \<Longrightarrow> \<not> better q p"
    and better_trans: "better p q \<Longrightarrow> better q r' \<Longrightarrow> better p r'"
    and better_total: "p \<noteq> q \<Longrightarrow> better p q \<or> better q p"
    and ok_enq: "ok s \<Longrightarrow> ok (enq r s)"
    and ok_deq: "ok s \<Longrightarrow> ok (deq s)"
    and queue_enq: "ok s \<Longrightarrow> queue (enq r s) = (queue s)(price r := queue s (price r) @ [r])"
    and queue_deq: "ok s \<Longrightarrow> best s = Some p \<Longrightarrow> queue (deq s) = (queue s)(p := tl (queue s p))"
    and best_None: "ok s \<Longrightarrow> best s = None \<longleftrightarrow> (\<forall>p. queue s p = [])"
    and best_Some: "ok s \<Longrightarrow> best s = Some p \<Longrightarrow>
          queue s p \<noteq> [] \<and> (\<forall>q. queue s q \<noteq> [] \<longrightarrow> q = p \<or> better p q)"
begin

text \<open>The best price is determined by the queues.\<close>

lemma best_unique:
  assumes "ok s" and "queue s p \<noteq> []" and "\<And>q. queue s q \<noteq> [] \<Longrightarrow> q = p \<or> better p q"
  shows "best s = Some p"
proof (cases "best s")
  case None
  with assms best_None show ?thesis by blast
next
  case (Some b)
  with best_Some [OF assms(1)] assms(2,3) better_asym show ?thesis by metis
qed

lemma best_enq:
  assumes "ok s"
  shows "best (enq r s) = Some (case best s of None \<Rightarrow> price r
                                | Some b \<Rightarrow> if better (price r) b then price r else b)"
proof (rule best_unique)
  show "ok (enq r s)" using assms by (rule ok_enq)
  show "queue (enq r s) (case best s of None \<Rightarrow> price r
          | Some b \<Rightarrow> if better (price r) b then price r else b) \<noteq> []"
    using best_Some [OF assms] by (auto simp: queue_enq [OF assms] split: option.split)
next
  fix q assume "queue (enq r s) q \<noteq> []"
  then have "q = price r \<or> queue s q \<noteq> []" by (auto simp: queue_enq [OF assms] split: if_splits)
  then show "q = (case best s of None \<Rightarrow> price r
               | Some b \<Rightarrow> if better (price r) b then price r else b) \<or>
        better (case best s of None \<Rightarrow> price r
               | Some b \<Rightarrow> if better (price r) b then price r else b) q"
  proof (cases "best s")
    case None
    with \<open>q = price r \<or> queue s q \<noteq> []\<close> best_None [OF assms] show ?thesis by auto
  next
    case (Some b)
    have "queue s q \<noteq> [] \<Longrightarrow> q = b \<or> better b q" using best_Some [OF assms Some] by blast
    with Some \<open>q = price r \<or> queue s q \<noteq> []\<close> better_total [of "price r" b] better_trans [of "price r" b q]
    show ?thesis by auto
  qed
qed

lemma ok_fold_enq: "ok s \<Longrightarrow> ok (fold enq rs s)"
  by (induction rs arbitrary: s) (auto intro: ok_enq)

text \<open>Orders added in a sequence queue up behind those already there, in their sequence.\<close>

lemma queue_fold_enq:
  "ok s \<Longrightarrow> queue (fold enq rs s) p = queue s p @ filter (\<lambda>r. price r = p) rs"
  by (induction rs arbitrary: s) (auto simp: queue_enq ok_enq)

text \<open>An order added at the best price is served after all that are there.\<close>

lemma deq_drains:
  "ok s \<Longrightarrow> best s = Some p \<Longrightarrow> k < length (queue s p) \<Longrightarrow>
   ok ((deq ^^ k) s) \<and> best ((deq ^^ k) s) = Some p \<and>
   queue ((deq ^^ k) s) = (queue s)(p := drop k (queue s p))"
proof (induction k)
  case (Suc k)
  then have IH: "ok ((deq ^^ k) s)" "best ((deq ^^ k) s) = Some p"
    "queue ((deq ^^ k) s) = (queue s)(p := drop k (queue s p))" by auto
  let ?t = "deq ((deq ^^ k) s)"
  have ok: "ok ?t" using IH(1) by (rule ok_deq)
  have q: "queue ?t = (queue s)(p := drop (Suc k) (queue s p))"
    by (simp add: queue_deq [OF IH(1,2)] IH(3) tl_drop drop_Suc)
  have "best ?t = Some p"
    by (rule best_unique [OF ok]) (use q Suc.prems best_Some [OF Suc.prems(1,2)] in \<open>auto split: if_splits\<close>)
  with ok q show ?case by simp
qed simp

lemma deq_drains_all:
  assumes "ok s" and "best s = Some p" and "k \<le> length (queue s p)"
  shows "ok ((deq ^^ k) s) \<and> queue ((deq ^^ k) s) = (queue s)(p := drop k (queue s p))"
proof (cases k)
  case (Suc j)
  with deq_drains [OF assms(1,2), of j] assms(3)
  have "ok ((deq ^^ j) s)" "best ((deq ^^ j) s) = Some p"
    "queue ((deq ^^ j) s) = (queue s)(p := drop j (queue s p))" by auto
  then show ?thesis by (simp add: Suc ok_deq queue_deq tl_drop drop_Suc)
qed (use assms in simp)

end

text \<open>The side's operations keep the contract, for asks and for bids.\<close>

definition side_sorted :: "bool \<Rightarrow> 'd::linordered_idom side \<Rightarrow> bool" where
  "side_sorted a s = (sIsAsk s = a \<and> sorted_wrt (side_less a) (sLevels s) \<and> no_empty_level s)"

definition best_price :: "'d side \<Rightarrow> 'd option" where
  "best_price s = map_option lvPrice (BestPriceLevel s)"

definition price_better :: "bool \<Rightarrow> 'd::linordered_idom \<Rightarrow> 'd \<Rightarrow> bool" where
  "price_better a p q = (if a then p < q else p > q)"

lemma queue_best:
  "BestPriceLevel s = Some b \<Longrightarrow> queue_at s (lvPrice b) = lvOrders b"
  by (auto simp: BestPriceLevel_Some queue_at_def GetLevel_def)

lemma queue_nonempty_level:
  "queue_at s p \<noteq> [] \<Longrightarrow> \<exists>lv \<in> set (sLevels s). lvPrice lv = p \<and> queue_at s p = lvOrders lv"
  by (auto simp: queue_at_def GetLevel_def split: option.splits dest!: side_order.get_Some)

interpretation sq: price_queues "price_better a" "\<lambda>r. oPrice (st r)" "side_sorted a" queue_at
  best_price "Side_Add st" PopFront for a :: bool and st :: "'d::linordered_idom store"
proof
  fix s :: "'d side" and r :: nat and p :: 'd
  assume ok: "side_sorted a s"
  then have srt: "sorted_wrt (side_less (sIsAsk s)) (sLevels s)" by (auto simp: side_sorted_def)
  show "side_sorted a (Side_Add st r s)"
    using ok Side_Add_sorted [OF srt] Side_Add_no_empty [of s st r] by (auto simp: side_sorted_def)
  show "side_sorted a (PopFront s)"
    using ok PopFront_no_empty [of s] by (cases "sLevels s")
      (auto simp: side_sorted_def PopFront_levels side_less_def split: if_splits)
  show "queue_at (Side_Add st r s) = (queue_at s)(oPrice (st r) := queue_at s (oPrice (st r)) @ [r])"
    by (rule Side_Add_queue)
  show "(best_price s = None) = (\<forall>p. queue_at s p = [])"
  proof (cases "BestPriceLevel s")
    case (Some b)
    then have "lvOrders b \<noteq> []" using ok by (auto simp: BestPriceLevel_Some side_sorted_def no_empty_level_def)
    then have "queue_at s (lvPrice b) \<noteq> []" using queue_best [OF Some] by simp
    then have "\<not> (\<forall>p. queue_at s p = [])" by blast
    then show ?thesis by (simp add: best_price_def Some)
  qed (auto simp: best_price_def BestPriceLevel_def queue_at_def GetLevel_def split: list.splits)
  assume "best_price s = Some p"
  then obtain b where b: "BestPriceLevel s = Some b" and p: "p = lvPrice b"
    by (auto simp: best_price_def)
  show "queue_at (PopFront s) = (queue_at s)(p := tl (queue_at s p))"
    by (simp add: PopFront_queue [OF srt b] p queue_best [OF b])
  have "lvOrders b \<noteq> []" using ok b by (auto simp: BestPriceLevel_Some side_sorted_def no_empty_level_def)
  moreover have "q = p \<or> price_better a p q" if "queue_at s q \<noteq> []" for q
    using queue_nonempty_level [OF that] ok b
    by (auto simp: p BestPriceLevel_Some side_sorted_def side_less_def price_better_def split: if_splits)
  ultimately show "queue_at s p \<noteq> [] \<and> (\<forall>q. queue_at s q \<noteq> [] \<longrightarrow> q = p \<or> price_better a p q)"
    by (simp add: p queue_best [OF b])
qed (auto simp: price_better_def)

end
