(* ===== verification/Orderbook_State.thy ===== *)
theory Orderbook_State
  imports Book_Side
begin

text \<open>
  The state of \<^verbatim>\<open>internal/engine/orderbook.go\<close>: the \<^verbatim>\<open>Orderbook\<close> struct, with the store of the orders
  it points to, and the calls the matching code makes on the event publisher and on the metrics, as a
  list of effects. The publisher's errors are only logged by the matching code, so the effects carry
  no result. The predicates at the end are the well-formedness of a book.
\<close>

datatype 'd effect =
    PublishOrderEventBatch "'d order_event list"
  | PublishOrderEvent "'d order_event"
  | PublishTradeStatusEvent "'d trade_event"
  | PublishTradeStatusEventBatch "'d trade_event list"
  | MetricAdd string "string list" nat

definition TradesExecutedTotal :: string where [simp]: "TradesExecutedTotal = ''trades_executed_total''"
definition OrdersMatchedTotal :: string where [simp]: "OrdersMatchedTotal = ''orders_matched_total''"
definition OrdersCancelledTotal :: string where
  [simp]: "OrdersCancelledTotal = ''orders_cancelled_total''"

record 'd book =
  obPair :: string
  obDust :: 'd
  obBids :: "'d side"
  obAsks :: "'d side"
  obStore :: "'d store"
  obNext :: nat

text \<open>The side an order is matched against, and the side it rests on.\<close>

definition opposite :: "bool \<Rightarrow> 'd book \<Rightarrow> 'd side" where
  "opposite buy ob = (if buy then obAsks ob else obBids ob)"

definition set_opposite :: "bool \<Rightarrow> 'd side \<Rightarrow> 'd book \<Rightarrow> 'd book" where
  "set_opposite buy s ob = (if buy then ob\<lparr>obAsks := s\<rparr> else ob\<lparr>obBids := s\<rparr>)"

definition set_order :: "nat \<Rightarrow> 'd order \<Rightarrow> 'd book \<Rightarrow> 'd book" where
  "set_order r o1 ob = ob\<lparr>obStore := (obStore ob)(r := o1)\<rparr>"

text \<open>\<^verbatim>\<open>side.Add(&order)\<close> on a local copy: a fresh pointer is allocated and added.\<close>

definition rest_order :: "bool \<Rightarrow> 'd::linordered_idom order \<Rightarrow> 'd book \<Rightarrow> 'd book" where
  "rest_order buy o1 ob =
     (let r = obNext ob; st = (obStore ob)(r := o1); ob = ob\<lparr>obStore := st, obNext := Suc r\<rparr>
      in if buy then ob\<lparr>obBids := Side_Add st r (obBids ob)\<rparr>
         else ob\<lparr>obAsks := Side_Add st r (obAsks ob)\<rparr>)"

text \<open>The order event both matching functions build for an order.\<close>

definition order_event_of ::
  "'d::linordered_idom env \<Rightarrow> nat \<Rightarrow> 'd order \<Rightarrow> 'd order_event" where
  "order_event_of e n o1 =
     NewOrderEvent e n (oID o1) (oUserID o1) (oPair o1) (oType o1) kafka_StatusPartial
       EventOrderPartial (oSide o1) (oPrice o1) (oQuantity o1) (oFilled o1) (Remaining o1)
       (oBehavior o1) (oExpiresAt o1)"

subsection \<open>Well-formed books\<close>

definition book_refs :: "'d book \<Rightarrow> nat list" where
  "book_refs ob = side_refs (obBids ob) @ side_refs (obAsks ob)"

definition book_ok :: "'d::linordered_idom book \<Rightarrow> bool" where
  "book_ok ob =
     (side_ok (obStore ob) (obNext ob) (obBids ob) \<and> side_ok (obStore ob) (obNext ob) (obAsks ob) \<and>
      \<not> sIsAsk (obBids ob) \<and> sIsAsk (obAsks ob) \<and> distinct (book_refs ob) \<and>
      (\<forall>r \<in> set (book_refs ob). order_ok (obStore ob r)))"

text \<open>Every resting order still has something to fill.\<close>

definition book_live :: "'d::linordered_idom book \<Rightarrow> bool" where
  "book_live ob = (\<forall>r \<in> set (book_refs ob). 0 < Remaining (obStore ob r))"

text \<open>What the event constructors require of an order; the trade validator checks it.\<close>

definition order_valid :: "'d::linordered_idom order \<Rightarrow> bool" where
  "order_valid o1 = (oID o1 \<noteq> [] \<and> oUserID o1 \<noteq> [] \<and>
     (CHR ''-'' \<in> set (oPair o1) \<or> CHR ''/'' \<in> set (oPair o1)) \<and> 0 \<le> oPrice o1)"

lemma order_event_of_fields [simp]:
  "eID (order_event_of e n o1) = oID o1" "eUserID (order_event_of e n o1) = oUserID o1"
  "ePair (order_event_of e n o1) = oPair o1" "eSide (order_event_of e n o1) = oSide o1"
  "ePrice (order_event_of e n o1) = oPrice o1" "eQuantity (order_event_of e n o1) = oQuantity o1"
  "eFilled (order_event_of e n o1) = oFilled o1"
  "eRemainingQty (order_event_of e n o1) = Remaining o1"
  "eStatus (order_event_of e n o1) = ''partial''"
  "hEventType (eHeader (order_event_of e n o1)) = EventOrderPartial"
  by (simp_all add: order_event_of_def)

lemma order_event_of_balanced: "order_ok o1 \<Longrightarrow> event_balanced (order_event_of e n o1)"
  by (simp add: event_balanced_def order_ok_def Remaining_def)

lemma book_sides_simps [simp]:
  "obStore (set_opposite b s ob) = obStore ob" "obNext (set_opposite b s ob) = obNext ob"
  "opposite b (set_opposite b s ob) = s" "opposite b (set_order r o1 ob) = opposite b ob"
  "obStore (set_order r o1 ob) = (obStore ob)(r := o1)" "obNext (set_order r o1 ob) = obNext ob"
  "set_opposite b (opposite b ob) ob = ob"
  "obPair (set_opposite b s ob) = obPair ob" "obPair (set_order r o1 ob) = obPair ob"
  "opposite (\<not> b) (set_opposite b s ob) = opposite (\<not> b) ob"
  by (simp_all add: opposite_def set_opposite_def set_order_def)

lemma book_ok_opposite:
  "book_ok ob \<Longrightarrow> side_ok (obStore ob) (obNext ob) (opposite b ob) \<and> sIsAsk (opposite b ob) = b"
  by (simp add: book_ok_def opposite_def)

lemma opposite_refs: "set (side_refs (opposite b ob)) \<subseteq> set (book_refs ob)"
  by (simp add: opposite_def book_refs_def)

text \<open>Replacing a side by one with fewer of its orders, and writing an order in place.\<close>

lemma book_ok_set_opposite [inv_intros]:
  assumes "book_ok ob" and "side_ok (obStore ob) (obNext ob) s"
    and "set (side_refs s) \<subseteq> set (side_refs (opposite b ob))" and "sIsAsk s = b"
  shows "book_ok (set_opposite b s ob)"
proof -
  have "distinct (side_refs s)" using assms(2) by (simp add: side_ok_def side_wf_def)
  then show ?thesis
    using assms by (cases b) (auto simp: book_ok_def book_refs_def set_opposite_def opposite_def)
qed

lemma side_ok_store:
  "side_ok st n s \<Longrightarrow> n \<le> n' \<Longrightarrow> (\<And>r. r < n \<Longrightarrow> oPrice (st' r) = oPrice (st r)) \<Longrightarrow> side_ok st' n' s"
  unfolding side_ok_def by (meson side_wf_mono)

lemma side_ok_distinct: "side_ok st n s \<Longrightarrow> distinct (side_refs s)"
  by (simp add: side_ok_def side_wf_def)

lemma book_ok_set_order [inv_intros]:
  assumes "book_ok ob" and "order_ok o1" and "oPrice o1 = oPrice (obStore ob r)"
  shows "book_ok (set_order r o1 ob)"
proof -
  have "side_ok ((obStore ob)(r := o1)) (obNext ob) s" if "side_ok (obStore ob) (obNext ob) s" for s
    using that by (rule side_ok_store) (auto simp: assms(3))
  then show ?thesis using assms by (auto simp: book_ok_def book_refs_def set_order_def)
qed

lemma book_ok_rest_order [inv_intros]:
  assumes ok: "book_ok ob" and o1: "order_ok o1"
  shows "book_ok (rest_order b o1 ob)"
proof -
  let ?r = "obNext ob" and ?st = "(obStore ob)(obNext ob := o1)"
  have wf: "side_ok ?st (Suc ?r) s" if "side_ok (obStore ob) ?r s" for s
    using that by (rule side_ok_store) auto
  have bnd: "?r \<notin> set (book_refs ob)"
    using ok side_wf_refs_bound by (fastforce simp: book_ok_def side_ok_def book_refs_def)
  have refs: "set (side_refs (Side_Add ?st ?r s)) = insert ?r (set (side_refs s)) \<and>
      side_ok ?st (Suc ?r) (Side_Add ?st ?r s)"
    if s: "side_ok (obStore ob) ?r s" "?r \<notin> set (side_refs s)" for s
  proof
    have "mset (side_refs (Side_Add ?st ?r s)) = add_mset ?r (mset (side_refs s))"
      using s by (intro Side_Add_refs) (simp add: side_ok_def side_wf_def)
    then show "set (side_refs (Side_Add ?st ?r s)) = insert ?r (set (side_refs s))"
      by (metis set_mset_add_mset_insert set_mset_mset)
    show "side_ok ?st (Suc ?r) (Side_Add ?st ?r s)"
      using wf [OF s(1)] s(2) by (auto simp: side_ok_def intro: inv_intros)
  qed
  have sides: "side_ok (obStore ob) ?r (obBids ob)" "side_ok (obStore ob) ?r (obAsks ob)"
    "?r \<notin> set (side_refs (obBids ob))" "?r \<notin> set (side_refs (obAsks ob))"
    using ok bnd by (auto simp: book_ok_def book_refs_def)
  note added = refs [OF sides(1,3)] refs [OF sides(2,4)]
  note d = added [THEN conjunct2, THEN side_ok_distinct] sides(1,2) [THEN side_ok_distinct]
  show ?thesis using ok o1 sides added d wf [OF sides(1)] wf [OF sides(2)]
    by (cases b) (auto simp: book_ok_def book_refs_def rest_order_def Let_def)
qed

subsection \<open>Reference matching\<close>

text \<open>
  The specification of matching: a quantity is taken from a queue of remaining amounts, from the
  front, each as far as it goes.
\<close>

fun greedy :: "'d::linordered_idom \<Rightarrow> ('r \<times> 'd) list \<Rightarrow> ('r \<times> 'd) list" where
  "greedy q [] = []"
| "greedy q ((r, m) # rest) = (if q \<le> 0 then [] else (r, min m q) # greedy (q - min m q) rest)"

text \<open>What a taker may take from a queue: other users' orders that have something left.\<close>

definition takes :: "string \<Rightarrow> 'd::linordered_idom store \<Rightarrow> nat list \<Rightarrow> (nat \<times> 'd) list" where
  "takes u st rs =
     map (\<lambda>r. (r, Remaining (st r))) (filter (\<lambda>r. oUserID (st r) \<noteq> u \<and> 0 < Remaining (st r)) rs)"

definition trades_of :: "'d effect list \<Rightarrow> 'd trade_event list" where
  "trades_of out = concat (map (\<lambda>x. case x of PublishTradeStatusEvent t \<Rightarrow> [t]
     | PublishTradeStatusEventBatch ts \<Rightarrow> ts | _ \<Rightarrow> []) out)"

definition order_events_of :: "'d effect list \<Rightarrow> 'd order_event list" where
  "order_events_of out = concat (map (\<lambda>x. case x of PublishOrderEvent ev \<Rightarrow> [ev]
     | PublishOrderEventBatch evs \<Rightarrow> evs | _ \<Rightarrow> []) out)"

lemma trades_of_simps [simp]:
  "trades_of [] = []" "trades_of (xs @ ys) = trades_of xs @ trades_of ys"
  "trades_of (PublishTradeStatusEvent t # xs) = t # trades_of xs"
  "trades_of (PublishTradeStatusEventBatch ts # xs) = ts @ trades_of xs"
  "trades_of (PublishOrderEvent ev # xs) = trades_of xs"
  "trades_of (PublishOrderEventBatch evs # xs) = trades_of xs"
  "trades_of (MetricAdd m ls k # xs) = trades_of xs"
  by (simp_all add: trades_of_def)

lemma order_events_of_simps [simp]:
  "order_events_of [] = []" "order_events_of (xs @ ys) = order_events_of xs @ order_events_of ys"
  "order_events_of (PublishTradeStatusEvent t # xs) = order_events_of xs"
  "order_events_of (PublishTradeStatusEventBatch ts # xs) = order_events_of xs"
  "order_events_of (PublishOrderEvent ev # xs) = ev # order_events_of xs"
  "order_events_of (PublishOrderEventBatch evs # xs) = evs @ order_events_of xs"
  "order_events_of (MetricAdd m ls k # xs) = order_events_of xs"
  by (simp_all add: order_events_of_def)

lemma greedy_done [simp]: "q \<le> 0 \<Longrightarrow> greedy q xs = []"
  by (cases xs) auto

lemma greedy_sum:
  "0 \<le> q \<Longrightarrow> \<forall>x \<in> set xs. 0 \<le> snd x \<Longrightarrow>
   sum_list (map snd (greedy q xs)) = min q (sum_list (map snd xs))"
proof (induction xs arbitrary: q)
  case (Cons x xs)
  obtain r m where x: "x = (r, m)" by force
  have nn: "0 \<le> sum_list (map snd xs)" using Cons.prems(2) by (intro sum_list_nonneg) auto
  show ?case
  proof (cases "q \<le> 0")
    case True
    with Cons.prems have "q = 0" by simp
    moreover have "0 \<le> m + sum_list (map snd xs)" using nn Cons.prems(2) x by simp
    ultimately show ?thesis using x by (simp add: min_def)
  next
    case False
    then show ?thesis using Cons.IH [of "q - min m q"] Cons.prems(2) nn x by (auto simp: min_def)
  qed
qed simp

lemma greedy_bounds:
  "(r, f) \<in> set (greedy q xs) \<Longrightarrow> \<forall>x \<in> set xs. 0 < snd x \<Longrightarrow> 0 < f \<and> (\<exists>m. (r, m) \<in> set xs \<and> f \<le> m)"
proof (induction q xs rule: greedy.induct)
  case (2 q r' m rest)
  then show ?case by (auto simp: min_def split: if_splits)
qed simp

text \<open>Only the last order taken from can be left partly filled.\<close>

lemma greedy_prefix:
  "\<forall>x \<in> set xs. 0 < snd x \<Longrightarrow> k < length (greedy q xs) \<Longrightarrow>
   fst (greedy q xs ! k) = fst (xs ! k) \<and>
   (Suc k < length (greedy q xs) \<longrightarrow> snd (greedy q xs ! k) = snd (xs ! k))"
proof (induction q xs arbitrary: k rule: greedy.induct)
  case (2 q r m rest)
  show ?case
  proof (cases k)
    case 0
    have "greedy (q - min m q) rest = []" if "q < m" using that by (simp add: min_def)
    with 0 2 show ?thesis by (auto simp: min_def not_le split: if_splits)
  next
    case (Suc j)
    with 2 show ?thesis by (auto split: if_splits)
  qed
qed simp

lemma takes_cong:
  "(\<And>r. r \<in> set rs \<Longrightarrow> st r = st' r) \<Longrightarrow> takes u st rs = takes u st' rs"
  by (simp add: takes_def cong: filter_cong)

lemma takes_Nil [simp]: "takes u st [] = []"
  by (simp add: takes_def)

lemma takes_Cons:
  "takes u st (r # rs) = (if oUserID (st r) \<noteq> u \<and> 0 < Remaining (st r)
     then (r, Remaining (st r)) # takes u st rs else takes u st rs)"
  by (simp add: takes_def)

lemma takes_append: "takes u st (xs @ ys) = takes u st xs @ takes u st ys"
  by (simp add: takes_def)

lemma takes_pos: "x \<in> set (takes u st rs) \<Longrightarrow> 0 < snd x"
  by (auto simp: takes_def)

text \<open>What a trade event says: maker order, taker order, price and quantity.\<close>

definition trade_view :: "'d trade_event \<Rightarrow> string \<times> string \<times> 'd \<times> 'd" where
  "trade_view t = (tMakerOrderID t, tTakerOrderID t, tPrice t, tQuantity t)"

lemma length_greedy: "length (greedy q xs) \<le> length xs"
  by (induction q xs rule: greedy.induct) auto

text \<open>How many of the fills fill their order.\<close>

definition filled_count :: "'d::linordered_idom store \<Rightarrow> (nat \<times> 'd) list \<Rightarrow> nat" where
  "filled_count st fills = length (filter (\<lambda>(r, f). f = Remaining (st r)) fills)"

lemma filled_count_cong:
  "(\<And>x. x \<in> set fills \<Longrightarrow> st (fst x) = st' (fst x)) \<Longrightarrow> filled_count st fills = filled_count st' fills"
  unfolding filled_count_def by (intro arg_cong [where f = length] filter_cong) auto

lemma filled_count_le: "filled_count st (greedy q (takes u st rs)) \<le> length rs"
proof -
  have "filled_count st (greedy q (takes u st rs)) \<le> length (greedy q (takes u st rs))"
    by (simp add: filled_count_def)
  also have "\<dots> \<le> length (takes u st rs)" by (rule length_greedy)
  also have "\<dots> \<le> length rs" by (simp add: takes_def)
  finally show ?thesis .
qed

text \<open>The offers of a queue, and the greedy reference on them: the filled ones are its first.\<close>

definition offers :: "'d::linordered_idom store \<Rightarrow> nat list \<Rightarrow> (nat \<times> 'd) list" where
  "offers st rs = map (\<lambda>r. (r, Remaining (st r))) rs"

lemma offers_simps [simp]:
  "offers st [] = []" "offers st (r # rs) = (r, Remaining (st r)) # offers st rs"
  "offers st (xs @ ys) = offers st xs @ offers st ys"
  by (simp_all add: offers_def)

lemma offers_cong: "(\<And>r. r \<in> set rs \<Longrightarrow> st r = st' r) \<Longrightarrow> offers st rs = offers st' rs"
  by (simp add: offers_def)

lemma takes_offers:
  "\<forall>r \<in> set rs. oUserID (st r) \<noteq> u \<and> 0 < Remaining (st r) \<Longrightarrow> takes u st rs = offers st rs"
  by (simp add: takes_def offers_def)

lemma greedy_offers_refs: "x \<in> set (greedy q (offers st rs)) \<Longrightarrow> fst x \<in> set rs"
proof (induction rs arbitrary: q)
  case (Cons r rs)
  then show ?case by (auto split: if_splits)
qed simp

lemma greedy_filled_prefix:
  assumes "\<forall>r \<in> set rs. 0 < Remaining (st r)" and "distinct rs"
  defines "fills \<equiv> \<lambda>q. greedy q (offers st rs)"
  shows "(\<forall>r \<in> set (take (filled_count st (fills q)) rs). (r, Remaining (st r)) \<in> set (fills q)) \<and>
     (\<forall>r \<in> set (drop (filled_count st (fills q)) rs). \<forall>f. (r, f) \<in> set (fills q) \<longrightarrow> f < Remaining (st r))"
  using assms(1,2) unfolding fills_def
proof (induction rs arbitrary: q)
  case (Cons r rs)
  let ?m = "Remaining (st r)" and ?f = "greedy (q - min (Remaining (st r)) q) (offers st rs)"
  have p: "\<forall>r \<in> set rs. 0 < Remaining (st r)" and d: "distinct rs"
    using Cons.prems by auto
  consider "q \<le> 0" | "0 < q" "q < ?m" | "0 < q" "?m \<le> q" by fastforce
  then show ?case
  proof cases
    case 1
    then have g: "greedy q (offers st (r # rs)) = []" by simp
    show ?thesis unfolding g by (simp add: filled_count_def)
  next
    case 2
    then have g: "greedy q (offers st (r # rs)) = [(r, q)]" by (simp add: min_def)
    then have k: "filled_count st (greedy q (offers st (r # rs))) = 0"
      using 2 by (simp add: filled_count_def)
    show ?thesis unfolding k unfolding g using 2 by simp
  next
    case 3
    then have g: "greedy q (offers st (r # rs)) = (r, ?m) # ?f" by (simp add: min_def)
    then have k: "filled_count st (greedy q (offers st (r # rs))) = Suc (filled_count st ?f)"
      by (simp add: filled_count_def)
    have IH: "\<forall>r \<in> set (take (filled_count st ?f) rs). (r, Remaining (st r)) \<in> set ?f"
      "\<forall>r \<in> set (drop (filled_count st ?f) rs). \<forall>f. (r, f) \<in> set ?f \<longrightarrow> f < Remaining (st r)"
      using Cons.IH [OF p d, of "q - min (Remaining (st r)) q"] by (rule conjunct1, rule conjunct2)
    have "r \<notin> set (drop (filled_count st ?f) rs)"
      using Cons.prems(2) in_set_dropD by fastforce
    then have "f < Remaining (st x)"
      if "x \<in> set (drop (filled_count st ?f) rs)" "(x, f) \<in> set ((r, ?m) # ?f)" for x f
    proof -
      have "x \<noteq> r" using that(1) \<open>r \<notin> _\<close> by blast
      then have "(x, f) \<in> set ?f" using that(2) by simp
      with IH(2) that(1) show ?thesis by blast
    qed
    moreover have "(x, Remaining (st x)) \<in> set ((r, ?m) # ?f)"
      if "x \<in> set (r # take (filled_count st ?f) rs)" for x
      using that IH(1) by (cases "x = r") (simp, simp)
    ultimately show ?thesis unfolding k unfolding g take_Suc_Cons drop_Suc_Cons by blast
  qed
qed (simp add: filled_count_def)

lemma greedy_append:
  "greedy q (xs @ ys) = greedy q xs @ greedy (q - sum_list (map snd (greedy q xs))) ys"
proof (induction q xs rule: greedy.induct)
  case (2 q r m rest)
  then show ?case by (auto simp: diff_diff_eq)
qed simp

text \<open>When the quantity is not used up, every offer is taken in full.\<close>

lemma greedy_unfinished:
  "0 < q - sum_list (map snd (greedy q xs)) \<Longrightarrow> \<forall>x \<in> set xs. 0 < snd x \<Longrightarrow> greedy q xs = xs"
proof (induction q xs rule: greedy.induct)
  case (2 q r m rest)
  then show ?case by (auto simp: diff_diff_eq min_def split: if_splits)
qed simp

lemma filled_count_offers: "filled_count st (offers st rs) = length rs"
  by (induction rs) (auto simp: filled_count_def)

lemma filled_count_append: "filled_count st (xs @ ys) = filled_count st xs + filled_count st ys"
  by (simp add: filled_count_def)

end
