(* ===== verification/Samples.thy ===== *)
theory Samples
  imports Orderbook_State
begin

text \<open>
  Concrete data over the integers at which the properties of the order book are evaluated: a book with
  one bid and three asks, orders of several users, and an environment.
\<close>

definition sample_env :: "int env" where
  "sample_env = \<lparr> uuid = (\<lambda>n. [char_of n]), clock = (\<lambda>n. 1000 + int n), dec_str = (\<lambda>d. ''d'') \<rparr>"

definition sample_order :: "string \<Rightarrow> string \<Rightarrow> string \<Rightarrow> int \<Rightarrow> int \<Rightarrow> int \<Rightarrow> int order" where
  "sample_order i u s p q f =
     \<lparr> oID = i, oUserID = u, oPair = ''BTC-USDT'', oType = ''limit'', oSide = s, oBehavior = ''GTC'',
       oPrice = p, oQuantity = q, oFilled = f, oStatus = (if f = 0 then ''open'' else ''partial''),
       oExpiresAt = 5000, oTimestamp = 1000 \<rparr>"

definition sample_store :: "int store" where
  "sample_store r =
     (if r = 0 then sample_order ''o0'' ''carol'' ''buy'' 9 7 0
      else if r = 1 then sample_order ''o1'' ''alice'' ''sell'' 10 5 0
      else if r = 2 then sample_order ''o2'' ''bob'' ''sell'' 10 3 1
      else if r = 3 then sample_order ''o3'' ''dave'' ''sell'' 12 4 0
      else sample_order ''none'' ''none'' ''sell'' 1 1 0)"

definition sample_book :: "int book" where
  "sample_book =
     \<lparr> obPair = ''BTC-USDT'', obDust = 0,
       obBids = \<lparr> sLevels = [\<lparr> lvPrice = 9, lvOrders = [0] \<rparr>], sIsAsk = False, sDegree = 32 \<rparr>,
       obAsks = \<lparr> sLevels = [\<lparr> lvPrice = 10, lvOrders = [1, 2] \<rparr>, \<lparr> lvPrice = 12, lvOrders = [3] \<rparr>],
                  sIsAsk = True, sDegree = 32 \<rparr>,
       obStore = sample_store, obNext = 4 \<rparr>"

definition sample_buy :: "string \<Rightarrow> int \<Rightarrow> int \<Rightarrow> int order" where
  "sample_buy u p q = sample_order ''o9'' u ''buy'' p q 0"

definition sample_sell :: "string \<Rightarrow> int \<Rightarrow> int \<Rightarrow> int order" where
  "sample_sell u p q = sample_order ''o9'' u ''sell'' p q 0"

lemma sample_ok:
  "book_ok sample_book" "order_ok (sample_buy ''erin'' 11 6)" "order_ok (sample_sell ''erin'' 8 3)"
  by code_simp+

end
