(* ===== verification/Orderbook_Limit.thy ===== *)
theory Orderbook_Limit
  imports Samples
begin

text \<open>
  \<^verbatim>\<open>Orderbook.MatchLimit\<close>. The two branches of the code run the same loop on opposite sides; the loop
  ranges over the best level's slice as it was when the loop began. The context carries what an
  iteration reads and writes: the book, the incoming order and its event, the effects, and
  \<^verbatim>\<open>incomingFullyFilled\<close>.
\<close>

record 'd limit_ctx =
  lcBook :: "'d book"
  lcIncoming :: "'d order"
  lcEvent :: "'d order_event"
  lcOut :: "'d effect list"
  lcTick :: nat
  lcFull :: bool

text \<open>One iteration for the resting order behind \<open>r\<close>.\<close>

definition limit_step ::
  "'d::linordered_idom env \<Rightarrow> bool \<Rightarrow> nat \<Rightarrow> 'd limit_ctx \<Rightarrow> 'd limit_ctx" where
  "limit_step e buy r c =
     (let ob = lcBook c; incoming = lcIncoming c; best = obStore ob r; n = lcTick c
      in if oUserID best = oUserID incoming then c
         else
           (let fillQty = min (Remaining best) (Remaining incoming);
                bestEv = order_event_of e n best;
                tradeEv = NewTradeStatusEvent e (n + 2) (oUserID best) (oUserID incoming) (oID best)
                            (oID incoming) (oPair incoming) (oPrice incoming) fillQty False False
                            (Remaining best) (Remaining incoming);
                n' = n + 4
            in if fillQty = 0 then c\<lparr>lcTick := n'\<rparr>
               else
                 (let restingFilled = (fillQty \<ge> Remaining best);
                      incomingFilled = (fillQty \<ge> Remaining incoming);
                      ob1 = (if restingFilled then set_opposite buy (PopFront (opposite buy ob)) ob
                             else set_order r (ChangeStatusTo StatusPartial best) ob);
                      bestEv1 = (if restingFilled
                                 then ChangeStatusEvent EventOrderFilled kafka_StatusFilled bestEv
                                 else ChangeStatusEvent EventOrderPartial kafka_StatusPartial bestEv);
                      bestEv2 = UpdateOrderFilled fillQty bestEv1;
                      tradeEv1 = (if restingFilled then tradeEv\<lparr>tMakerFilled := True\<rparr> else tradeEv);
                      incoming1 = (if incomingFilled then incoming
                                   else ChangeStatusTo StatusPartial incoming);
                      incEv1 = (if incomingFilled
                                then ChangeStatusEvent EventOrderFilled kafka_StatusFilled (lcEvent c)
                                else ChangeStatusEvent EventOrderPartial kafka_StatusPartial (lcEvent c));
                      incEv2 = UpdateOrderFilled fillQty incEv1;
                      tradeEv2 = (if incomingFilled then tradeEv1\<lparr>tTakerFilled := True\<rparr> else tradeEv1);
                      best1 = obStore ob1 r;
                      ob2 = set_order r (best1\<lparr>oFilled := oFilled best1 + fillQty\<rparr>) ob1;
                      incoming2 = incoming1\<lparr>oFilled := oFilled incoming1 + fillQty\<rparr>;
                      out1 = lcOut c @ [PublishOrderEventBatch [bestEv2, incEv2]];
                      out2 = (if tMakerFilled tradeEv2 \<or> tTakerFilled tradeEv2
                              then out1 @ [PublishTradeStatusEvent tradeEv2,
                                           MetricAdd TradesExecutedTotal [oPair incoming] 1,
                                           MetricAdd OrdersMatchedTotal [oPair incoming] 1]
                              else out1)
                  in c\<lparr>lcBook := ob2, lcIncoming := incoming2, lcEvent := incEv2, lcOut := out2,
                       lcTick := n', lcFull := (lcFull c \<or> incomingFilled)\<rparr>)))"

fun limit_loop ::
  "'d::linordered_idom env \<Rightarrow> bool \<Rightarrow> nat list \<Rightarrow> 'd limit_ctx \<Rightarrow> 'd limit_ctx" where
  "limit_loop e buy [] c = c"
| "limit_loop e buy (r # rs) c =
     (let c' = limit_step e buy r c in if lcFull c' then c' else limit_loop e buy rs c')"

text \<open>A result: the returned error, the book and the effects.\<close>

type_synonym 'd match_result = "engine_error option \<times> 'd book \<times> 'd effect list"

definition limit_start ::
  "'d::linordered_idom env \<Rightarrow> nat \<Rightarrow> 'd book \<Rightarrow> 'd order \<Rightarrow> 'd limit_ctx" where
  "limit_start e n ob incoming =
     \<lparr> lcBook = ob, lcIncoming = incoming, lcEvent = order_event_of e n incoming, lcOut = [],
       lcTick = n + 2, lcFull = False \<rparr>"

definition match_limit_buy ::
  "'d::linordered_idom env \<Rightarrow> nat \<Rightarrow> 'd book \<Rightarrow> 'd order \<Rightarrow> 'd match_result" where
  "match_limit_buy e n ob incoming =
     (if length (sLevels (obAsks ob)) = 0 then (Some ErrOrderbookEmpty, ob, [])
      else case BestPriceLevel (obAsks ob) of
        None \<Rightarrow> (Some ErrNoBestOrderInOrderbook, ob, [])
      | Some bestPriceLevel \<Rightarrow>
          if lvPrice bestPriceLevel \<le> oPrice incoming
          then (let c = limit_loop e True (lvOrders bestPriceLevel) (limit_start e n ob incoming);
                    ob' = (if \<not> lcFull c \<and> oStatus (lcIncoming c) = StatusPartial
                           then rest_order True (lcIncoming c) (lcBook c) else lcBook c)
                in (None, ob', lcOut c))
          else (None, ob, []))"

definition match_limit_sell ::
  "'d::linordered_idom env \<Rightarrow> nat \<Rightarrow> 'd book \<Rightarrow> 'd order \<Rightarrow> 'd match_result" where
  "match_limit_sell e n ob incoming =
     (if length (sLevels (obBids ob)) = 0 then (Some ErrOrderbookEmpty, ob, [])
      else case BestPriceLevel (obBids ob) of
        None \<Rightarrow> (Some ErrNoBestOrderInOrderbook, ob, [])
      | Some bestPriceLevel \<Rightarrow>
          if lvPrice bestPriceLevel \<ge> oPrice incoming
          then (let c = limit_loop e False (lvOrders bestPriceLevel) (limit_start e n ob incoming);
                    ob' = (if \<not> lcFull c \<and> oStatus (lcIncoming c) = StatusPartial
                           then rest_order False (lcIncoming c) (lcBook c) else lcBook c)
                in (None, ob', lcOut c))
          else (None, ob,
                [PublishOrderEvent (ChangeStatusEvent EventOrderCanceled kafka_StatusCancelled
                   (order_event_of e n incoming))]))"

definition MatchLimit ::
  "'d::linordered_idom env \<Rightarrow> nat \<Rightarrow> 'd book \<Rightarrow> 'd order \<Rightarrow> 'd match_result" where
  "MatchLimit e n ob incoming =
     (if oSide incoming = SideBuy then match_limit_buy e n ob incoming
      else match_limit_sell e n ob incoming)"

subsection \<open>One iteration\<close>

lemma limit_step_skip:
  "oUserID (obStore (lcBook c) r) = oUserID (lcIncoming c) \<Longrightarrow> limit_step e buy r c = c"
  by (simp add: limit_step_def Let_def)

lemma limit_step_zero:
  "oUserID (obStore (lcBook c) r) \<noteq> oUserID (lcIncoming c) \<Longrightarrow>
   min (Remaining (obStore (lcBook c) r)) (Remaining (lcIncoming c)) = 0 \<Longrightarrow>
   limit_step e buy r c = c\<lparr>lcTick := lcTick c + 4\<rparr>"
  by (simp add: limit_step_def Let_def)

text \<open>What an iteration that fills does, field by field.\<close>

lemma limit_step_fill:
  fixes e :: "'d::linordered_idom env" and buy :: bool and r :: nat and c :: "'d limit_ctx" and q :: 'd
  assumes u: "oUserID (obStore (lcBook c) r) \<noteq> oUserID (lcIncoming c)"
    and q: "q = min (Remaining (obStore (lcBook c) r)) (Remaining (lcIncoming c))" "q \<noteq> 0"
  defines "best \<equiv> obStore (lcBook c) r" and "inc \<equiv> lcIncoming c" and "c' \<equiv> limit_step e buy r c"
  shows "lcBook c' = set_order r ((if q \<ge> Remaining best then best else ChangeStatusTo ''partial'' best)\<lparr>oFilled := oFilled best + q\<rparr>)
           (if q \<ge> Remaining best then set_opposite buy (PopFront (opposite buy (lcBook c))) (lcBook c)
            else lcBook c)"
    and "lcIncoming c' = (if q \<ge> Remaining inc then inc else ChangeStatusTo ''partial'' inc)\<lparr>oFilled := oFilled inc + q\<rparr>"
    and "lcFull c' = (lcFull c \<or> q \<ge> Remaining inc)"
    and "\<exists>s1 t1 s2 t2. order_events_of (lcOut c') = order_events_of (lcOut c) @
           [UpdateOrderFilled q (ChangeStatusEvent s1 t1 (order_event_of e (lcTick c) best)), lcEvent c']
           \<and> lcEvent c' = UpdateOrderFilled q (ChangeStatusEvent s2 t2 (lcEvent c))"
    and "trades_of (lcOut c') = trades_of (lcOut c) @
           [(NewTradeStatusEvent e (lcTick c + 2) (oUserID best) (oUserID inc) (oID best) (oID inc)
              (oPair inc) (oPrice inc) q False False (Remaining best) (Remaining inc))
            \<lparr>tMakerFilled := q \<ge> Remaining best, tTakerFilled := q \<ge> Remaining inc\<rparr>]"
proof -
  have qq: "q \<ge> Remaining best \<or> q \<ge> Remaining inc" using q(1) by (simp add: best_def inc_def min_def)
  have nf: "\<not> tMakerFilled (NewTradeStatusEvent e k a b x d p pr z False False m t)"
    "\<not> tTakerFilled (NewTradeStatusEvent e k a b x d p pr z False False m t)" for k a b x d p pr z m t
    by (auto simp: NewTradeStatusEvent_def zero_trade_event_def split: sum.split)
  show "lcBook c' = set_order r ((if q \<ge> Remaining best then best else ChangeStatusTo ''partial'' best)\<lparr>oFilled := oFilled best + q\<rparr>)
           (if q \<ge> Remaining best then set_opposite buy (PopFront (opposite buy (lcBook c))) (lcBook c)
            else lcBook c)"
    using u q(2) by (simp add: c'_def limit_step_def Let_def best_def inc_def q(1) [symmetric] set_order_def)
  show "lcIncoming c' = (if q \<ge> Remaining inc then inc else ChangeStatusTo ''partial'' inc)\<lparr>oFilled := oFilled inc + q\<rparr>"
    "lcFull c' = (lcFull c \<or> q \<ge> Remaining inc)"
    using u q(2) by (simp_all add: c'_def limit_step_def Let_def best_def inc_def q(1) [symmetric])
  show "\<exists>s1 t1 s2 t2. order_events_of (lcOut c') = order_events_of (lcOut c) @
           [UpdateOrderFilled q (ChangeStatusEvent s1 t1 (order_event_of e (lcTick c) best)), lcEvent c']
           \<and> lcEvent c' = UpdateOrderFilled q (ChangeStatusEvent s2 t2 (lcEvent c))"
    using u q(2) by (auto simp: c'_def limit_step_def Let_def best_def inc_def q(1) [symmetric])
  show "trades_of (lcOut c') = trades_of (lcOut c) @
           [(NewTradeStatusEvent e (lcTick c + 2) (oUserID best) (oUserID inc) (oID best) (oID inc)
              (oPair inc) (oPrice inc) q False False (Remaining best) (Remaining inc))
            \<lparr>tMakerFilled := q \<ge> Remaining best, tTakerFilled := q \<ge> Remaining inc\<rparr>]"
    using u q(2) qq by (auto simp: c'_def limit_step_def Let_def best_def inc_def q(1) [symmetric] nf)
qed

lemma limit_step_cases:
  fixes c :: "'d::linordered_idom limit_ctx"
  obtains (skip) "oUserID (obStore (lcBook c) r) = oUserID (lcIncoming c)" "limit_step e buy r c = c"
  | (zero) "oUserID (obStore (lcBook c) r) \<noteq> oUserID (lcIncoming c)"
      "min (Remaining (obStore (lcBook c) r)) (Remaining (lcIncoming c)) = 0"
      "limit_step e buy r c = c\<lparr>lcTick := lcTick c + 4\<rparr>"
  | (fill) "oUserID (obStore (lcBook c) r) \<noteq> oUserID (lcIncoming c)"
      "min (Remaining (obStore (lcBook c) r)) (Remaining (lcIncoming c)) \<noteq> 0"
  using limit_step_skip limit_step_zero by blast

subsection \<open>The invariant of the loop\<close>

definition event_matches :: "'d::linordered_idom order_event \<Rightarrow> 'd order \<Rightarrow> bool" where
  "event_matches ev o1 = (eFilled ev = oFilled o1 \<and> eRemainingQty ev = Remaining o1 \<and>
     eQuantity ev = oQuantity o1)"

definition limit_inv :: "nat list \<Rightarrow> 'd::linordered_idom limit_ctx \<Rightarrow> bool" where
  "limit_inv rs c =
     (book_ok (lcBook c) \<and> order_ok (lcIncoming c) \<and> event_matches (lcEvent c) (lcIncoming c) \<and>
      (\<forall>r \<in> set rs. order_ok (obStore (lcBook c) r)) \<and>
      (\<forall>ev \<in> set (order_events_of (lcOut c)). event_balanced ev))"

lemma event_matches_balanced: "event_matches ev o1 \<Longrightarrow> order_ok o1 \<Longrightarrow> event_balanced ev"
  by (simp add: event_matches_def event_balanced_def order_ok_def Remaining_def)

lemma book_ok_PopFront [inv_intros]:
  "book_ok ob \<Longrightarrow> book_ok (set_opposite b (PopFront (opposite b ob)) ob)"
  using book_ok_opposite [of ob b] PopFront_refs [of "opposite b ob"]
  by (intro book_ok_set_opposite) (auto simp: side_ok_def intro: inv_intros)

lemma limit_step_inv:
  assumes inv: "limit_inv rs c" and r: "r \<in> set rs"
  shows "limit_inv rs (limit_step e buy r c)"
proof (cases rule: limit_step_cases [of c r e buy])
  case fill
  let ?best = "obStore (lcBook c) r" and ?inc = "lcIncoming c" and ?c = "limit_step e buy r c"
  define q where "q = min (Remaining ?best) (Remaining ?inc)"
  have okb: "order_ok ?best" and oki: "order_ok ?inc" and bk: "book_ok (lcBook c)"
    and em: "event_matches (lcEvent c) ?inc"
    using inv r by (auto simp: limit_inv_def)
  have q0: "0 \<le> q" "q \<le> Remaining ?best" "q \<le> Remaining ?inc"
    using order_ok_Remaining [OF okb] order_ok_Remaining [OF oki] by (auto simp: q_def)
  have f: "q = min (Remaining ?best) (Remaining ?inc)" "q \<noteq> 0" using fill by (auto simp: q_def)
  note s = limit_step_fill [OF fill(1) f, of e buy]
  let ?best' = "(if q \<ge> Remaining ?best then ?best else ChangeStatusTo ''partial'' ?best)\<lparr>oFilled := oFilled ?best + q\<rparr>"
  have ok': "order_ok ?best'" "order_ok (lcIncoming ?c)"
    using okb oki q0 by (auto simp: s(2) order_ok_def Remaining_def)
  have "book_ok (if q \<ge> Remaining ?best then set_opposite buy (PopFront (opposite buy (lcBook c))) (lcBook c)
            else lcBook c)"
    using bk by (auto intro: inv_intros)
  then have "book_ok (lcBook ?c)"
    unfolding s(1) by (rule book_ok_set_order) (use ok' in auto)
  moreover have stc: "obStore (lcBook ?c) = (obStore (lcBook c))(r := ?best')" by (auto simp: s(1))
  moreover from s(4) obtain s1 t1 s2 t2 where
    ev: "order_events_of (lcOut ?c) = order_events_of (lcOut c) @
           [UpdateOrderFilled q (ChangeStatusEvent s1 t1 (order_event_of e (lcTick c) ?best)), lcEvent ?c]"
      "lcEvent ?c = UpdateOrderFilled q (ChangeStatusEvent s2 t2 (lcEvent c))" by blast
  have em': "event_matches (lcEvent ?c) (lcIncoming ?c)"
    unfolding ev(2) using em by (auto simp: event_matches_def s(2) Remaining_def)
  moreover have "event_balanced (UpdateOrderFilled q (ChangeStatusEvent s1 t1 (order_event_of e (lcTick c) ?best)))"
    using q0 okb by (intro event_balanced_update) (auto simp: order_event_of_balanced)
  ultimately show ?thesis
    using inv ok' event_matches_balanced [OF em' ok'(2)] unfolding limit_inv_def ev(1)
    by (auto simp: stc)
qed (use inv in \<open>auto simp: limit_inv_def\<close>)

lemma limit_loop_inv:
  "limit_inv rs c \<Longrightarrow> set rs' \<subseteq> set rs \<Longrightarrow> limit_inv rs (limit_loop e buy rs' c)"
  by (induction rs' arbitrary: c) (auto simp: Let_def limit_step_inv)

lemma limit_step_frame:
  "oID (lcIncoming (limit_step e buy r c)) = oID (lcIncoming c) \<and>
   oUserID (lcIncoming (limit_step e buy r c)) = oUserID (lcIncoming c) \<and>
   oPair (lcIncoming (limit_step e buy r c)) = oPair (lcIncoming c) \<and>
   oPrice (lcIncoming (limit_step e buy r c)) = oPrice (lcIncoming c) \<and>
   oQuantity (lcIncoming (limit_step e buy r c)) = oQuantity (lcIncoming c)"
  by (simp add: limit_step_def Let_def)

lemma limit_step_store:
  "s \<noteq> r \<Longrightarrow> obStore (lcBook (limit_step e buy r c)) s = obStore (lcBook c) s"
  by (simp add: limit_step_def Let_def)

subsection \<open>The trades of the loop\<close>

lemma limit_step_trade:
  fixes c :: "'d::linordered_idom limit_ctx"
  assumes inv: "limit_inv (r # rs) c" and pos: "0 < Remaining (lcIncoming c)"
    and u: "oUserID (obStore (lcBook c) r) \<noteq> oUserID (lcIncoming c)"
    and live: "0 < Remaining (obStore (lcBook c) r)"
    and vi: "order_valid (lcIncoming c)" and vr: "order_valid (obStore (lcBook c) r)"
  defines "q \<equiv> min (Remaining (obStore (lcBook c) r)) (Remaining (lcIncoming c))"
  shows "map trade_view (trades_of (lcOut (limit_step e buy r c))) =
      map trade_view (trades_of (lcOut c)) @
      [(oID (obStore (lcBook c) r), oID (lcIncoming c), oPrice (lcIncoming c), q)]"
    and "Remaining (lcIncoming (limit_step e buy r c)) = Remaining (lcIncoming c) - q"
    and "lcFull (limit_step e buy r c) = (lcFull c \<or> Remaining (lcIncoming c) = q)"
    and "opposite buy (lcBook (limit_step e buy r c)) =
      (if q = Remaining (obStore (lcBook c) r) then PopFront (opposite buy (lcBook c))
       else opposite buy (lcBook c))"
    and "oFilled (obStore (lcBook (limit_step e buy r c)) r) = oFilled (obStore (lcBook c) r) + q"
proof -
  have q: "q = min (Remaining (obStore (lcBook c) r)) (Remaining (lcIncoming c))" "q \<noteq> 0" "0 \<le> q"
    using pos live by (auto simp: q_def min_def)
  note s = limit_step_fill [OF u q(1,2), of e buy]
  have "trade_view (NewTradeStatusEvent e k (oUserID (obStore (lcBook c) r)) (oUserID (lcIncoming c))
      (oID (obStore (lcBook c) r)) (oID (lcIncoming c)) (oPair (lcIncoming c)) (oPrice (lcIncoming c))
      q False False m t \<lparr>tMakerFilled := b1, tTakerFilled := b2\<rparr>) =
      (oID (obStore (lcBook c) r), oID (lcIncoming c), oPrice (lcIncoming c), q)" for k m t b1 b2
    using vi vr q(3) by (subst NewTradeStatusEvent_valid) (auto simp: order_valid_def trade_view_def)
  then show "map trade_view (trades_of (lcOut (limit_step e buy r c))) =
      map trade_view (trades_of (lcOut c)) @
      [(oID (obStore (lcBook c) r), oID (lcIncoming c), oPrice (lcIncoming c), q)]"
    by (simp add: s(5))
  show "Remaining (lcIncoming (limit_step e buy r c)) = Remaining (lcIncoming c) - q"
    by (simp add: s(2) Remaining_def)
  have "q \<le> Remaining (lcIncoming c)" by (simp add: q_def)
  then show "lcFull (limit_step e buy r c) = (lcFull c \<or> Remaining (lcIncoming c) = q)"
    by (auto simp: s(3))
  have "q \<le> Remaining (obStore (lcBook c) r)" by (simp add: q_def)
  then show "opposite buy (lcBook (limit_step e buy r c)) =
      (if q = Remaining (obStore (lcBook c) r) then PopFront (opposite buy (lcBook c))
       else opposite buy (lcBook c))" by (auto simp: s(1))
  show "oFilled (obStore (lcBook (limit_step e buy r c)) r) = oFilled (obStore (lcBook c) r) + q"
    by (simp add: s(1))
qed

definition loop_fills :: "'d::linordered_idom limit_ctx \<Rightarrow> nat list \<Rightarrow> (nat \<times> 'd) list" where
  "loop_fills c rs =
     greedy (Remaining (lcIncoming c)) (takes (oUserID (lcIncoming c)) (obStore (lcBook c)) rs)"

lemma loop_fills_refs: "x \<in> set (loop_fills c rs) \<Longrightarrow> fst x \<in> set rs"
proof -
  assume "x \<in> set (loop_fills c rs)"
  then have "(fst x, snd x) \<in> set (loop_fills c rs)" by simp
  from greedy_bounds [OF this [unfolded loop_fills_def]] takes_pos show ?thesis
    by (fastforce simp: takes_def)
qed

lemma limit_loop_trades:
  fixes c :: "'d::linordered_idom limit_ctx"
  assumes "limit_inv rs c" and "\<not> lcFull c" and "0 < Remaining (lcIncoming c)" and "distinct rs"
    and "order_valid (lcIncoming c)" and "\<forall>r \<in> set rs. order_valid (obStore (lcBook c) r)"
  shows "map trade_view (trades_of (lcOut (limit_loop e buy rs c))) =
       map trade_view (trades_of (lcOut c)) @
       map (\<lambda>(r, f). (oID (obStore (lcBook c) r), oID (lcIncoming c), oPrice (lcIncoming c), f))
         (loop_fills c rs) \<and>
     Remaining (lcIncoming (limit_loop e buy rs c)) =
       Remaining (lcIncoming c) - sum_list (map snd (loop_fills c rs)) \<and>
     lcFull (limit_loop e buy rs c) = (Remaining (lcIncoming (limit_loop e buy rs c)) = 0) \<and>
     opposite buy (lcBook (limit_loop e buy rs c)) =
       (PopFront ^^ filled_count (obStore (lcBook c)) (loop_fills c rs)) (opposite buy (lcBook c)) \<and>
     (\<forall>(r, f) \<in> set (loop_fills c rs).
        oFilled (obStore (lcBook (limit_loop e buy rs c)) r) = oFilled (obStore (lcBook c) r) + f) \<and>
     (\<forall>r. r \<notin> fst ` set (loop_fills c rs) \<longrightarrow>
        obStore (lcBook (limit_loop e buy rs c)) r = obStore (lcBook c) r)"
  using assms
proof (induction rs arbitrary: c)
  case Nil
  then show ?case by (simp add: loop_fills_def filled_count_def)
next
  case (Cons r rs)
  let ?st = "obStore (lcBook c)" and ?inc = "lcIncoming c" and ?c = "limit_step e buy r c"
  have inv': "limit_inv rs ?c"
    using limit_step_inv [OF Cons.prems(1), of r e buy] by (auto simp: limit_inv_def)
  have st: "obStore (lcBook ?c) x = ?st x" if "x \<in> set rs" for x
    using that Cons.prems(4) by (intro limit_step_store) auto
  note frame = limit_step_frame [of e buy r c]
  have tk: "takes u (obStore (lcBook ?c)) rs = takes u ?st rs" for u
    using st by (intro takes_cong) auto
  have vi: "order_valid (lcIncoming ?c)" using frame Cons.prems(5) by (simp add: order_valid_def)
  have vr: "\<forall>x \<in> set rs. order_valid (obStore (lcBook ?c) x)" using st Cons.prems(6) by simp
  show ?case
  proof (cases "oUserID (?st r) \<noteq> oUserID ?inc \<and> 0 < Remaining (?st r)")
    case False
    have "0 \<le> Remaining (?st r)" using Cons.prems(1) by (auto simp: limit_inv_def order_ok_Remaining)
    with False Cons.prems(3) have "oUserID (?st r) = oUserID ?inc \<or> min (Remaining (?st r)) (Remaining ?inc) = 0"
      by (auto simp: min_def)
    then have "?c = c \<or> ?c = c\<lparr>lcTick := lcTick c + 4\<rparr>"
      using limit_step_skip limit_step_zero by blast
    then have c: "lcBook ?c = lcBook c" "lcIncoming ?c = ?inc" "lcOut ?c = lcOut c" "\<not> lcFull ?c"
      using Cons.prems(2) by auto
    have "loop_fills ?c rs = loop_fills c (r # rs)" using False by (auto simp: loop_fills_def takes_Cons c simp del: greedy.simps)
    with Cons.IH [OF inv'] c Cons.prems vr show ?thesis by (simp add: Let_def)
  next
    case True
    define q where "q = min (Remaining (?st r)) (Remaining ?inc)"
    from limit_step_trade [OF Cons.prems(1,3) _ _ Cons.prems(5), where e = e and buy = buy] True Cons.prems(6)
    have s: "map trade_view (trades_of (lcOut ?c)) = map trade_view (trades_of (lcOut c)) @
          [(oID (?st r), oID ?inc, oPrice ?inc, q)]"
      "Remaining (lcIncoming ?c) = Remaining ?inc - q" "lcFull ?c = (Remaining ?inc = q)"
      "opposite buy (lcBook ?c) = (if q = Remaining (?st r) then PopFront (opposite buy (lcBook c))
         else opposite buy (lcBook c))"
      "oFilled (obStore (lcBook ?c) r) = oFilled (?st r) + q"
      using Cons.prems(2) by (auto simp: q_def)
    have fills: "loop_fills c (r # rs) = (r, q) # greedy (Remaining ?inc - q) (takes (oUserID ?inc) ?st rs)"
      using True Cons.prems(3) by (simp add: loop_fills_def takes_Cons q_def)
    show ?thesis
    proof (cases "lcFull ?c")
      case True
      then have "loop_fills c (r # rs) = [(r, q)]" using s(3) fills by simp
      then show ?thesis using s True limit_step_store [of _ r e buy c]
        by (simp add: Let_def filled_count_def)
    next
      case False
      have "q \<le> Remaining ?inc" by (simp add: q_def)
      then have pos: "0 < Remaining (lcIncoming ?c)" using s False by simp
      have lf: "loop_fills ?c rs = greedy (Remaining ?inc - q) (takes (oUserID ?inc) ?st rs)"
        using frame by (simp add: loop_fills_def s(2) tk)
      have fx: "obStore (lcBook ?c) (fst y) = ?st (fst y)" "fst y \<noteq> r"
        if "y \<in> set (loop_fills ?c rs)" for y
        using loop_fills_refs [OF that] st Cons.prems(4) by auto
      have mp: "map (\<lambda>(x, f). (oID (obStore (lcBook ?c) x), oID (lcIncoming ?c), oPrice (lcIncoming ?c), f))
          (loop_fills ?c rs) =
        map (\<lambda>(x, f). (oID (?st x), oID ?inc, oPrice ?inc, f)) (loop_fills ?c rs)"
        by (rule map_cong [OF refl]) (use fx(1) frame in \<open>auto simp: split_def\<close>)
      have ct: "filled_count ?st (loop_fills c (r # rs)) =
        (if q = Remaining (?st r) then Suc else id) (filled_count (obStore (lcBook ?c)) (loop_fills ?c rs))"
      proof -
        have "filled_count (obStore (lcBook ?c)) (loop_fills ?c rs) = filled_count ?st (loop_fills ?c rs)"
          by (rule filled_count_cong) (rule fx(1))
        then show ?thesis using fills lf by (simp add: filled_count_def)
      qed
      have fr: "r \<notin> fst ` set (loop_fills ?c rs)" using fx(2) by auto
      have IH: "map trade_view (trades_of (lcOut (limit_loop e buy rs ?c))) =
          map trade_view (trades_of (lcOut ?c)) @
          map (\<lambda>(x, f). (oID (?st x), oID ?inc, oPrice ?inc, f)) (loop_fills ?c rs)"
        "Remaining (lcIncoming (limit_loop e buy rs ?c)) =
          Remaining (lcIncoming ?c) - sum_list (map snd (loop_fills ?c rs))"
        "lcFull (limit_loop e buy rs ?c) = (Remaining (lcIncoming (limit_loop e buy rs ?c)) = 0)"
        "opposite buy (lcBook (limit_loop e buy rs ?c)) =
          (PopFront ^^ filled_count (obStore (lcBook ?c)) (loop_fills ?c rs)) (opposite buy (lcBook ?c))"
        "\<forall>(r, f) \<in> set (loop_fills ?c rs).
          oFilled (obStore (lcBook (limit_loop e buy rs ?c)) r) = oFilled (obStore (lcBook ?c) r) + f"
        "\<And>x. x \<notin> fst ` set (loop_fills ?c rs) \<Longrightarrow>
          obStore (lcBook (limit_loop e buy rs ?c)) x = obStore (lcBook ?c) x"
        using Cons.IH [OF inv' False pos _ vi vr] Cons.prems(4) mp by auto
      have fl: "loop_fills c (r # rs) = (r, q) # loop_fills ?c rs" using fills lf by simp
      have lp: "limit_loop e buy (r # rs) c = limit_loop e buy rs ?c" using False by (simp add: Let_def)
      have new: "\<forall>(x, f) \<in> set (loop_fills ?c rs).
          oFilled (obStore (lcBook (limit_loop e buy rs ?c)) x) = oFilled (?st x) + f"
        using IH(5) fx(1) by fastforce
      have same: "obStore (lcBook (limit_loop e buy rs ?c)) x = ?st x"
        if "x \<noteq> r" "x \<notin> fst ` set (loop_fills ?c rs)" for x
        using IH(6) [OF that(2)] limit_step_store [OF that(1), of e buy c] by simp
      have opp: "opposite buy (lcBook (limit_loop e buy rs ?c)) =
          (PopFront ^^ filled_count ?st (loop_fills c (r # rs))) (opposite buy (lcBook c))"
        unfolding IH(4) ct s(4) by (simp add: funpow_swap1)
      show ?thesis unfolding lp
        using IH(1,2,3) s(1,2,5) opp new same IH(6) [OF fr] by (simp add: fl)
    qed
  qed
qed

subsection \<open>The whole call\<close>

text \<open>The level the call matches against: the best one, when its price crosses.\<close>

definition limit_best :: "'d::linordered_idom book \<Rightarrow> 'd order \<Rightarrow> 'd level option" where
  "limit_best ob incoming =
     (case BestPriceLevel (opposite (oSide incoming = SideBuy) ob) of
        None \<Rightarrow> None
      | Some lv \<Rightarrow> if (if oSide incoming = SideBuy then lvPrice lv \<le> oPrice incoming
                      else oPrice incoming \<le> lvPrice lv) then Some lv else None)"

lemma limit_best_cong:
  assumes "oSide x = oSide y" and "oPrice x = oPrice y"
  shows "limit_best ob x = limit_best ob y"
  unfolding limit_best_def assms ..

abbreviation run_limit ::
  "'d::linordered_idom env \<Rightarrow> nat \<Rightarrow> 'd book \<Rightarrow> 'd order \<Rightarrow> 'd level \<Rightarrow> 'd limit_ctx" where
  "run_limit e n ob incoming lv \<equiv>
     limit_loop e (oSide incoming = SideBuy) (lvOrders lv) (limit_start e n ob incoming)"

definition rest_if :: "bool \<Rightarrow> 'd::linordered_idom limit_ctx \<Rightarrow> 'd book" where
  "rest_if buy c = (if \<not> lcFull c \<and> oStatus (lcIncoming c) = StatusPartial
     then rest_order buy (lcIncoming c) (lcBook c) else lcBook c)"

lemma limit_best_level:
  "limit_best ob incoming = Some lv \<Longrightarrow>
   BestPriceLevel (opposite (oSide incoming = SideBuy) ob) = Some lv"
  by (auto simp: limit_best_def split: option.splits if_splits)

lemma MatchLimit_Some:
  assumes "limit_best ob incoming = Some lv"
  shows "MatchLimit e n ob incoming =
     (None, rest_if (oSide incoming = SideBuy) (run_limit e n ob incoming lv),
      lcOut (run_limit e n ob incoming lv))"
proof -
  obtain rest where ls: "sLevels (opposite (oSide incoming = SideBuy) ob) = lv # rest"
    using limit_best_level [OF assms] by (auto simp: BestPriceLevel_Some)
  have best: "BestPriceLevel (opposite (oSide incoming = SideBuy) ob) = Some lv"
    by (rule limit_best_level [OF assms])
  show ?thesis
  proof (cases "oSide incoming = SideBuy")
    case True
    then have "lvPrice lv \<le> oPrice incoming" using assms best by (auto simp: limit_best_def split: if_splits)
    with True ls best show ?thesis
      by (simp add: MatchLimit_def match_limit_buy_def opposite_def rest_if_def Let_def)
  next
    case False
    then have "oPrice incoming \<le> lvPrice lv" using assms best by (auto simp: limit_best_def split: if_splits)
    with False ls best show ?thesis
      by (simp add: MatchLimit_def match_limit_sell_def opposite_def rest_if_def Let_def)
  qed
qed

lemma MatchLimit_None:
  assumes "limit_best ob incoming = None"
  shows "fst (snd (MatchLimit e n ob incoming)) = ob \<and>
     (snd (snd (MatchLimit e n ob incoming)) = [] \<or>
      (oSide incoming \<noteq> SideBuy \<and> snd (snd (MatchLimit e n ob incoming)) =
         [PublishOrderEvent (ChangeStatusEvent EventOrderCanceled kafka_StatusCancelled
            (order_event_of e n incoming))]))"
proof (cases "BestPriceLevel (opposite (oSide incoming = SideBuy) ob)")
  case None
  then have "sLevels (opposite (oSide incoming = SideBuy) ob) = []"
    by (simp add: BestPriceLevel_def split: list.splits)
  then show ?thesis by (auto simp: MatchLimit_def match_limit_buy_def match_limit_sell_def opposite_def)
next
  case (Some lv)
  then obtain rest where ls: "sLevels (opposite (oSide incoming = SideBuy) ob) = lv # rest"
    by (auto simp: BestPriceLevel_Some)
  show ?thesis
  proof (cases "oSide incoming = SideBuy")
    case True
    with assms Some have "\<not> lvPrice lv \<le> oPrice incoming" by (auto simp: limit_best_def split: if_splits)
    with True ls Some show ?thesis by (simp add: MatchLimit_def match_limit_buy_def opposite_def)
  next
    case False
    with assms Some have "\<not> oPrice incoming \<le> lvPrice lv" by (auto simp: limit_best_def split: if_splits)
    with False ls Some show ?thesis by (simp add: MatchLimit_def match_limit_sell_def opposite_def)
  qed
qed

lemma MatchLimit_None_trades:
  "limit_best ob incoming = None \<Longrightarrow> trades_of (snd (snd (MatchLimit e n ob incoming))) = []"
  using MatchLimit_None [of ob incoming e n] by auto

lemma best_level_refs:
  "BestPriceLevel s = Some lv \<Longrightarrow> set (lvOrders lv) \<subseteq> set (side_refs s)"
  by (auto simp: BestPriceLevel_Some side_refs_def)

lemma best_level_distinct:
  "book_ok ob \<Longrightarrow> BestPriceLevel (opposite b ob) = Some lv \<Longrightarrow>
   distinct (lvOrders lv) \<and> set (lvOrders lv) \<subseteq> set (book_refs ob)"
  using book_ok_opposite [of ob b] opposite_refs [of b ob] best_level_refs [of "opposite b ob" lv]
  by (auto simp: side_ok_def side_wf_def BestPriceLevel_Some side_refs_def)

lemma limit_start_fields [simp]:
  "lcBook (limit_start e n ob incoming) = ob" "lcIncoming (limit_start e n ob incoming) = incoming"
  "lcOut (limit_start e n ob incoming) = []" "\<not> lcFull (limit_start e n ob incoming)"
  by (simp_all add: limit_start_def)

lemma limit_start_inv:
  assumes "book_ok ob" and "order_ok incoming" and "limit_best ob incoming = Some lv"
  shows "limit_inv (lvOrders lv) (limit_start e n ob incoming)"
  using assms best_level_distinct [OF assms(1) limit_best_level [OF assms(3)]]
  by (auto simp: limit_inv_def limit_start_def event_matches_def book_ok_def)

lemma run_limit_inv:
  "book_ok ob \<Longrightarrow> order_ok incoming \<Longrightarrow> limit_best ob incoming = Some lv \<Longrightarrow>
   limit_inv (lvOrders lv) (run_limit e n ob incoming lv)"
  using limit_start_inv by (intro limit_loop_inv) auto

definition limit_fills :: "'d::linordered_idom book \<Rightarrow> 'd order \<Rightarrow> (nat \<times> 'd) list" where
  "limit_fills ob incoming = (case limit_best ob incoming of None \<Rightarrow> []
     | Some lv \<Rightarrow> greedy (Remaining incoming) (takes (oUserID incoming) (obStore ob) (lvOrders lv)))"

lemma limit_fills_loop:
  "limit_best ob incoming = Some lv \<Longrightarrow>
   loop_fills (limit_start e n ob incoming) (lvOrders lv) = limit_fills ob incoming"
  by (simp add: loop_fills_def limit_fills_def)

text \<open>What matching assumes of the book and of the incoming order.\<close>

definition matchable :: "'d::linordered_idom book \<Rightarrow> 'd order \<Rightarrow> bool" where
  "matchable ob incoming = (book_ok ob \<and> order_ok incoming \<and> order_valid incoming \<and>
     0 < Remaining incoming \<and> (\<forall>r \<in> set (book_refs ob). order_valid (obStore ob r)))"

lemma run_limit_trades:
  assumes "matchable ob incoming" and lv: "limit_best ob incoming = Some lv"
    and c: "c = run_limit e n ob incoming lv"
  shows "map trade_view (trades_of (lcOut c)) =
       map (\<lambda>(r, f). (oID (obStore ob r), oID incoming, oPrice incoming, f)) (limit_fills ob incoming) \<and>
     Remaining (lcIncoming c) = Remaining incoming - sum_list (map snd (limit_fills ob incoming)) \<and>
     lcFull c = (Remaining (lcIncoming c) = 0) \<and>
     opposite (oSide incoming = SideBuy) (lcBook c) =
       (PopFront ^^ filled_count (obStore ob) (limit_fills ob incoming))
         (opposite (oSide incoming = SideBuy) ob) \<and>
     (\<forall>(r, f) \<in> set (limit_fills ob incoming). oFilled (obStore (lcBook c) r) = oFilled (obStore ob r) + f) \<and>
     (\<forall>r. r \<notin> fst ` set (limit_fills ob incoming) \<longrightarrow> obStore (lcBook c) r = obStore ob r)"
proof -
  have ok: "book_ok ob" "order_ok incoming" and v: "order_valid incoming" "0 < Remaining incoming"
    using assms(1) by (auto simp: matchable_def)
  note d = best_level_distinct [OF ok(1) limit_best_level [OF lv]]
  then have "\<forall>r \<in> set (lvOrders lv). order_valid (obStore ob r)"
    using assms(1) by (auto simp: matchable_def)
  from limit_loop_trades [OF limit_start_inv [OF ok lv, of e n], where e = e and buy = "oSide incoming = SideBuy"] v d this
  show ?thesis unfolding c by (simp add: limit_fills_loop [OF lv])
qed

lemma rest_if_other [simp]:
  "opposite b (rest_if b c) = opposite b (lcBook c)"
  by (simp add: rest_if_def rest_order_def opposite_def Let_def)

lemma rest_order_store: "r < obNext ob \<Longrightarrow> obStore (rest_order b o1 ob) r = obStore ob r"
  by (simp add: rest_order_def Let_def)

lemma limit_step_next: "obNext (lcBook (limit_step e buy r c)) = obNext (lcBook c)"
  by (simp add: limit_step_def Let_def)

lemma limit_loop_next: "obNext (lcBook (limit_loop e buy rs c)) = obNext (lcBook c)"
  by (induction rs arbitrary: c) (auto simp: Let_def limit_step_next)

lemma book_refs_bound: "book_ok ob \<Longrightarrow> r \<in> set (book_refs ob) \<Longrightarrow> r < obNext ob"
  using side_wf_refs_bound by (auto simp: book_ok_def side_ok_def book_refs_def)

lemma limit_fills_refs:
  "x \<in> set (limit_fills ob incoming) \<Longrightarrow> limit_best ob incoming \<noteq> None \<and>
   (\<forall>lv. limit_best ob incoming = Some lv \<longrightarrow> fst x \<in> set (lvOrders lv) \<and>
      oUserID (obStore ob (fst x)) \<noteq> oUserID incoming \<and>
      0 < snd x \<and> snd x \<le> Remaining (obStore ob (fst x)))"
proof -
  assume x: "x \<in> set (limit_fills ob incoming)"
  then obtain lv where lv: "limit_best ob incoming = Some lv"
    by (cases "limit_best ob incoming") (auto simp: limit_fills_def)
  with x have "(fst x, snd x) \<in> set (greedy (Remaining incoming) (takes (oUserID incoming) (obStore ob) (lvOrders lv)))"
    by (simp add: limit_fills_def)
  from greedy_bounds [OF this] takes_pos lv show ?thesis by (fastforce simp: takes_def)
qed

lemma limit_trade_list:
  assumes "matchable ob incoming"
  shows "map trade_view (trades_of (snd (snd (MatchLimit e n ob incoming)))) =
     map (\<lambda>(r, f). (oID (obStore ob r), oID incoming, oPrice incoming, f)) (limit_fills ob incoming)"
proof (cases "limit_best ob incoming")
  case None
  with MatchLimit_None_trades [OF None, of e n] show ?thesis by (simp add: limit_fills_def)
next
  case (Some lv)
  with run_limit_trades [OF assms Some refl] show ?thesis by (simp add: MatchLimit_Some)
qed

lemma view_quantity: "tQuantity = (\<lambda>v. snd (snd (snd v))) \<circ> trade_view"
  by (auto simp: trade_view_def)

lemma limit_trade_quantities:
  "matchable ob incoming \<Longrightarrow>
   map tQuantity (trades_of (snd (snd (MatchLimit e n ob incoming)))) = map snd (limit_fills ob incoming)"
  unfolding view_quantity map_map [symmetric] limit_trade_list by (simp add: split_def)

lemma limit_step_static:
  "oQuantity (obStore (lcBook (limit_step e buy r c)) x) = oQuantity (obStore (lcBook c) x) \<and>
   oUserID (obStore (lcBook (limit_step e buy r c)) x) = oUserID (obStore (lcBook c) x) \<and>
   oID (obStore (lcBook (limit_step e buy r c)) x) = oID (obStore (lcBook c) x)"
  by (simp add: limit_step_def Let_def)

lemma limit_loop_static:
  "oQuantity (obStore (lcBook (limit_loop e buy rs c)) x) = oQuantity (obStore (lcBook c) x) \<and>
   oUserID (obStore (lcBook (limit_loop e buy rs c)) x) = oUserID (obStore (lcBook c) x) \<and>
   oID (obStore (lcBook (limit_loop e buy rs c)) x) = oID (obStore (lcBook c) x)"
  by (induction rs arbitrary: c) (auto simp: Let_def limit_step_static)

lemma book_ok_sorted: "book_ok ob \<Longrightarrow> side_sorted b (opposite b ob)"
  using book_ok_opposite [of ob b] by (auto simp: side_sorted_def side_ok_def side_wf_def)

lemma limit_queue:
  assumes m: "matchable ob incoming" and lv: "limit_best ob incoming = Some lv"
  shows "queue_at (opposite (oSide incoming = SideBuy) (fst (snd (MatchLimit e n ob incoming)))) =
     (queue_at (opposite (oSide incoming = SideBuy) ob))
       (lvPrice lv := drop (filled_count (obStore ob) (limit_fills ob incoming)) (lvOrders lv))"
proof -
  let ?b = "oSide incoming = SideBuy" and ?k = "filled_count (obStore ob) (limit_fills ob incoming)"
  note best = limit_best_level [OF lv]
  have "book_ok ob" using m by (simp add: matchable_def)
  then have srt: "side_sorted ?b (opposite ?b ob)" by (rule book_ok_sorted)
  have bp: "best_price (opposite ?b ob) = Some (lvPrice lv)" using best by (simp add: best_price_def)
  have qb: "queue_at (opposite ?b ob) (lvPrice lv) = lvOrders lv" by (rule queue_best [OF best])
  have k: "?k \<le> length (queue_at (opposite ?b ob) (lvPrice lv))"
    unfolding qb using filled_count_le [of "obStore ob" "Remaining incoming" "oUserID incoming" "lvOrders lv"] lv
    by (simp add: limit_fills_def)
  have "queue_at ((PopFront ^^ ?k) (opposite ?b ob)) =
      (queue_at (opposite ?b ob))(lvPrice lv := drop ?k (lvOrders lv))"
    using sq.deq_drains_all [OF srt bp k] unfolding qb by blast
  then show ?thesis using run_limit_trades [OF m lv refl, of e n] by (simp add: MatchLimit_Some [OF lv])
qed

lemma limit_book_ok [inv_intros]:
  assumes "book_ok ob" and "order_ok incoming"
  shows "book_ok (fst (snd (MatchLimit e n ob incoming)))"
proof (cases "limit_best ob incoming")
  case None
  with MatchLimit_None [OF None, of e n] assms show ?thesis by simp
next
  case (Some lv)
  from run_limit_inv [OF assms Some, of e n] show ?thesis
    unfolding MatchLimit_Some [OF Some] rest_if_def
    by (auto simp: limit_inv_def intro: inv_intros)
qed

lemma limit_events_balanced:
  assumes "book_ok ob" and "order_ok incoming"
  shows "\<forall>ev \<in> set (order_events_of (snd (snd (MatchLimit e n ob incoming)))). event_balanced ev"
proof (cases "limit_best ob incoming")
  case None
  from MatchLimit_None [OF None, of e n] show ?thesis
    using assms(2) by (auto simp: order_event_of_balanced)
next
  case (Some lv)
  from run_limit_inv [OF assms Some, of e n] show ?thesis
    unfolding MatchLimit_Some [OF Some] by (simp add: limit_inv_def)
qed

subsection \<open>Properties of MatchLimit\<close>

text \<open>C6: \<^verbatim>\<open>MatchLimit\<close> keeps the order book well formed, whatever it returns: levels stay sorted and
  non-empty, every order stays on one level with its own price, and no order is over-filled.\<close>

theorem MatchLimit_invariant:
  assumes "book_ok ob" and "order_ok incoming"
  shows "book_ok (fst (snd (MatchLimit e n ob incoming)))"
  using assms by (rule limit_book_ok)

theorem MatchLimit_invariant_witness:
  "book_ok (fst (snd (MatchLimit sample_env 0 sample_book (sample_buy ''erin'' 11 6))))"
  by (rule MatchLimit_invariant [OF sample_ok(1,2)])

text \<open>C2: Against the best level, \<^verbatim>\<open>MatchLimit\<close> trades exactly as the greedy reference does on the queue
  of other users' open orders, oldest first: same makers, same quantities, in the same sequence, each
  at the incoming order's price. When the best price does not cross, nothing is traded.\<close>

theorem MatchLimit_trades:
  assumes "matchable ob incoming"
  shows "map trade_view (trades_of (snd (snd (MatchLimit e n ob incoming)))) =
     (case limit_best ob incoming of None \<Rightarrow> []
      | Some lv \<Rightarrow> map (\<lambda>(r, f). (oID (obStore ob r), oID incoming, oPrice incoming, f))
          (greedy (Remaining incoming) (takes (oUserID incoming) (obStore ob) (lvOrders lv))))"
  using limit_trade_list [OF assms] by (simp add: limit_fills_def split: option.split)

theorem MatchLimit_trades_witness:
  "map trade_view (trades_of (snd (snd (MatchLimit sample_env 0 sample_book (sample_buy ''erin'' 11 6))))) =
     [(''o1'', ''o9'', 11, 5), (''o2'', ''o9'', 11, 1)]"
proof -
  have "matchable sample_book (sample_buy ''erin'' 11 6)" by code_simp
  from MatchLimit_trades [OF this] show ?thesis by (rule trans) code_simp
qed

text \<open>The traded quantity of \<^verbatim>\<open>MatchLimit\<close> is the smaller of what the incoming order wants and what
  other users offer at the best price, and each maker's filled amount grows by its trade.\<close>

theorem MatchLimit_conservation:
  assumes m: "matchable ob incoming" and lv: "limit_best ob incoming = Some lv"
  shows "sum_list (map tQuantity (trades_of (snd (snd (MatchLimit e n ob incoming))))) =
       min (Remaining incoming)
         (sum_list (map snd (takes (oUserID incoming) (obStore ob) (lvOrders lv)))) \<and>
     (\<forall>(r, f) \<in> set (limit_fills ob incoming).
        oFilled (obStore (fst (snd (MatchLimit e n ob incoming))) r) = oFilled (obStore ob r) + f)"
proof
  show "sum_list (map tQuantity (trades_of (snd (snd (MatchLimit e n ob incoming))))) =
       min (Remaining incoming)
         (sum_list (map snd (takes (oUserID incoming) (obStore ob) (lvOrders lv))))"
    unfolding limit_trade_quantities [OF m] using m lv
    by (auto simp: limit_fills_def matchable_def intro!: greedy_sum dest: takes_pos less_imp_le)
  let ?c = "run_limit e n ob incoming lv"
  note t = run_limit_trades [OF m lv refl, of e n]
  have bk: "book_ok ob" using m by (simp add: matchable_def)
  have "r < obNext ob" if "(r, f) \<in> set (limit_fills ob incoming)" for r f
    using limit_fills_refs [OF that] lv best_level_distinct [OF bk limit_best_level [OF lv]]
      book_refs_bound [OF bk] by auto
  then show "\<forall>(r, f) \<in> set (limit_fills ob incoming).
        oFilled (obStore (fst (snd (MatchLimit e n ob incoming))) r) = oFilled (obStore ob r) + f"
    using t by (auto simp: MatchLimit_Some [OF lv] rest_if_def rest_order_store limit_loop_next)
qed

theorem MatchLimit_conservation_witness:
  "sum_list (map tQuantity (trades_of (snd (snd (MatchLimit sample_env 0 sample_book
     (sample_buy ''erin'' 11 6)))))) = 6"
proof -
  have "matchable sample_book (sample_buy ''erin'' 11 6)"
    and "limit_best sample_book (sample_buy ''erin'' 11 6) = Some \<lparr> lvPrice = 10, lvOrders = [1, 2] \<rparr>"
    by code_simp+
  from conjunct1 [OF MatchLimit_conservation [OF this]] show ?thesis by (rule trans) code_simp
qed

text \<open>C16: No trade of \<^verbatim>\<open>MatchLimit\<close> is between two orders of the same user.\<close>

theorem MatchLimit_no_self_trade:
  assumes "matchable ob incoming"
    and "t \<in> set (trades_of (snd (snd (MatchLimit e n ob incoming))))"
  shows "\<exists>r \<in> set (book_refs ob). tMakerOrderID t = oID (obStore ob r) \<and>
     oUserID (obStore ob r) \<noteq> oUserID incoming \<and> tTakerOrderID t = oID incoming"
proof -
  from assms(2) have "trade_view t \<in> set (map trade_view (trades_of (snd (snd (MatchLimit e n ob incoming)))))"
    by simp
  then obtain r f where rf: "(r, f) \<in> set (limit_fills ob incoming)"
    and v: "trade_view t = (oID (obStore ob r), oID incoming, oPrice incoming, f)"
    unfolding limit_trade_list [OF assms(1)] by auto
  from limit_fills_refs [OF rf] obtain lv where lv: "limit_best ob incoming = Some lv"
    and r: "r \<in> set (lvOrders lv)" "oUserID (obStore ob r) \<noteq> oUserID incoming" by auto
  have "book_ok ob" using assms(1) by (simp add: matchable_def)
  from best_level_distinct [OF this limit_best_level [OF lv]] r v show ?thesis
    by (auto simp: trade_view_def)
qed

theorem MatchLimit_no_self_trade_witness:
  "\<exists>t \<in> set (trades_of (snd (snd (MatchLimit sample_env 0 sample_book (sample_buy ''alice'' 11 6))))).
     \<exists>r \<in> set (book_refs sample_book). tMakerOrderID t = oID (obStore sample_book r) \<and>
       oUserID (obStore sample_book r) \<noteq> ''alice''"
proof -
  let ?i = "sample_buy ''alice'' 11 6"
  have m: "matchable sample_book ?i" and u: "oUserID ?i = ''alice''"
    and t: "trades_of (snd (snd (MatchLimit sample_env 0 sample_book ?i))) \<noteq> []" by code_simp+
  from t have "hd (trades_of (snd (snd (MatchLimit sample_env 0 sample_book ?i)))) \<in>
      set (trades_of (snd (snd (MatchLimit sample_env 0 sample_book ?i))))" by (rule hd_in_set)
  with MatchLimit_no_self_trade [OF m this] u show ?thesis by metis
qed

text \<open>Every order event \<^verbatim>\<open>MatchLimit\<close> publishes accounts for its order: the filled and the remaining
  quantity are not negative and add up to the ordered quantity.\<close>

theorem MatchLimit_events_balanced:
  assumes "book_ok ob" and "order_ok incoming"
  shows "\<forall>ev \<in> set (order_events_of (snd (snd (MatchLimit e n ob incoming)))). event_balanced ev"
  using assms by (rule limit_events_balanced)

theorem MatchLimit_events_balanced_witness:
  "list_all event_balanced (order_events_of (snd (snd (MatchLimit sample_env 0 sample_book (sample_buy ''erin'' 11 6)))))"
  unfolding list_all_iff by (rule MatchLimit_events_balanced [OF sample_ok(1,2)])

text \<open>When the best level holds only other users' open orders, \<^verbatim>\<open>MatchLimit\<close> refines the FIFO queue
  of that price: it drops from the front exactly the orders its fills complete, all orders that stay
  are still open, and no other price is touched.\<close>

theorem MatchLimit_queue_refinement:
  assumes m: "matchable ob incoming" and lv: "limit_best ob incoming = Some lv"
    and other: "\<forall>r \<in> set (lvOrders lv). oUserID (obStore ob r) \<noteq> oUserID incoming \<and>
                  0 < Remaining (obStore ob r)"
  defines "ob' \<equiv> \<lambda>e n. fst (snd (MatchLimit e n ob incoming))"
  shows "\<exists>k \<le> length (lvOrders lv).
     queue_at (opposite (oSide incoming = SideBuy) (ob' e n)) =
       (queue_at (opposite (oSide incoming = SideBuy) ob))(lvPrice lv := drop k (lvOrders lv)) \<and>
     (\<forall>r \<in> set (take k (lvOrders lv)). Remaining (obStore (ob' e n) r) = 0) \<and>
     (\<forall>r \<in> set (drop k (lvOrders lv)). 0 < Remaining (obStore (ob' e n) r))"
proof -
  let ?st = "obStore ob" and ?fills = "limit_fills ob incoming"
  let ?k = "filled_count ?st ?fills"
  have bk: "book_ok ob" using m by (simp add: matchable_def)
  note d = best_level_distinct [OF bk limit_best_level [OF lv]]
  have fills: "?fills = greedy (Remaining incoming) (takes (oUserID incoming) ?st (lvOrders lv))"
    using lv by (simp add: limit_fills_def)
  have fills': "?fills = greedy (Remaining incoming) (offers ?st (lvOrders lv))"
    unfolding fills takes_offers [OF other] by (rule refl)
  have live: "\<forall>r \<in> set (lvOrders lv). 0 < Remaining (?st r)" using other by blast
  note pre = greedy_filled_prefix [OF live conjunct1 [OF d], of "Remaining incoming", folded fills']
  note run = run_limit_trades [OF m lv refl, of e n]
  have st: "obStore (ob' e n) r = obStore (lcBook (run_limit e n ob incoming lv)) r"
    if "r \<in> set (lvOrders lv)" for r
    using book_refs_bound [OF bk] that d
    by (auto simp: ob'_def MatchLimit_Some [OF lv] rest_if_def rest_order_store limit_loop_next)
  have filled: "Remaining (obStore (ob' e n) r) = Remaining (?st r) - f"
    if "(r, f) \<in> set ?fills" "r \<in> set (lvOrders lv)" for r f
    using run that st [OF that(2)] limit_loop_static [of e "oSide incoming = SideBuy" "lvOrders lv"]
    by (auto simp: Remaining_def)
  have kept: "Remaining (obStore (ob' e n) r) = Remaining (?st r)"
    if "\<forall>f. (r, f) \<notin> set ?fills" "r \<in> set (lvOrders lv)" for r
    using run that st [OF that(2)] by (force simp: Remaining_def)
  have "Remaining (obStore (ob' e n) r) = 0" if "r \<in> set (take ?k (lvOrders lv))" for r
    using pre filled [of r "Remaining (?st r)"] that by (auto dest: in_set_takeD)
  moreover have "0 < Remaining (obStore (ob' e n) r)" if "r \<in> set (drop ?k (lvOrders lv))" for r
  proof -
    have r: "r \<in> set (lvOrders lv)" using that by (rule in_set_dropD)
    show ?thesis
    proof (cases "\<exists>f. (r, f) \<in> set ?fills")
      case True
      then obtain f where f: "(r, f) \<in> set ?fills" by blast
      with pre that have "f < Remaining (?st r)" by blast
      then show ?thesis by (simp add: filled [OF f r])
    next
      case False
      then show ?thesis using kept [OF _ r] other r by simp
    qed
  qed
  moreover have "?k \<le> length (lvOrders lv)" unfolding fills by (rule filled_count_le)
  ultimately show ?thesis using limit_queue [OF m lv, of e n] by (auto simp: ob'_def)
qed

theorem MatchLimit_queue_refinement_witness:
  "\<exists>k \<le> 2. queue_at (opposite True (fst (snd (MatchLimit sample_env 0 sample_book
     (sample_buy ''erin'' 11 6))))) 10 = drop k [1, 2]"
proof -
  let ?i = "sample_buy ''erin'' 11 6" and ?lv = "\<lparr> lvPrice = 10, lvOrders = [1, 2] \<rparr> :: int level"
  have m: "matchable sample_book ?i" and lv: "limit_best sample_book ?i = Some ?lv"
    and o: "\<forall>r \<in> set (lvOrders ?lv). oUserID (obStore sample_book r) \<noteq> oUserID ?i \<and>
              0 < Remaining (obStore sample_book r)" and b: "(oSide ?i = SideBuy) = True"
    by code_simp+
  from MatchLimit_queue_refinement [OF m lv o, of sample_env 0] obtain k where
    "k \<le> length (lvOrders ?lv)"
    "queue_at (opposite True (fst (snd (MatchLimit sample_env 0 sample_book ?i)))) =
       (queue_at (opposite True sample_book))(lvPrice ?lv := drop k (lvOrders ?lv))"
    unfolding b by blast
  then show ?thesis by (intro exI [of _ k]) simp
qed

text \<open>When the oldest order of the best level belongs to the incoming user and the next one is
  filled, the book loses the wrong order: the user's own resting order leaves the queue, and the filled
  order stays at its front with nothing remaining.\<close>

theorem MatchLimit_pops_own_order:
  assumes m: "matchable ob incoming" and lv: "limit_best ob incoming = Some lv"
    and os: "lvOrders lv = [own, other]" and own: "oUserID (obStore ob own) = oUserID incoming"
    and other: "oUserID (obStore ob other) \<noteq> oUserID incoming" "0 < Remaining (obStore ob other)"
      "Remaining (obStore ob other) \<le> Remaining incoming"
  shows "queue_at (opposite (oSide incoming = SideBuy) (fst (snd (MatchLimit e n ob incoming))))
       (lvPrice lv) = [other] \<and>
     Remaining (obStore (fst (snd (MatchLimit e n ob incoming))) other) = 0"
proof -
  have pos: "0 < Remaining incoming" and bk: "book_ok ob" using m by (auto simp: matchable_def)
  have fills: "limit_fills ob incoming = [(other, Remaining (obStore ob other))]"
    using lv os own other pos by (auto simp: limit_fills_def takes_def min_def)
  have "other < obNext ob"
    using book_refs_bound [OF bk] best_level_distinct [OF bk limit_best_level [OF lv]] os by auto
  then have "Remaining (obStore (fst (snd (MatchLimit e n ob incoming))) other) = 0"
    using run_limit_trades [OF m lv refl, of e n] fills limit_loop_static [of e "oSide incoming = SideBuy" "lvOrders lv"]
    by (auto simp: MatchLimit_Some [OF lv] rest_if_def rest_order_store limit_loop_next Remaining_def)
  with limit_queue [OF m lv, of e n] fills os show ?thesis by (simp add: filled_count_def)
qed

theorem MatchLimit_pops_own_order_witness:
  "queue_at (opposite True (fst (snd (MatchLimit sample_env 0 sample_book (sample_buy ''alice'' 11 6))))) 10
     = [2] \<and>
   Remaining (obStore (fst (snd (MatchLimit sample_env 0 sample_book (sample_buy ''alice'' 11 6)))) 2) = 0"
proof -
  let ?i = "sample_buy ''alice'' 11 6" and ?lv = "\<lparr> lvPrice = 10, lvOrders = [1, 2] \<rparr> :: int level"
  have m: "matchable sample_book ?i" and lv: "limit_best sample_book ?i = Some ?lv"
    and os: "lvOrders ?lv = [1, 2]" and b: "(oSide ?i = SideBuy) = True"
    and own: "oUserID (obStore sample_book 1) = oUserID ?i"
    and other: "oUserID (obStore sample_book 2) \<noteq> oUserID ?i" "0 < Remaining (obStore sample_book 2)"
      "Remaining (obStore sample_book 2) \<le> Remaining ?i" by code_simp+
  from MatchLimit_pops_own_order [OF m lv os own other, of sample_env 0] show ?thesis unfolding b by simp
qed

text \<open>\<^verbatim>\<open>MatchLimit\<close> rests an order only after it has traded: on an empty opposite side, or when the
  best price does not cross, the book is left exactly as it was and the order is nowhere on it.\<close>

theorem MatchLimit_never_rests_untraded:
  assumes "limit_best ob incoming = None"
  shows "fst (snd (MatchLimit e n ob incoming)) = ob \<and>
     trades_of (snd (snd (MatchLimit e n ob incoming))) = []"
  using MatchLimit_None [OF assms] MatchLimit_None_trades [OF assms] by blast

theorem MatchLimit_never_rests_untraded_witness:
  "fst (snd (MatchLimit sample_env 0 sample_book (sample_buy ''erin'' 9 6))) = sample_book \<and>
   trades_of (snd (snd (MatchLimit sample_env 0 sample_book (sample_buy ''erin'' 9 6)))) = []"
proof -
  have "limit_best sample_book (sample_buy ''erin'' 9 6) = None" by code_simp
  then show ?thesis by (rule MatchLimit_never_rests_untraded)
qed

end
