(* ===== verification/Orderbook_Market.thy ===== *)
theory Orderbook_Market
  imports Orderbook_Limit
begin

text \<open>
  \<^verbatim>\<open>Orderbook.MatchMarket\<close>. The two branches run the same sweep over the levels of opposite sides. They
  differ in the guards of the inner loop: the buy branch leaves the level when the resting order has
  the incoming order's ID, or when nothing can be filled; the sell branch leaves the level at an order
  of the same user, and goes on to the next order when nothing can be filled.
\<close>

record 'd market_ctx =
  mcStore :: "'d store"
  mcIncoming :: "'d order"
  mcEvent :: "'d order_event"
  mcRestingEvents :: "'d order_event list"
  mcTradeEvents :: "'d trade_event list"
  mcTick :: nat
  mcFull :: bool
  mcCancelled :: bool

text \<open>
  The part of the inner loop that fills the resting order behind \<open>r\<close> at index \<open>idx\<close>: the level and the
  context after it, and \<^verbatim>\<open>restingFilled\<close>.
\<close>

definition market_fill ::
  "'d::linordered_idom env \<Rightarrow> nat \<Rightarrow> 'd \<Rightarrow> 'd level \<Rightarrow> 'd market_ctx \<Rightarrow> 'd level \<times> 'd market_ctx \<times> bool" where
  "market_fill e idx fillQty pl c =
     (let r = lvOrders pl ! idx; resting = mcStore c r; incoming = mcIncoming c; n = mcTick c;
          makerBefore = Remaining resting; takerBefore = Remaining incoming;
          restingEv = order_event_of e n resting;
          restingFilled = (fillQty \<ge> makerBefore);
          incomingFilled = (fillQty \<ge> takerBefore);
          makerAfter = makerBefore - fillQty;
          takerAfter = takerBefore - fillQty;
          tradeEv = NewTradeStatusEvent e (n + 2) (oUserID resting) (oUserID incoming) (oID resting)
                      (oID incoming) (oPair incoming) (oPrice resting) fillQty restingFilled
                      incomingFilled makerAfter takerAfter;
          pl1 = (if restingFilled then RemoveFilledOrderInPriceLevel idx pl else pl);
          resting1 = (if restingFilled then resting else ChangeStatusTo StatusPartial resting);
          restingEv1 = (if restingFilled
                        then ChangeStatusEvent EventOrderFilled kafka_StatusFilled restingEv
                        else ChangeStatusEvent EventOrderPartial kafka_StatusPartial restingEv);
          restingEv2 = UpdateOrderFilled fillQty restingEv1;
          incoming1 = (if incomingFilled then incoming else ChangeStatusTo StatusPartial incoming);
          incEv1 = (if incomingFilled
                    then ChangeStatusEvent EventOrderFilled kafka_StatusFilled (mcEvent c)
                    else ChangeStatusEvent EventOrderPartial kafka_StatusPartial (mcEvent c));
          incEv2 = UpdateOrderFilled fillQty incEv1;
          resting2 = resting1\<lparr>oFilled := oFilled resting1 + fillQty\<rparr>;
          incoming2 = incoming1\<lparr>oFilled := oFilled incoming1 + fillQty\<rparr>
      in (pl1,
          c\<lparr>mcStore := (mcStore c)(r := resting2), mcIncoming := incoming2, mcEvent := incEv2,
            mcRestingEvents := mcRestingEvents c @ [restingEv2],
            mcTradeEvents := mcTradeEvents c @ [tradeEv], mcTick := n + 4,
            mcFull := (mcFull c \<or> incomingFilled)\<rparr>,
          restingFilled))"

lemma market_fill_length:
  "idx < length (lvOrders pl) \<Longrightarrow> market_fill e idx q pl c = (pl', c', f) \<Longrightarrow>
   length (lvOrders pl') = (if f then length (lvOrders pl) - 1 else length (lvOrders pl))"
  by (auto simp: market_fill_def Let_def RemoveFilledOrderInPriceLevel_def length_remove_nth)

text \<open>The inner loop; the first component is what the closure returns to \<^verbatim>\<open>Ascend\<close>.\<close>

function market_level ::
  "'d::linordered_idom env \<Rightarrow> bool \<Rightarrow> nat \<Rightarrow> 'd level \<Rightarrow> 'd market_ctx \<Rightarrow> bool \<times> 'd level \<times> 'd market_ctx" where
  "market_level e buy idx pl c =
     (if idx < length (lvOrders pl) then
        (let resting = mcStore c (lvOrders pl ! idx); incoming = mcIncoming c;
             skip = (if buy then oID resting = oID incoming else oUserID resting = oUserID incoming)
         in if skip then (True, pl, c)
            else
              (let fillQty = min (Remaining resting) (Remaining incoming)
               in if fillQty = 0
                  then (if buy then (True, pl, c) else market_level e buy (Suc idx) pl c)
                  else case market_fill e idx fillQty pl c of (pl', c', restingFilled) \<Rightarrow>
                    if mcFull c' then (False, pl', c')
                    else market_level e buy (if restingFilled then idx else Suc idx) pl' c'))
      else (True, pl, c))"
  by pat_completeness auto
termination
  apply (relation "measure (\<lambda>(e, buy, idx, pl, c). length (lvOrders pl) - idx)")
    apply simp
   apply simp
  apply clarsimp
  apply (drule sym [of "(_, _)"])
  apply (frule (1) market_fill_length)
  apply (simp split: if_splits; linarith)
  done

declare market_level.simps [simp del]

text \<open>The closure over the levels in the side's order, with its price guard.\<close>

fun market_sweep ::
  "'d::linordered_idom env \<Rightarrow> bool \<Rightarrow> 'd level list \<Rightarrow> 'd market_ctx \<Rightarrow> 'd level list \<times> 'd market_ctx" where
  "market_sweep e buy [] c = ([], c)"
| "market_sweep e buy (pl # rest) c =
     (if (if buy then lvPrice pl > oPrice (mcIncoming c) else lvPrice pl < oPrice (mcIncoming c))
      then (pl # rest,
            c\<lparr>mcEvent := ChangeStatusEvent EventOrderCanceled kafka_StatusCancelled (mcEvent c),
              mcCancelled := True\<rparr>)
      else case market_level e buy 0 pl c of (continue, pl', c') \<Rightarrow>
        if continue then (case market_sweep e buy rest c' of (rest', c'') \<Rightarrow> (pl' # rest', c''))
        else (pl' # rest, c'))"

definition market_start :: "'d::linordered_idom env \<Rightarrow> nat \<Rightarrow> 'd book \<Rightarrow> 'd order \<Rightarrow> 'd market_ctx" where
  "market_start e n ob incoming =
     \<lparr> mcStore = obStore ob, mcIncoming = incoming, mcEvent = order_event_of e n incoming,
       mcRestingEvents = [], mcTradeEvents = [], mcTick = n + 2, mcFull = False,
       mcCancelled = False \<rparr>"

text \<open>What is published after the sweep.\<close>

definition market_publish :: "'d order \<Rightarrow> 'd market_ctx \<Rightarrow> 'd effect list" where
  "market_publish incoming c =
     (if mcFull c \<or> mcCancelled c \<or> length (mcRestingEvents c) > 0
      then [PublishOrderEventBatch (mcRestingEvents c @ [mcEvent c])] @
           (if length (mcTradeEvents c) > 0
            then [PublishTradeStatusEventBatch (mcTradeEvents c),
                  MetricAdd TradesExecutedTotal [oPair incoming] (length (mcTradeEvents c))]
            else []) @
           (if mcFull c then [MetricAdd OrdersMatchedTotal [oPair incoming] 1] else [])
      else [])"

definition match_market_buy ::
  "'d::linordered_idom env \<Rightarrow> nat \<Rightarrow> 'd book \<Rightarrow> 'd order \<Rightarrow> 'd match_result" where
  "match_market_buy e n ob incoming =
     (if length (sLevels (obAsks ob)) = 0 then (Some ErrOrderbookEmpty, ob, [])
      else case market_sweep e True (sLevels (obAsks ob)) (market_start e n ob incoming) of
        (levels, c) \<Rightarrow>
          (None, ob\<lparr>obAsks := RemoveEmptyLevel ((obAsks ob)\<lparr>sLevels := levels\<rparr>), obStore := mcStore c\<rparr>,
           market_publish incoming c))"

definition match_market_sell ::
  "'d::linordered_idom env \<Rightarrow> nat \<Rightarrow> 'd book \<Rightarrow> 'd order \<Rightarrow> 'd match_result" where
  "match_market_sell e n ob incoming =
     (if length (sLevels (obBids ob)) = 0 then (Some ErrOrderbookEmpty, ob, [])
      else case market_sweep e False (sLevels (obBids ob)) (market_start e n ob incoming) of
        (levels, c) \<Rightarrow>
          (None, ob\<lparr>obBids := RemoveEmptyLevel ((obBids ob)\<lparr>sLevels := levels\<rparr>), obStore := mcStore c\<rparr>,
           market_publish incoming c))"

definition MatchMarket ::
  "'d::linordered_idom env \<Rightarrow> nat \<Rightarrow> 'd book \<Rightarrow> 'd order \<Rightarrow> 'd match_result" where
  "MatchMarket e n ob incoming =
     (if oSide incoming = SideBuy then match_market_buy e n ob incoming
      else match_market_sell e n ob incoming)"

subsection \<open>The invariant of the sweep\<close>

definition store_static :: "'d store \<Rightarrow> 'd store \<Rightarrow> bool" where
  "store_static st st' = (\<forall>x. oPrice (st' x) = oPrice (st x) \<and> oQuantity (st' x) = oQuantity (st x) \<and>
     oUserID (st' x) = oUserID (st x) \<and> oID (st' x) = oID (st x))"

lemma store_static_refl [simp]: "store_static st st"
  by (simp add: store_static_def)

lemma store_static_trans: "store_static a b \<Longrightarrow> store_static b c \<Longrightarrow> store_static a c"
  by (simp add: store_static_def)

definition market_inv :: "nat set \<Rightarrow> 'd::linordered_idom market_ctx \<Rightarrow> bool" where
  "market_inv R c =
     (order_ok (mcIncoming c) \<and> event_matches (mcEvent c) (mcIncoming c) \<and>
      (\<forall>r \<in> R. order_ok (mcStore c r)) \<and> (\<forall>ev \<in> set (mcRestingEvents c). event_balanced ev))"

lemma market_fill_step:
  assumes "market_inv R c" and "lvOrders pl ! idx \<in> R"
    and q: "q = min (Remaining (mcStore c (lvOrders pl ! idx))) (Remaining (mcIncoming c))"
    and f: "market_fill e idx q pl c = (pl', c', f)"
  shows "market_inv R c' \<and> shrunk pl pl' \<and> store_static (mcStore c) (mcStore c')"
proof -
  let ?r = "lvOrders pl ! idx"
  have okr: "order_ok (mcStore c ?r)" and oki: "order_ok (mcIncoming c)" using assms by (auto simp: market_inv_def)
  have q0: "0 \<le> q" "q \<le> Remaining (mcStore c ?r)" "q \<le> Remaining (mcIncoming c)"
    using order_ok_Remaining [OF okr] order_ok_Remaining [OF oki] by (auto simp: q)
  have bal: "event_balanced (UpdateOrderFilled q (ChangeStatusEvent a b (order_event_of e n (mcStore c ?r))))" for a b n
    using q0 okr by (intro event_balanced_update) (auto simp: order_event_of_balanced)
  have ok': "order_ok (ChangeStatusTo s o1\<lparr>oFilled := oFilled o1 + q\<rparr>)" "order_ok (o1\<lparr>oFilled := oFilled o1 + q\<rparr>)"
    if "order_ok o1" "q \<le> Remaining o1" for o1 :: "'a order" and s
    using that q0(1) by (auto simp: order_ok_def Remaining_def)
  have "order_ok (mcIncoming c')" "event_matches (mcEvent c') (mcIncoming c')"
    using f assms(1) ok' [OF oki q0(3)]
    by (auto simp: market_fill_def Let_def market_inv_def event_matches_def Remaining_def)
  moreover have "\<forall>r \<in> R. order_ok (mcStore c' r)"
    using f assms(1) ok' [OF okr q0(2)] by (auto simp: market_fill_def Let_def market_inv_def)
  moreover have "\<forall>ev \<in> set (mcRestingEvents c'). event_balanced ev"
    using f assms(1) bal by (auto simp: market_fill_def Let_def market_inv_def)
  moreover have "shrunk pl pl'"
    using f subseq_remove_nth [of idx "lvOrders pl"]
    by (auto simp: market_fill_def Let_def RemoveFilledOrderInPriceLevel_def shrunk_def)
  moreover have "store_static (mcStore c) (mcStore c')"
    using f by (auto simp: market_fill_def Let_def store_static_def)
  ultimately show ?thesis by (simp add: market_inv_def)
qed

lemma market_level_step:
  "market_inv R c \<Longrightarrow> set (lvOrders pl) \<subseteq> R \<Longrightarrow> market_level e buy idx pl c = (b, pl', c') \<Longrightarrow>
   market_inv R c' \<and> shrunk pl pl' \<and> store_static (mcStore c) (mcStore c')"
proof (induction e buy idx pl c arbitrary: b pl' c' rule: market_level.induct)
  case (1 e buy idx pl c)
  let ?r = "mcStore c (lvOrders pl ! idx)" and ?inc = "mcIncoming c"
  let ?skip = "if buy then oID ?r = oID ?inc else oUserID ?r = oUserID ?inc"
  let ?q = "min (Remaining ?r) (Remaining ?inc)"
  note run = "1.prems"(3) [unfolded market_level.simps [of e buy idx pl c] Let_def]
  show ?case
  proof (cases "idx < length (lvOrders pl) \<and> \<not> ?skip")
    case False
    then show ?thesis using run "1.prems"(1) by (auto split: if_splits)
  next
    case True
    show ?thesis
    proof (cases "?q = 0")
      case q: True
      show ?thesis
      proof (cases buy)
        case False
        then show ?thesis
          using "1.IH"(1) [OF _ refl refl refl] True q run "1.prems"(1,2) by simp
      qed (use True q run "1.prems"(1) in simp)
    next
      case q: False
      obtain pl1 c1 f where fl: "market_fill e idx ?q pl c = (pl1, c1, f)" by (cases "market_fill e idx ?q pl c")
      have s: "market_inv R c1 \<and> shrunk pl pl1 \<and> store_static (mcStore c) (mcStore c1)"
        by (rule market_fill_step [OF "1.prems"(1) _ refl fl]) (use True "1.prems"(2) in auto)
      then have R1: "set (lvOrders pl1) \<subseteq> R" using "1.prems"(2) subseq_set by (fastforce simp: shrunk_def)
      show ?thesis
      proof (cases "mcFull c1")
        case full: True
        have "pl' = pl1 \<and> c' = c1" using run True q by (simp add: fl full split: if_splits)
        with s show ?thesis by simp
      next
        case full: False
        have nxt: "market_level e buy (if f then idx else Suc idx) pl1 c1 = (b, pl', c')"
          using run True q by (simp add: fl full split: if_splits)
        have "market_inv R c' \<and> shrunk pl1 pl' \<and> store_static (mcStore c1) (mcStore c')"
          using "1.IH"(2) [OF _ refl refl refl _ refl q fl [symmetric] refl full] True s R1 nxt by simp
        with s shrunk_trans store_static_trans show ?thesis by blast
      qed
    qed
  qed
qed

lemma market_sweep_step:
  "market_inv R c \<Longrightarrow> (\<Union>lv \<in> set ls. set (lvOrders lv)) \<subseteq> R \<Longrightarrow> market_sweep e buy ls c = (ls', c') \<Longrightarrow>
   market_inv R c' \<and> list_all2 shrunk ls ls' \<and> store_static (mcStore c) (mcStore c')"
proof (induction ls arbitrary: c ls' c')
  case (Cons pl rest)
  show ?case
  proof (cases "if buy then lvPrice pl > oPrice (mcIncoming c) else lvPrice pl < oPrice (mcIncoming c)")
    case True
    then show ?thesis using Cons.prems by (auto simp: market_inv_def event_matches_def split: if_splits)
  next
    case False
    obtain b pl1 c1 where lv: "market_level e buy 0 pl c = (b, pl1, c1)" by (cases "market_level e buy 0 pl c")
    have s: "market_inv R c1 \<and> shrunk pl pl1 \<and> store_static (mcStore c) (mcStore c1)"
      by (rule market_level_step [OF Cons.prems(1) _ lv]) (use Cons.prems(2) in auto)
    obtain ls2 c2 where sw: "market_sweep e buy rest c1 = (ls2, c2)" by (cases "market_sweep e buy rest c1")
    have r: "market_inv R c2 \<and> list_all2 shrunk rest ls2 \<and> store_static (mcStore c1) (mcStore c2)"
      by (rule Cons.IH [OF _ _ sw]) (use s Cons.prems(2) in auto)
    have "(ls', c') = (if b then (pl1 # ls2, c2) else (pl1 # rest, c1))"
      using Cons.prems(3) False by (cases b) (simp_all add: lv sw)
    with s r store_static_trans show ?thesis by (auto split: if_splits)
  qed
qed simp

subsection \<open>The fills of the sweep\<close>

text \<open>An order the inner loop neither skips nor finds empty.\<close>

definition no_skip :: "bool \<Rightarrow> 'd::linordered_idom order \<Rightarrow> 'd order \<Rightarrow> bool" where
  "no_skip buy incoming resting = (0 < Remaining resting \<and> order_valid resting \<and>
     (if buy then oID resting \<noteq> oID incoming else oUserID resting \<noteq> oUserID incoming))"

definition ev_state :: "'d order_event \<Rightarrow> string \<times> string" where
  "ev_state ev = (hEventType (eHeader ev), eStatus ev)"

lemma ev_state_simps [simp]:
  "ev_state (ChangeStatusEvent t s ev) = (t, s)" "ev_state (UpdateOrderFilled q ev) = ev_state ev"
  by (simp_all add: ev_state_def)

text \<open>
  A context after the fills \<open>fs\<close> (pointer and amount) compared with the one before: what is traded, what
  is left of the incoming order, and what each maker has been filled.
\<close>

definition after_fills :: "(nat \<times> 'd) list \<Rightarrow> 'd::linordered_idom market_ctx \<Rightarrow> 'd market_ctx \<Rightarrow> bool" where
  "after_fills fs c c' =
     (map trade_view (mcTradeEvents c') = map trade_view (mcTradeEvents c) @
        map (\<lambda>(r, f). (oID (mcStore c r), oID (mcIncoming c), oPrice (mcStore c r), f)) fs \<and>
      Remaining (mcIncoming c') = Remaining (mcIncoming c) - sum_list (map snd fs) \<and>
      mcFull c' = (Remaining (mcIncoming c') = 0) \<and>
      ev_state (mcEvent c') = (if fs = [] then ev_state (mcEvent c)
         else if mcFull c' then (EventOrderFilled, kafka_StatusFilled)
         else (EventOrderPartial, kafka_StatusPartial)) \<and>
      (\<forall>(r, f) \<in> set fs. oFilled (mcStore c' r) = oFilled (mcStore c r) + f) \<and>
      (\<forall>r. r \<notin> fst ` set fs \<longrightarrow> mcStore c' r = mcStore c r) \<and>
      store_static (mcStore c) (mcStore c') \<and>
      length (mcRestingEvents c') = length (mcRestingEvents c) + length fs \<and>
      oID (mcIncoming c') = oID (mcIncoming c) \<and> oUserID (mcIncoming c') = oUserID (mcIncoming c) \<and>
      oPair (mcIncoming c') = oPair (mcIncoming c) \<and> oPrice (mcIncoming c') = oPrice (mcIncoming c) \<and>
      eID (mcEvent c') = eID (mcEvent c))"

lemma order_valid_cong:
  "oID o1 = oID o2 \<Longrightarrow> oUserID o1 = oUserID o2 \<Longrightarrow> oPair o1 = oPair o2 \<Longrightarrow> oPrice o1 = oPrice o2 \<Longrightarrow>
   order_valid o1 = order_valid o2"
  by (simp add: order_valid_def)

lemma after_fills_trans:
  assumes "after_fills fs c c1" and "after_fills gs c1 c2" and "fst ` set fs \<inter> fst ` set gs = {}"
  shows "after_fills (fs @ gs) c c2"
proof -
  note A = assms(1) [unfolded after_fills_def] and B = assms(2) [unfolded after_fills_def]
  have static: "store_static (mcStore c) (mcStore c1)" and inc: "oID (mcIncoming c1) = oID (mcIncoming c)"
    using A by blast+
  have "map (\<lambda>(r, f). (oID (mcStore c1 r), oID (mcIncoming c1), oPrice (mcStore c1 r), f)) gs =
    map (\<lambda>(r, f). (oID (mcStore c r), oID (mcIncoming c), oPrice (mcStore c r), f)) gs"
    using static by (simp add: inc store_static_def)
  then have tr: "map trade_view (mcTradeEvents c2) = map trade_view (mcTradeEvents c) @
        map (\<lambda>(r, f). (oID (mcStore c r), oID (mcIncoming c), oPrice (mcStore c r), f)) (fs @ gs)"
    using A B by simp
  have fl: "oFilled (mcStore c2 r) = oFilled (mcStore c r) + f" if "(r, f) \<in> set (fs @ gs)" for r f
  proof (cases "(r, f) \<in> set fs")
    case True
    then have "r \<in> fst ` set fs" by force
    then have "r \<notin> fst ` set gs" using assms(3) by blast
    then have "mcStore c2 r = mcStore c1 r" using B by blast
    moreover have "oFilled (mcStore c1 r) = oFilled (mcStore c r) + f" using A True by fast
    ultimately show ?thesis by simp
  next
    case False
    then have gs: "(r, f) \<in> set gs" using that by simp
    then have "r \<in> fst ` set gs" by force
    then have "r \<notin> fst ` set fs" using assms(3) by blast
    then have "mcStore c1 r = mcStore c r" using A by blast
    moreover have "oFilled (mcStore c2 r) = oFilled (mcStore c1 r) + f" using B gs by fast
    ultimately show ?thesis by simp
  qed
  have st: "mcStore c2 r = mcStore c r" if "r \<notin> fst ` set (fs @ gs)" for r
  proof -
    have "r \<notin> fst ` set fs" "r \<notin> fst ` set gs" using that by auto
    then have "mcStore c1 r = mcStore c r" "mcStore c2 r = mcStore c1 r" using A B by blast+
    then show ?thesis by simp
  qed
  have ss: "store_static (mcStore c) (mcStore c2)" using static B store_static_trans by blast
  show ?thesis unfolding after_fills_def
    using tr ss st fl A B by (intro conjI ballI allI impI) (simp_all add: case_prod_beta)
qed

lemma market_fill_after:
  fixes c :: "'d::linordered_idom market_ctx"
  assumes vi: "order_valid (mcIncoming c)" and ns: "no_skip buy (mcIncoming c) (mcStore c (lvOrders pl ! idx))"
    and nf: "\<not> mcFull c" and pos: "0 < Remaining (mcIncoming c)"
    and q: "q = min (Remaining (mcStore c (lvOrders pl ! idx))) (Remaining (mcIncoming c))"
    and f: "market_fill e idx q pl c = (pl', c', f)"
  shows "after_fills [(lvOrders pl ! idx, q)] c c' \<and> mcFull c' = (q = Remaining (mcIncoming c)) \<and>
     mcCancelled c' = mcCancelled c \<and> f = (q = Remaining (mcStore c (lvOrders pl ! idx))) \<and>
     pl' = (if f then pl\<lparr>lvOrders := remove_nth idx (lvOrders pl)\<rparr> else pl)"
proof -
  let ?r = "lvOrders pl ! idx"
  have vr: "order_valid (mcStore c ?r)" and q0: "0 \<le> q" "q \<le> Remaining (mcStore c ?r)" "q \<le> Remaining (mcIncoming c)"
    using ns pos by (auto simp: no_skip_def q)
  have tv: "trade_view (NewTradeStatusEvent e k (oUserID (mcStore c ?r)) (oUserID (mcIncoming c))
      (oID (mcStore c ?r)) (oID (mcIncoming c)) (oPair (mcIncoming c)) (oPrice (mcStore c ?r)) q b1 b2 m t) =
      (oID (mcStore c ?r), oID (mcIncoming c), oPrice (mcStore c ?r), q)" for k m t b1 b2
    using vi vr q0 by (subst NewTradeStatusEvent_valid) (auto simp: order_valid_def trade_view_def)
  have ge: "(q \<ge> Remaining (mcStore c ?r)) = (q = Remaining (mcStore c ?r))"
    "(q \<ge> Remaining (mcIncoming c)) = (q = Remaining (mcIncoming c))" using q0 by auto
  have pl: "f = (q = Remaining (mcStore c ?r))"
     "pl' = (if f then pl\<lparr>lvOrders := remove_nth idx (lvOrders pl)\<rparr> else pl)"
    using f by (auto simp: market_fill_def Let_def ge RemoveFilledOrderInPriceLevel_def)
  have c': "c' = c\<lparr>mcStore := mcStore c', mcIncoming := mcIncoming c', mcEvent := mcEvent c',
      mcRestingEvents := mcRestingEvents c', mcTradeEvents := mcTradeEvents c', mcTick := mcTick c',
      mcFull := mcFull c'\<rparr>" using f by (auto simp: market_fill_def Let_def)
  have inc: "mcIncoming c' = (if q = Remaining (mcIncoming c) then mcIncoming c
      else ChangeStatusTo ''partial'' (mcIncoming c))\<lparr>oFilled := oFilled (mcIncoming c) + q\<rparr>"
    using f by (auto simp: market_fill_def Let_def ge)
  have full: "mcFull c' = (q = Remaining (mcIncoming c))" using f nf by (auto simp: market_fill_def Let_def ge)
  have "map trade_view (mcTradeEvents c') = map trade_view (mcTradeEvents c) @
      [(oID (mcStore c ?r), oID (mcIncoming c), oPrice (mcStore c ?r), q)]"
    using f tv by (auto simp: market_fill_def Let_def)
  moreover have "store_static (mcStore c) (mcStore c')" and "oFilled (mcStore c' ?r) = oFilled (mcStore c ?r) + q"
    and "\<And>x. x \<noteq> ?r \<Longrightarrow> mcStore c' x = mcStore c x"
    and "length (mcRestingEvents c') = Suc (length (mcRestingEvents c))"
    using f by (auto simp: market_fill_def Let_def store_static_def)
  moreover have "ev_state (mcEvent c') = (if mcFull c' then (EventOrderFilled, kafka_StatusFilled)
      else (EventOrderPartial, kafka_StatusPartial))" "eID (mcEvent c') = eID (mcEvent c)"
    using f nf by (auto simp: market_fill_def Let_def ge)
  moreover have "Remaining (mcIncoming c') = Remaining (mcIncoming c) - q" by (simp add: inc Remaining_def)
  moreover have "mcCancelled c' = mcCancelled c" by (subst c') simp
  ultimately show ?thesis using pl full by (auto simp: after_fills_def inc)
qed

lemma after_fills_Nil: "\<not> mcFull c \<Longrightarrow> 0 < Remaining (mcIncoming c) \<Longrightarrow> after_fills [] c c"
  by (simp add: after_fills_def)

lemma after_fills_offers:
  "after_fills fs c c' \<Longrightarrow> \<forall>r \<in> set rs. r \<notin> fst ` set fs \<Longrightarrow> offers (mcStore c') rs = offers (mcStore c) rs"
  by (intro offers_cong) (auto simp: after_fills_def)

lemma after_fills_incoming:
  "after_fills fs c c' \<Longrightarrow> oID (mcIncoming c') = oID (mcIncoming c) \<and>
   oUserID (mcIncoming c') = oUserID (mcIncoming c) \<and> oPrice (mcIncoming c') = oPrice (mcIncoming c) \<and>
   (order_valid (mcIncoming c) \<longrightarrow> order_valid (mcIncoming c'))"
  by (auto simp: after_fills_def order_valid_def)

lemma after_fills_no_skip:
  assumes "after_fills fs c c'" and "r \<notin> fst ` set fs" and "no_skip buy (mcIncoming c) (mcStore c r)"
  shows "no_skip buy (mcIncoming c') (mcStore c' r)"
proof -
  have "mcStore c' r = mcStore c r" using assms(1,2) unfolding after_fills_def by blast
  with assms(3) after_fills_incoming [OF assms(1)] show ?thesis by (simp add: no_skip_def)
qed

lemma market_level_fills:
  fixes c :: "'d::linordered_idom market_ctx"
  assumes "\<not> mcFull c" and "0 < Remaining (mcIncoming c)" and "order_valid (mcIncoming c)"
    and "distinct (lvOrders pl)" and "\<forall>r \<in> set (lvOrders pl). no_skip buy (mcIncoming c) (mcStore c r)"
    and "market_level e buy 0 pl c = (b, pl', c')"
  shows "after_fills (greedy (Remaining (mcIncoming c)) (offers (mcStore c) (lvOrders pl))) c c' \<and>
     mcCancelled c' = mcCancelled c \<and> lvPrice pl' = lvPrice pl \<and> b = (\<not> mcFull c') \<and>
     lvOrders pl' = drop (filled_count (mcStore c)
       (greedy (Remaining (mcIncoming c)) (offers (mcStore c) (lvOrders pl)))) (lvOrders pl)"
  using assms
proof (induction "lvOrders pl" arbitrary: pl c)
  case Nil
  then have "b \<and> pl' = pl \<and> c' = c" using market_level.simps [of e buy 0 pl c] by simp
  then show ?case using Nil after_fills_Nil [of c] by (simp flip: Nil(1))
next
  case (Cons r rs)
  let ?q = "min (Remaining (mcStore c r)) (Remaining (mcIncoming c))"
  have pl: "lvOrders pl ! 0 = r" "0 < length (lvOrders pl)" by (simp_all flip: Cons.hyps(2))
  have ns: "no_skip buy (mcIncoming c) (mcStore c (lvOrders pl ! 0))" using Cons.prems(5) by (simp add: pl flip: Cons.hyps(2))
  then have q0: "?q \<noteq> 0" and live: "0 < Remaining (mcStore c r)"
    using Cons.prems(2) by (auto simp: no_skip_def pl min_def)
  obtain pl1 c1 f where fl: "market_fill e 0 ?q pl c = (pl1, c1, f)" by (cases "market_fill e 0 ?q pl c")
  note s = market_fill_after [OF Cons.prems(3) ns Cons.prems(1,2) _ fl, simplified pl(1), OF refl]
  let ?next = "if mcFull c1 then (False, pl1, c1) else market_level e buy (if f then 0 else 1) pl1 c1"
  have run: "(b, pl', c') = ?next"
    using Cons.prems(6) ns q0 fl pl(2) market_level.simps [of e buy 0 pl c]
    by (auto simp: Let_def pl(1) no_skip_def split: if_splits)
  have os: "lvOrders pl = r # rs" using Cons.hyps(2) by simp
  show ?case
  proof (cases "mcFull c1")
    case True
    have g: "greedy (Remaining (mcIncoming c)) (offers (mcStore c) (lvOrders pl)) = [(r, ?q)]"
      using True s Cons.prems(2) by (simp add: os)
    show ?thesis unfolding g using s run True os
      by (auto simp: filled_count_def remove_nth_def)
  next
    case False
    then have q: "?q = Remaining (mcStore c r)" "f" using s by (auto simp: min_def split: if_splits)
    then have pl1: "lvOrders pl1 = rs" "lvPrice pl1 = lvPrice pl" using s os by (auto simp: remove_nth_def)
    have af: "after_fills [(r, ?q)] c c1" using s by blast
    have rem: "Remaining (mcIncoming c1) = Remaining (mcIncoming c) - ?q" using af by (simp add: after_fills_def)
    have pos: "0 < Remaining (mcIncoming c1)" using rem s False by (auto simp: min_def split: if_splits)
    have rn: "r \<notin> set rs" "distinct rs" using Cons.prems(4) os by auto
    have IH: "after_fills (greedy (Remaining (mcIncoming c1)) (offers (mcStore c1) rs)) c1 c' \<and>
        mcCancelled c' = mcCancelled c1 \<and> lvPrice pl' = lvPrice pl1 \<and> b = (\<not> mcFull c') \<and>
        lvOrders pl' = drop (filled_count (mcStore c1) (greedy (Remaining (mcIncoming c1)) (offers (mcStore c1) rs))) rs"
    proof (rule Cons.hyps(1) [of pl1 c1, unfolded pl1(1)])
      show "order_valid (mcIncoming c1)" using after_fills_incoming [OF af] Cons.prems(3) by blast
      show "\<forall>r \<in> set rs. no_skip buy (mcIncoming c1) (mcStore c1 r)"
      proof
        fix x assume x: "x \<in> set rs"
        then have "x \<notin> fst ` set [(r, ?q)]" using rn by auto
        moreover have "no_skip buy (mcIncoming c) (mcStore c x)" using Cons.prems(5) x os by simp
        ultimately show "no_skip buy (mcIncoming c1) (mcStore c1 x)" by (rule after_fills_no_skip [OF af])
      qed
      show "market_level e buy 0 pl1 c1 = (b, pl', c')" using run False q by simp
    qed (use False pos rn in simp_all)
    have off: "offers (mcStore c1) rs = offers (mcStore c) rs"
      by (rule after_fills_offers [OF af]) (use rn in auto)
    define gs where "gs = greedy (Remaining (mcIncoming c1)) (offers (mcStore c1) rs)"
    have g: "greedy (Remaining (mcIncoming c)) (offers (mcStore c) (lvOrders pl)) = [(r, ?q)] @ gs"
      using Cons.prems(2) by (simp add: os gs_def rem off)
    have dj: "x \<noteq> r" if "x \<in> fst ` set gs" for x
      using that greedy_offers_refs rn by (fastforce simp: gs_def)
    have ct: "filled_count (mcStore c1) gs = filled_count (mcStore c) gs"
      by (rule filled_count_cong) (use af dj in \<open>force simp: after_fills_def\<close>)
    have "after_fills ([(r, ?q)] @ gs) c c'"
      by (rule after_fills_trans [OF af]) (use IH dj in \<open>auto simp: gs_def\<close>)
    moreover have "filled_count (mcStore c) ([(r, ?q)] @ gs) = Suc (filled_count (mcStore c) gs)"
      using q by (simp add: filled_count_def)
    ultimately show ?thesis unfolding g using IH s ct os pl1 by (simp add: gs_def)
  qed
qed

text \<open>The levels an incoming order accepts, and the offers it may take.\<close>

definition beyond :: "bool \<Rightarrow> 'd::linordered_idom order \<Rightarrow> 'd level \<Rightarrow> bool" where
  "beyond buy incoming lv =
     (if buy then lvPrice lv > oPrice incoming else lvPrice lv < oPrice incoming)"

definition accepted :: "bool \<Rightarrow> 'd::linordered_idom order \<Rightarrow> 'd level list \<Rightarrow> nat list" where
  "accepted buy incoming ls = concat (map lvOrders (takeWhile (\<lambda>lv. \<not> beyond buy incoming lv) ls))"

lemma accepted_Cons:
  "accepted buy incoming (lv # ls) =
   (if beyond buy incoming lv then [] else lvOrders lv @ accepted buy incoming ls)"
  by (simp add: accepted_def)

lemma accepted_cong:
  "oPrice i = oPrice j \<Longrightarrow> accepted buy i ls = accepted buy j ls"
  by (simp add: accepted_def beyond_def)

lemma accepted_subset: "set (accepted buy i ls) \<subseteq> set (concat (map lvOrders ls))"
  by (auto simp: accepted_def dest: set_takeWhileD)

lemma market_sweep_fills:
  fixes c :: "'d::linordered_idom market_ctx"
  assumes "\<not> mcFull c" and "0 < Remaining (mcIncoming c)" and "order_valid (mcIncoming c)"
    and "distinct (concat (map lvOrders ls))"
    and "\<forall>r \<in> set (accepted buy (mcIncoming c) ls). no_skip buy (mcIncoming c) (mcStore c r)"
    and "market_sweep e buy ls c = (ls', c')"
  defines "fs \<equiv> greedy (Remaining (mcIncoming c)) (offers (mcStore c) (accepted buy (mcIncoming c) ls))"
  shows "(\<exists>c0. after_fills fs c c0 \<and> mcCancelled c0 = mcCancelled c \<and>
       c' = (if \<not> mcFull c0 \<and> (\<exists>lv \<in> set ls. beyond buy (mcIncoming c) lv)
             then c0\<lparr>mcEvent := ChangeStatusEvent EventOrderCanceled kafka_StatusCancelled (mcEvent c0),
                     mcCancelled := True\<rparr> else c0)) \<and>
     concat (map lvOrders ls') = drop (filled_count (mcStore c) fs) (concat (map lvOrders ls)) \<and>
     map lvPrice ls' = map lvPrice ls"
  using assms(1-6) unfolding fs_def
proof (induction ls arbitrary: c ls' c')
  case Nil
  then show ?case using after_fills_Nil [of c] by (auto simp: accepted_def filled_count_def)
next
  case (Cons pl rest)
  let ?inc = "mcIncoming c" and ?st = "mcStore c"
  show ?case
  proof (cases "beyond buy ?inc pl")
    case True
    then have "market_sweep e buy (pl # rest) c = (pl # rest,
      c\<lparr>mcEvent := ChangeStatusEvent EventOrderCanceled kafka_StatusCancelled (mcEvent c), mcCancelled := True\<rparr>)"
      by (simp add: beyond_def)
    then have res: "ls' = pl # rest"
      "c' = c\<lparr>mcEvent := ChangeStatusEvent EventOrderCanceled kafka_StatusCancelled (mcEvent c), mcCancelled := True\<rparr>"
      using Cons.prems(6) by simp_all
    have g: "greedy (Remaining ?inc) (offers ?st (accepted buy ?inc (pl # rest))) = []"
      using True by (simp add: accepted_Cons)
    have "\<exists>lv \<in> set (pl # rest). beyond buy ?inc lv" using True by simp
    then show ?thesis unfolding g res using after_fills_Nil [OF Cons.prems(1,2)] Cons.prems(1)
      by (intro conjI exI [of _ c]) (simp_all add: filled_count_def)
  next
    case False
    obtain b pl1 c1 where lv: "market_level e buy 0 pl c = (b, pl1, c1)" by (cases "market_level e buy 0 pl c")
    have ns: "\<forall>r \<in> set (lvOrders pl). no_skip buy ?inc (?st r)"
      "\<forall>r \<in> set (accepted buy ?inc rest). no_skip buy ?inc (?st r)"
      using Cons.prems(5) False by (auto simp: accepted_Cons)
    have d: "distinct (lvOrders pl)" "distinct (concat (map lvOrders rest))"
      "set (lvOrders pl) \<inter> set (concat (map lvOrders rest)) = {}" using Cons.prems(4) by auto
    define fs1 where "fs1 = greedy (Remaining ?inc) (offers ?st (lvOrders pl))"
    have s: "after_fills fs1 c c1" "mcCancelled c1 = mcCancelled c" "lvPrice pl1 = lvPrice pl"
      "b = (\<not> mcFull c1)" "lvOrders pl1 = drop (filled_count ?st fs1) (lvOrders pl)"
      using market_level_fills [OF Cons.prems(1-3) d(1) ns(1) lv] by (simp_all add: fs1_def)
    have rem: "Remaining (mcIncoming c1) = Remaining ?inc - sum_list (map snd fs1)"
      "mcFull c1 = (Remaining (mcIncoming c1) = 0)" using s(1) by (auto simp: after_fills_def)
    have pos: "\<forall>x \<in> set (offers ?st (lvOrders pl)). 0 < snd x" using ns(1) by (auto simp: offers_def no_skip_def)
    have run: "market_sweep e buy (pl # rest) c = (if b then (case market_sweep e buy rest c1 of (r2, c2) \<Rightarrow> (pl1 # r2, c2))
        else (pl1 # rest, c1))" using False by (simp add: lv beyond_def)
    have fs: "greedy (Remaining ?inc) (offers ?st (accepted buy ?inc (pl # rest))) =
        fs1 @ greedy (Remaining (mcIncoming c1)) (offers ?st (accepted buy ?inc rest))"
      using False by (simp add: accepted_Cons greedy_append rem fs1_def)
    show ?thesis
    proof (cases "mcFull c1")
      case True
      then have g: "greedy (Remaining ?inc) (offers ?st (accepted buy ?inc (pl # rest))) = fs1"
        using fs rem by simp
      have "length (greedy (Remaining ?inc) (offers ?st (lvOrders pl))) \<le> length (lvOrders pl)"
        using length_greedy [of "Remaining ?inc" "offers ?st (lvOrders pl)"] by (simp add: offers_def)
      then have k: "filled_count ?st fs1 \<le> length (lvOrders pl)"
        unfolding fs1_def filled_count_def by (rule order_trans [OF length_filter_le])
      have res: "ls' = pl1 # rest" "c' = c1" using Cons.prems(6) run s(4) True by simp_all
      have "concat (map lvOrders ls') = drop (filled_count ?st fs1) (concat (map lvOrders (pl # rest)))"
        "map lvPrice ls' = map lvPrice (pl # rest)" unfolding res using k by (simp_all add: s(3,5))
      then show ?thesis unfolding g using s(1,2) True res(2) by (intro conjI exI [of _ c1]) simp_all
    next
      case nf: False
      have "0 \<le> Remaining (mcIncoming c1)"
        unfolding rem(1) fs1_def using greedy_sum [of "Remaining ?inc" "offers ?st (lvOrders pl)"] pos Cons.prems(2)
        by (simp add: less_imp_le)
      then have p1: "0 < Remaining (mcIncoming c1)" using nf rem by simp
      have fs1: "fs1 = offers ?st (lvOrders pl)"
        unfolding fs1_def by (rule greedy_unfinished [OF _ pos]) (use p1 rem in \<open>simp add: fs1_def\<close>)
      have refs1: "fst ` set fs1 = set (lvOrders pl)" by (auto simp: fs1 offers_def image_image)
      obtain ls2 c2 where sw: "market_sweep e buy rest c1 = (ls2, c2)" by (cases "market_sweep e buy rest c1")
      have inc: "oPrice (mcIncoming c1) = oPrice ?inc" "order_valid (mcIncoming c1)"
        using after_fills_incoming [OF s(1)] Cons.prems(3) by auto
      have acc: "accepted buy (mcIncoming c1) rest = accepted buy ?inc rest" by (rule accepted_cong [OF inc(1)])
      have notin: "r \<notin> fst ` set fs1" if "r \<in> set (accepted buy ?inc rest)" for r
        using that accepted_subset [of buy ?inc rest] d(3) by (auto simp: refs1)
      have off: "offers (mcStore c1) (accepted buy ?inc rest) = offers ?st (accepted buy ?inc rest)"
        by (rule after_fills_offers [OF s(1)]) (use notin in blast)
      have bey: "beyond buy (mcIncoming c1) = beyond buy ?inc" by (rule ext) (simp add: beyond_def inc(1))
      define fs2 where "fs2 = greedy (Remaining (mcIncoming c1)) (offers ?st (accepted buy ?inc rest))"
      note IH = Cons.IH [OF nf p1 inc(2) d(2) _ sw, unfolded acc off bey, folded fs2_def]
      have ns2: "\<forall>r \<in> set (accepted buy ?inc rest). no_skip buy (mcIncoming c1) (mcStore c1 r)"
        using after_fills_no_skip [OF s(1)] notin ns(2) by blast
      obtain c0 where c0: "after_fills fs2 c1 c0" "mcCancelled c0 = mcCancelled c1"
        "c2 = (if \<not> mcFull c0 \<and> (\<exists>lv \<in> set rest. beyond buy ?inc lv)
             then c0\<lparr>mcEvent := ChangeStatusEvent EventOrderCanceled kafka_StatusCancelled (mcEvent c0),
                     mcCancelled := True\<rparr> else c0)"
        using IH [OF ns2] by blast
      have fr: "x \<in> set (accepted buy ?inc rest)" if "x \<in> fst ` set fs2" for x
        using that greedy_offers_refs by (fastforce simp: fs2_def)
      have dj: "fst ` set fs1 \<inter> fst ` set fs2 = {}" using notin fr by blast
      have af: "after_fills (fs1 @ fs2) c c0" by (rule after_fills_trans [OF s(1) c0(1) dj])
      have ct: "filled_count (mcStore c1) fs2 = filled_count ?st fs2"
      proof (rule filled_count_cong)
        fix x assume "x \<in> set fs2"
        then have "fst x \<notin> fst ` set fs1" using fr notin by blast
        then show "mcStore c1 (fst x) = ?st (fst x)" using s(1) unfolding after_fills_def by blast
      qed
      have ls: "concat (map lvOrders ls2) = drop (filled_count ?st fs2) (concat (map lvOrders rest))"
        "map lvPrice ls2 = map lvPrice rest" using IH [OF ns2] by (auto simp: ct)
      have k: "filled_count ?st (fs1 @ fs2) = length (lvOrders pl) + filled_count ?st fs2"
        by (simp add: filled_count_append fs1 filled_count_offers)
      have res: "ls' = pl1 # ls2" "c' = c2" using Cons.prems(6) run nf s(4) sw by simp_all
      have e1: "lvOrders pl1 = []" using s(5) by (simp add: fs1 filled_count_offers)
      have ex: "(\<exists>lv \<in> set (pl # rest). beyond buy ?inc lv) = (\<exists>lv \<in> set rest. beyond buy ?inc lv)"
        using False by simp
      have q: "concat (map lvOrders ls') =
          drop (filled_count ?st (fs1 @ fs2)) (concat (map lvOrders (pl # rest)))"
        "map lvPrice ls' = map lvPrice (pl # rest)"
        unfolding res k by (simp_all add: e1 ls s(3))
      show ?thesis
        unfolding fs fs2_def [symmetric] ex using af c0(2,3) s(2) q res(2) by metis
    qed
  qed
qed

subsection \<open>The whole call\<close>

abbreviation is_buy :: "'d order \<Rightarrow> bool" where
  "is_buy incoming \<equiv> oSide incoming = SideBuy"

lemma MatchMarket_empty:
  "sLevels (opposite (is_buy incoming) ob) = [] \<Longrightarrow>
   MatchMarket e n ob incoming = (Some ErrOrderbookEmpty, ob, [])"
  by (auto simp: MatchMarket_def match_market_buy_def match_market_sell_def opposite_def split: if_splits)

lemma MatchMarket_sweep:
  assumes "sLevels (opposite (is_buy incoming) ob) \<noteq> []"
    and "market_sweep e (is_buy incoming) (sLevels (opposite (is_buy incoming) ob))
           (market_start e n ob incoming) = (ls, c)"
  shows "MatchMarket e n ob incoming =
     (None, (set_opposite (is_buy incoming)
               (RemoveEmptyLevel ((opposite (is_buy incoming) ob)\<lparr>sLevels := ls\<rparr>)) ob)\<lparr>obStore := mcStore c\<rparr>,
      market_publish incoming c)"
proof (cases "is_buy incoming")
  case True
  with assms show ?thesis
    by (simp add: MatchMarket_def match_market_buy_def opposite_def set_opposite_def)
next
  case False
  with assms show ?thesis
    by (simp add: MatchMarket_def match_market_sell_def opposite_def set_opposite_def)
qed

lemma book_ok_static:
  assumes "book_ok ob" and "store_static (obStore ob) st" and "\<forall>r \<in> set (book_refs ob). order_ok (st r)"
  shows "book_ok (ob\<lparr>obStore := st\<rparr>)"
proof -
  have "side_ok st (obNext ob) s" if "side_ok (obStore ob) (obNext ob) s" for s
    using that by (rule side_ok_store) (use assms(2) in \<open>auto simp: store_static_def\<close>)
  then show ?thesis using assms by (auto simp: book_ok_def book_refs_def)
qed

lemma market_start_fields [simp]:
  "mcStore (market_start e n ob incoming) = obStore ob"
  "mcIncoming (market_start e n ob incoming) = incoming"
  "\<not> mcFull (market_start e n ob incoming)" "\<not> mcCancelled (market_start e n ob incoming)"
  "mcTradeEvents (market_start e n ob incoming) = []" "mcRestingEvents (market_start e n ob incoming) = []"
  "eID (mcEvent (market_start e n ob incoming)) = oID incoming"
  "ev_state (mcEvent (market_start e n ob incoming)) = (EventOrderPartial, kafka_StatusPartial)"
  by (simp_all add: market_start_def ev_state_def)

lemma market_start_inv:
  assumes "book_ok ob" and "order_ok incoming"
  shows "market_inv (set (book_refs ob)) (market_start e n ob incoming)"
  using assms by (simp add: market_inv_def event_matches_def market_start_def book_ok_def)

lemma opposite_levels_refs:
  "(\<Union>lv \<in> set (sLevels (opposite b ob)). set (lvOrders lv)) \<subseteq> set (book_refs ob)"
  using opposite_refs [of b ob] by (simp add: side_refs_set)

lemma market_sweep_book:
  assumes "book_ok ob" and "order_ok incoming"
    and sw: "market_sweep e b (sLevels (opposite b ob)) (market_start e n ob incoming) = (ls, c)"
  shows "market_inv (set (book_refs ob)) c \<and> store_static (obStore ob) (mcStore c) \<and>
     list_all2 shrunk (sLevels (opposite b ob)) ls \<and>
     book_ok ((set_opposite b (RemoveEmptyLevel ((opposite b ob)\<lparr>sLevels := ls\<rparr>)) ob)\<lparr>obStore := mcStore c\<rparr>) \<and>
     side_refs (RemoveEmptyLevel ((opposite b ob)\<lparr>sLevels := ls\<rparr>)) = concat (map lvOrders ls)"
proof -
  let ?s = "(opposite b ob)\<lparr>sLevels := ls\<rparr>"
  have step: "market_inv (set (book_refs ob)) c \<and> list_all2 shrunk (sLevels (opposite b ob)) ls \<and>
      store_static (mcStore (market_start e n ob incoming)) (mcStore c)"
    by (rule market_sweep_step [OF market_start_inv [OF assms(1,2)] opposite_levels_refs sw])
  note o = book_ok_opposite [OF assms(1), of b]
  have sh: "list_all2 shrunk (sLevels (opposite b ob)) ls" using step by blast
  have "side_wf (obStore ob) (obNext ob) (opposite b ob)" using o by (simp add: side_ok_def)
  then have wf: "side_wf (obStore ob) (obNext ob) ?s" by (rule shrunk_wf [OF _ sh])
  have srt: "sorted_wrt (side_less (sIsAsk ?s)) (sLevels ?s)" using wf by (simp add: side_wf_def)
  have refs: "side_refs (RemoveEmptyLevel ?s) = concat (map lvOrders ls)"
    by (subst RemoveEmptyLevel_refs [OF srt]) (simp add: side_refs_def)
  have sub: "set (side_refs (RemoveEmptyLevel ?s)) \<subseteq> set (side_refs (opposite b ob))"
    unfolding refs using subseq_set [OF shrunk_refs [OF sh]] by (simp add: side_refs_def)
  have IsAsk: "sIsAsk (RemoveEmptyLevel ?s) = b" using o by simp
  have ok: "book_ok (set_opposite b (RemoveEmptyLevel ?s) ob)"
    by (rule book_ok_set_opposite [OF assms(1) RemoveEmptyLevel_ok [OF wf] sub IsAsk])
  have "set (book_refs (set_opposite b (RemoveEmptyLevel ?s) ob)) \<subseteq> set (book_refs ob)"
    using sub by (cases b) (auto simp: book_refs_def set_opposite_def opposite_def)
  then have "\<forall>r \<in> set (book_refs (set_opposite b (RemoveEmptyLevel ?s) ob)). order_ok (mcStore c r)"
    using step by (auto simp: market_inv_def)
  from book_ok_static [OF ok _ this] show ?thesis using step refs by simp
qed

text \<open>What market matching assumes: the accepted orders are open and none is skipped.\<close>

definition market_queue :: "'d::linordered_idom book \<Rightarrow> 'd order \<Rightarrow> nat list" where
  "market_queue ob incoming =
     accepted (is_buy incoming) incoming (sLevels (opposite (is_buy incoming) ob))"

definition market_ready :: "'d::linordered_idom book \<Rightarrow> 'd order \<Rightarrow> bool" where
  "market_ready ob incoming = (book_ok ob \<and> order_ok incoming \<and> order_valid incoming \<and>
     0 < Remaining incoming \<and>
     (\<forall>r \<in> set (market_queue ob incoming). no_skip (is_buy incoming) incoming (obStore ob r)))"

definition market_fills :: "'d::linordered_idom book \<Rightarrow> 'd order \<Rightarrow> (nat \<times> 'd) list" where
  "market_fills ob incoming =
     greedy (Remaining incoming) (offers (obStore ob) (market_queue ob incoming))"

definition price_stop :: "'d::linordered_idom book \<Rightarrow> 'd order \<Rightarrow> bool" where
  "price_stop ob incoming =
     (\<exists>lv \<in> set (sLevels (opposite (is_buy incoming) ob)). beyond (is_buy incoming) incoming lv)"

lemma MatchMarket_run:
  assumes r: "market_ready ob incoming" and ne: "sLevels (opposite (is_buy incoming) ob) \<noteq> []"
  obtains c c0 ob' where "MatchMarket e n ob incoming = (None, ob', market_publish incoming c)"
    and "after_fills (market_fills ob incoming) (market_start e n ob incoming) c0"
    and "c = (if \<not> mcFull c0 \<and> price_stop ob incoming
           then c0\<lparr>mcEvent := ChangeStatusEvent EventOrderCanceled kafka_StatusCancelled (mcEvent c0),
                   mcCancelled := True\<rparr> else c0)" and "\<not> mcCancelled c0"
    and "side_refs (opposite (is_buy incoming) ob') =
         drop (filled_count (obStore ob) (market_fills ob incoming)) (side_refs (opposite (is_buy incoming) ob))"
    and "obStore ob' = mcStore c0"
proof -
  let ?b = "is_buy incoming" and ?s = "opposite (is_buy incoming) ob"
  have ok: "book_ok ob" "order_ok incoming" using r by (auto simp: market_ready_def)
  obtain ls c where sw: "market_sweep e ?b (sLevels ?s) (market_start e n ob incoming) = (ls, c)"
    by (cases "market_sweep e ?b (sLevels ?s) (market_start e n ob incoming)")
  have d: "distinct (concat (map lvOrders (sLevels ?s)))"
    using book_ok_opposite [OF ok(1), of ?b] side_ok_distinct by (auto simp: side_refs_def)
  have pre: "\<not> mcFull (market_start e n ob incoming)"
    "0 < Remaining (mcIncoming (market_start e n ob incoming))"
    "order_valid (mcIncoming (market_start e n ob incoming))"
    "\<forall>r \<in> set (accepted ?b (mcIncoming (market_start e n ob incoming)) (sLevels ?s)).
       no_skip ?b (mcIncoming (market_start e n ob incoming)) (mcStore (market_start e n ob incoming) r)"
    using r by (auto simp: market_ready_def market_queue_def)
  note f = market_sweep_fills [OF pre(1-3) d pre(4) sw, unfolded market_start_fields,
      folded market_queue_def market_fills_def price_stop_def]
  note bk = market_sweep_book [OF ok sw]
  obtain c0 where c0: "after_fills (market_fills ob incoming) (market_start e n ob incoming) c0"
    "\<not> mcCancelled c0"
    "c = (if \<not> mcFull c0 \<and> price_stop ob incoming
           then c0\<lparr>mcEvent := ChangeStatusEvent EventOrderCanceled kafka_StatusCancelled (mcEvent c0),
                   mcCancelled := True\<rparr> else c0)" using f by auto
  have st: "mcStore c = mcStore c0" by (simp add: c0(3))
  show ?thesis
  proof (rule that [OF MatchMarket_sweep [OF ne sw] c0(1,3,2)])
    show "side_refs (opposite ?b ((set_opposite ?b (RemoveEmptyLevel (?s\<lparr>sLevels := ls\<rparr>)) ob)\<lparr>obStore := mcStore c\<rparr>)) =
      drop (filled_count (obStore ob) (market_fills ob incoming)) (side_refs ?s)"
      using f bk by (simp add: opposite_def set_opposite_def side_refs_def [of "obAsks ob"] side_refs_def [of "obBids ob"] split: if_splits)
  qed (simp add: st)
qed

lemma market_publish_trades:
  assumes "after_fills fs (market_start e n ob incoming) c0" and "mcTradeEvents c = mcTradeEvents c0"
    and "mcRestingEvents c = mcRestingEvents c0"
  shows "map trade_view (trades_of (market_publish incoming c)) =
     map (\<lambda>(r, f). (oID (obStore ob r), oID incoming, oPrice (obStore ob r), f)) fs"
proof -
  have "map trade_view (mcTradeEvents c0) =
      map (\<lambda>(r, f). (oID (obStore ob r), oID incoming, oPrice (obStore ob r), f)) fs"
    "length (mcRestingEvents c0) = length fs"
    using assms(1) by (simp_all add: after_fills_def)
  then show ?thesis using assms(2,3) by (auto simp: market_publish_def)
qed

lemma market_trade_list:
  assumes r: "market_ready ob incoming"
  shows "map trade_view (trades_of (snd (snd (MatchMarket e n ob incoming)))) =
     map (\<lambda>(r, f). (oID (obStore ob r), oID incoming, oPrice (obStore ob r), f)) (market_fills ob incoming)"
proof (cases "sLevels (opposite (is_buy incoming) ob) = []")
  case True
  then show ?thesis
    by (simp add: MatchMarket_empty market_fills_def market_queue_def accepted_def)
next
  case False
  obtain c c0 ob' where "MatchMarket e n ob incoming = (None, ob', market_publish incoming c)"
    "after_fills (market_fills ob incoming) (market_start e n ob incoming) c0"
    "c = (if \<not> mcFull c0 \<and> price_stop ob incoming
           then c0\<lparr>mcEvent := ChangeStatusEvent EventOrderCanceled kafka_StatusCancelled (mcEvent c0),
                   mcCancelled := True\<rparr> else c0)"
    using MatchMarket_run [OF r False] by metis
  then show ?thesis by (simp add: market_publish_trades)
qed

lemma accepted_levels:
  "r \<in> set (market_queue ob incoming) \<Longrightarrow>
   \<exists>lv \<in> set (sLevels (opposite (is_buy incoming) ob)). r \<in> set (lvOrders lv) \<and>
     \<not> beyond (is_buy incoming) incoming lv"
  by (auto simp: market_queue_def accepted_def dest: set_takeWhileD)

lemma accepted_price:
  assumes "book_ok ob" and "r \<in> set (market_queue ob incoming)"
  shows "r \<in> set (book_refs ob) \<and>
     (if is_buy incoming then oPrice (obStore ob r) \<le> oPrice incoming
      else oPrice incoming \<le> oPrice (obStore ob r))"
proof -
  obtain lv where lv: "lv \<in> set (sLevels (opposite (is_buy incoming) ob))" "r \<in> set (lvOrders lv)"
    "\<not> beyond (is_buy incoming) incoming lv" using accepted_levels [OF assms(2)] by blast
  have "oPrice (obStore ob r) = lvPrice lv"
    using book_ok_opposite [OF assms(1), of "is_buy incoming"] lv
    by (auto simp: side_ok_def side_wf_def level_wf_def)
  moreover have "r \<in> set (book_refs ob)" using opposite_levels_refs [of "is_buy incoming" ob] lv by auto
  ultimately show ?thesis using lv(3) by (auto simp: beyond_def split: if_splits)
qed

lemma market_fills_refs:
  assumes "market_ready ob incoming" and "(r, f) \<in> set (market_fills ob incoming)"
  shows "r \<in> set (market_queue ob incoming) \<and> 0 < f \<and> f \<le> Remaining (obStore ob r)"
proof -
  have pos: "\<forall>x \<in> set (offers (obStore ob) (market_queue ob incoming)). 0 < snd x"
    using assms(1) by (auto simp: market_ready_def offers_def no_skip_def)
  from greedy_bounds [OF assms(2) [unfolded market_fills_def] pos] show ?thesis by (auto simp: offers_def)
qed

lemma market_book_ok [inv_intros]:
  assumes "book_ok ob" and "order_ok incoming"
  shows "book_ok (fst (snd (MatchMarket e n ob incoming)))"
proof (cases "sLevels (opposite (is_buy incoming) ob) = []")
  case True
  then show ?thesis using assms by (simp add: MatchMarket_empty)
next
  case False
  obtain ls c where sw: "market_sweep e (is_buy incoming) (sLevels (opposite (is_buy incoming) ob))
      (market_start e n ob incoming) = (ls, c)" by fastforce
  from market_sweep_book [OF assms sw] show ?thesis by (simp add: MatchMarket_sweep [OF False sw])
qed

lemma market_events_balanced:
  assumes "book_ok ob" and "order_ok incoming"
  shows "\<forall>ev \<in> set (order_events_of (snd (snd (MatchMarket e n ob incoming)))). event_balanced ev"
proof (cases "sLevels (opposite (is_buy incoming) ob) = []")
  case True
  then show ?thesis by (simp add: MatchMarket_empty)
next
  case False
  obtain ls c where sw: "market_sweep e (is_buy incoming) (sLevels (opposite (is_buy incoming) ob))
      (market_start e n ob incoming) = (ls, c)" by fastforce
  from market_sweep_book [OF assms sw] have "market_inv (set (book_refs ob)) c" by blast
  then show ?thesis
    using event_matches_balanced [of "mcEvent c" "mcIncoming c"]
    by (auto simp: MatchMarket_sweep [OF False sw] market_publish_def market_inv_def)
qed

subsection \<open>Properties of MatchMarket\<close>

lemma sample_market_ready:
  "market_ready sample_book (sample_buy ''erin'' 11 9)"
  "market_ready sample_book (sample_sell ''erin'' 8 3)"
  "market_ready sample_book (sample_buy ''alice'' 11 9)"
  "sLevels (opposite (is_buy (sample_buy ''erin'' 11 9)) sample_book) \<noteq> []"
  by code_simp+


text \<open>C3: \<^verbatim>\<open>MatchMarket\<close> keeps the order book well formed: levels stay sorted by price, drained levels
  are gone, every order stays on its own price, and no order is over-filled.\<close>

theorem MatchMarket_invariant:
  assumes "book_ok ob" and "order_ok incoming"
  shows "book_ok (fst (snd (MatchMarket e n ob incoming)))"
  using assms by (rule market_book_ok)

theorem MatchMarket_invariant_witness:
  "book_ok (fst (snd (MatchMarket sample_env 0 sample_book (sample_sell ''erin'' 8 3))))"
  by (rule MatchMarket_invariant [OF sample_ok(1,3)])







lemma market_trade_price:
  assumes r: "market_ready ob incoming"
    and t: "t \<in> set (trades_of (snd (snd (MatchMarket e n ob incoming))))"
  shows "(if oSide incoming = SideBuy then tPrice t \<le> oPrice incoming else oPrice incoming \<le> tPrice t) \<and>
     0 < tQuantity t"
proof -
  have "trade_view t \<in> set (map trade_view (trades_of (snd (snd (MatchMarket e n ob incoming)))))"
    using t by simp
  then obtain x f where xf: "(x, f) \<in> set (market_fills ob incoming)"
    and v: "trade_view t = (oID (obStore ob x), oID incoming, oPrice (obStore ob x), f)"
    unfolding market_trade_list [OF r] by auto
  have bk: "book_ok ob" using r by (simp add: market_ready_def)
  note f = market_fills_refs [OF r xf]
  have "tPrice t = oPrice (obStore ob x)" "tQuantity t = f" using v by (simp_all add: trade_view_def)
  then show ?thesis using f accepted_price [OF bk conjunct1 [OF f]] by simp
qed



text \<open>The incoming order's own event closes the batch \<^verbatim>\<open>MatchMarket\<close> publishes, and tells how it ended:
  filled when nothing remains, cancelled when the sweep stopped at a price it does not accept, and
  still partial when the book ran out of orders.\<close>

theorem MatchMarket_final_event:
  assumes r: "market_ready ob incoming" and ne: "sLevels (opposite (is_buy incoming) ob) \<noteq> []"
    and some: "market_queue ob incoming \<noteq> [] \<or> price_stop ob incoming"
  shows "\<exists>evs ev. order_events_of (snd (snd (MatchMarket e n ob incoming))) = evs @ [ev] \<and>
     eID ev = oID incoming \<and> length evs = length (market_fills ob incoming) \<and>
     (hEventType (eHeader ev), eStatus ev) =
       (if sum_list (map snd (market_fills ob incoming)) = Remaining incoming
        then (EventOrderFilled, kafka_StatusFilled)
        else if price_stop ob incoming then (EventOrderCanceled, kafka_StatusCancelled)
        else (EventOrderPartial, kafka_StatusPartial))"
proof -
  let ?fills = "market_fills ob incoming"
  obtain c c0 ob1 where m: "MatchMarket e n ob incoming = (None, ob1, market_publish incoming c)"
    and af: "after_fills ?fills (market_start e n ob incoming) c0"
    and c: "c = (if \<not> mcFull c0 \<and> price_stop ob incoming
           then c0\<lparr>mcEvent := ChangeStatusEvent EventOrderCanceled kafka_StatusCancelled (mcEvent c0),
                   mcCancelled := True\<rparr> else c0)" and nc: "\<not> mcCancelled c0"
    using MatchMarket_run [OF r ne] by metis
  have len: "length (mcRestingEvents c0) = length ?fills" and id: "eID (mcEvent c0) = oID incoming"
    and full: "mcFull c0 = (sum_list (map snd ?fills) = Remaining incoming)"
    and st: "ev_state (mcEvent c0) = (if mcFull c0 then (EventOrderFilled, kafka_StatusFilled)
         else (EventOrderPartial, kafka_StatusPartial))"
    using af r by (auto simp: after_fills_def market_ready_def)
  have rs: "mcRestingEvents c = mcRestingEvents c0" by (simp add: c)
  have pub: "mcFull c \<or> mcCancelled c \<or> 0 < length (mcRestingEvents c)"
  proof (cases "market_queue ob incoming")
    case Nil
    with some have "price_stop ob incoming" by simp
    then show ?thesis by (simp add: c)
  next
    case (Cons x xs)
    then have "?fills \<noteq> []" using r by (simp add: market_fills_def market_ready_def)
    then show ?thesis unfolding rs len by simp
  qed
  then have "order_events_of (market_publish incoming c) = mcRestingEvents c0 @ [mcEvent c]"
    by (simp add: market_publish_def rs)
  moreover have "eID (mcEvent c) = oID incoming" by (simp add: c id)
  moreover have "ev_state (mcEvent c) = (if mcFull c0 then (EventOrderFilled, kafka_StatusFilled)
      else if price_stop ob incoming then (EventOrderCanceled, kafka_StatusCancelled)
      else (EventOrderPartial, kafka_StatusPartial))" by (simp add: c st)
  ultimately show ?thesis using m len full by (simp add: ev_state_def)
qed

theorem MatchMarket_final_event_witness:
  "\<exists>evs ev. order_events_of (snd (snd (MatchMarket sample_env 0 sample_book (sample_buy ''erin'' 11 9))))
       = evs @ [ev] \<and> eID ev = ''o9'' \<and> length evs = 2 \<and>
     (hEventType (eHeader ev), eStatus ev) = (EventOrderCanceled, kafka_StatusCancelled)"
proof -
  let ?i = "sample_buy ''erin'' 11 9"
  have some: "market_queue sample_book ?i \<noteq> [] \<or> price_stop sample_book ?i"
    and v: "oID ?i = ''o9''" "length (market_fills sample_book ?i) = 2"
      "(sum_list (map snd (market_fills sample_book ?i)) = Remaining ?i) = False"
      "price_stop sample_book ?i = True" by code_simp+
  from MatchMarket_final_event [OF sample_market_ready(1,4) some, of sample_env 0]
  show ?thesis unfolding v if_True if_False .
qed

text \<open>Every order event \<^verbatim>\<open>MatchMarket\<close> publishes is balanced: filled plus remaining is the ordered
  quantity, and neither is negative.\<close>

theorem MatchMarket_events_balanced:
  assumes "book_ok ob" and "order_ok incoming"
  shows "\<forall>ev \<in> set (order_events_of (snd (snd (MatchMarket e n ob incoming)))). event_balanced ev"
  using assms by (rule market_events_balanced)

theorem MatchMarket_events_balanced_witness:
  "list_all event_balanced (order_events_of (snd (snd (MatchMarket sample_env 0 sample_book (sample_sell ''erin'' 8 3)))))"
  unfolding list_all_iff by (rule MatchMarket_events_balanced [OF sample_ok(1,3)])

text \<open>A market buy trades with the buyer's own resting order when it comes first in the queue: the
  inner loop compares order IDs and not users.\<close>

theorem MatchMarket_buy_self_trade:
  assumes r: "market_ready ob incoming" and buy: "oSide incoming = SideBuy"
    and own: "market_queue ob incoming = x # xs" "oUserID (obStore ob x) = oUserID incoming"
  shows "\<exists>t \<in> set (trades_of (snd (snd (MatchMarket e n ob incoming)))).
     tMakerOrderID t = oID (obStore ob x) \<and> tTakerOrderID t = oID incoming \<and> 0 < tQuantity t"
proof -
  have pos: "0 < Remaining incoming" "0 < Remaining (obStore ob x)"
    using r own(1) by (auto simp: market_ready_def no_skip_def)
  then obtain f fs where f: "market_fills ob incoming = (x, f) # fs" "0 < f"
    by (auto simp: market_fills_def own(1) min_def)
  have "(oID (obStore ob x), oID incoming, oPrice (obStore ob x), f) \<in>
      set (map trade_view (trades_of (snd (snd (MatchMarket e n ob incoming)))))"
    unfolding market_trade_list [OF r] f(1) by simp
  then show ?thesis using f(2) by (auto simp: trade_view_def)
qed

theorem MatchMarket_buy_self_trade_witness:
  "\<exists>t \<in> set (trades_of (snd (snd (MatchMarket sample_env 0 sample_book (sample_buy ''alice'' 11 9))))).
     tMakerOrderID t = ''o1'' \<and> tTakerOrderID t = ''o9'' \<and> 0 < tQuantity t"
proof -
  let ?i = "sample_buy ''alice'' 11 9"
  have b: "oSide ?i = SideBuy" and q: "market_queue sample_book ?i = 1 # [2]"
    and u: "oUserID (obStore sample_book 1) = oUserID ?i"
    and v: "oID (obStore sample_book 1) = ''o1''" "oID ?i = ''o9''" by code_simp+
  from MatchMarket_buy_self_trade [OF sample_market_ready(3) b q u, of sample_env 0]
  show ?thesis unfolding v .
qed

end
