(* ===== verification/Orderbook_Cancel.thy ===== *)
theory Orderbook_Cancel
  imports Orderbook_Market
begin

text \<open>
  \<^verbatim>\<open>Orderbook.Cancel\<close>, \<^verbatim>\<open>RemoveOrderByOrderID\<close> and \<^verbatim>\<open>OrderExist\<close>. The removal works through the pointer
  that \<^verbatim>\<open>GetLevel\<close> returns, so the level in the tree changes; empty levels are dropped afterwards. The
  repository that \<^verbatim>\<open>Cancel\<close> writes to is a parameter, the update's error, if any; it may be nil (\<open>None\<close>),
  and calling it then panics (the result \<open>None\<close>).
\<close>

definition remove_on_side :: "'d::linordered_idom store \<Rightarrow> string \<Rightarrow> 'd \<Rightarrow> 'd side \<Rightarrow> 'd side" where
  "remove_on_side st orderID price s =
     (let s1 = (case GetLevel price s of
                  Some pl \<Rightarrow>
                    (case RemoveOrderInPriceLevelBasedOnOrderID st orderID pl of
                       Inr pl' \<Rightarrow> s\<lparr>sLevels := bt_update (side_less (sIsAsk s)) pl (\<lambda>_. pl') (sLevels s)\<rparr>
                     | Inl _ \<Rightarrow> s)
                | None \<Rightarrow> s)
      in RemoveEmptyLevel s1)"

text \<open>The local \<^verbatim>\<open>removed\<close> starts out false and no branch sets it.\<close>

definition RemoveOrderByOrderID ::
  "string \<Rightarrow> string \<Rightarrow> 'd::linordered_idom \<Rightarrow> 'd book \<Rightarrow> bool \<times> 'd book" where
  "RemoveOrderByOrderID side0 orderID orderPrice ob =
     (let removed = False
      in if side0 = SideBuy
         then (removed, ob\<lparr>obBids := remove_on_side (obStore ob) orderID orderPrice (obBids ob)\<rparr>)
         else (removed, ob\<lparr>obAsks := remove_on_side (obStore ob) orderID orderPrice (obAsks ob)\<rparr>))"

definition OrderExist :: "string \<Rightarrow> string \<Rightarrow> 'd book \<Rightarrow> bool" where
  "OrderExist side0 orderID ob =
     (if side0 = SideBuy then list_ex (OrderExistByOrderID (obStore ob) orderID) (sLevels (obBids ob))
      else list_ex (OrderExistByOrderID (obStore ob) orderID) (sLevels (obAsks ob)))"

definition ent_status_cancelled :: string where
  [simp]: "ent_status_cancelled = ''cancelled''"

definition Cancel ::
  "(string \<Rightarrow> string \<Rightarrow> 'd \<Rightarrow> engine_error option) option \<Rightarrow> 'd::linordered_idom order \<Rightarrow> 'd book \<Rightarrow>
   (engine_error option \<times> 'd book \<times> 'd effect list) option" where
  "Cancel orderRepository incoming ob =
     (case RemoveOrderByOrderID (oSide incoming) (oID incoming) (oPrice incoming) ob of
        (removed, ob') \<Rightarrow>
          if \<not> removed then Some (Some ErrOrderNotFoundInOrderbook, ob', [])
          else case orderRepository of
            None \<Rightarrow> None
          | Some updateOrderStatus \<Rightarrow>
              (case updateOrderStatus (oID incoming) ent_status_cancelled (oFilled incoming) of
                 Some err \<Rightarrow> Some (Some err, ob', [])
               | None \<Rightarrow> Some (None, ob', [MetricAdd OrdersCancelledTotal [oPair incoming] 1])))"

subsection \<open>Lemmas\<close>

lemma GetLevel_SomeD:
  "GetLevel p s = Some pl \<Longrightarrow> pl \<in> set (sLevels s) \<and> lvPrice pl = p \<and> queue_at s p = lvOrders pl"
  by (auto simp: GetLevel_def queue_at_def dest!: side_order.get_Some)

lemma bt_update_shrunk:
  assumes "sorted_wrt (side_less a) ls" and "pl \<in> set ls" and "shrunk pl pl'"
  shows "list_all2 shrunk ls (bt_update (side_less a) pl (\<lambda>_. pl') ls)"
proof -
  have "shrunk x (if lvPrice pl = lvPrice x then pl' else x)" if "x \<in> set ls" for x
    using sorted_prices_distinct [OF assms(1) that assms(2)] assms(3) by auto
  then show ?thesis by (simp add: bt_update_def list_all2_map2 list.rel_refl_strong)
qed

lemma remove_on_side_ok:
  assumes "side_wf st n s"
  shows "side_ok st n (remove_on_side st i p s) \<and> sIsAsk (remove_on_side st i p s) = sIsAsk s \<and>
     set (side_refs (remove_on_side st i p s)) \<subseteq> set (side_refs s)"
proof -
  have srt: "sorted_wrt (side_less (sIsAsk s)) (sLevels s)" using assms by (simp add: side_wf_def)
  have keep: "side_ok st n (RemoveEmptyLevel s) \<and> sIsAsk (RemoveEmptyLevel s) = sIsAsk s \<and>
      set (side_refs (RemoveEmptyLevel s)) \<subseteq> set (side_refs s)"
    using RemoveEmptyLevel_ok [OF assms] RemoveEmptyLevel_refs [OF srt] by simp
  show ?thesis
  proof (cases "GetLevel p s")
    case None
    then show ?thesis using keep by (simp add: remove_on_side_def)
  next
    case (Some pl)
    show ?thesis
    proof (cases "RemoveOrderInPriceLevelBasedOnOrderID st i pl")
      case (Inl err)
      then show ?thesis using keep by (simp add: remove_on_side_def Some)
    next
      case (Inr pl')
      let ?ls = "bt_update (side_less (sIsAsk s)) pl (\<lambda>_. pl') (sLevels s)"
      have "shrunk pl pl'"
        using RemoveOrder_InrD [OF Inr] subseq_remove_nth by (auto simp: shrunk_def)
      then have sh: "list_all2 shrunk (sLevels s) ?ls"
        using bt_update_shrunk [OF srt] GetLevel_SomeD [OF Some] by blast
      have wf: "side_wf st n (s\<lparr>sLevels := ?ls\<rparr>)" by (rule shrunk_wf [OF assms sh])
      then have srt': "sorted_wrt (side_less (sIsAsk (s\<lparr>sLevels := ?ls\<rparr>))) (sLevels (s\<lparr>sLevels := ?ls\<rparr>))"
        by (simp add: side_wf_def)
      have "set (side_refs (s\<lparr>sLevels := ?ls\<rparr>)) \<subseteq> set (side_refs s)"
        using subseq_set [OF shrunk_refs [OF sh]] by (simp add: side_refs_def)
      then show ?thesis
        using RemoveEmptyLevel_ok [OF wf] RemoveEmptyLevel_refs [OF srt']
        by (simp add: remove_on_side_def Some Inr)
    qed
  qed
qed

lemma RemoveOrder_opposite:
  "snd (RemoveOrderByOrderID s0 i p ob) =
   set_opposite (s0 \<noteq> SideBuy) (remove_on_side (obStore ob) i p (opposite (s0 \<noteq> SideBuy) ob)) ob"
  by (simp add: RemoveOrderByOrderID_def set_opposite_def opposite_def)

text \<open>The queue the removal leaves at each price.\<close>

lemma queue_filter_nonempty:
  "queue_at (s\<lparr>sLevels := filter (\<lambda>p. lvOrders p \<noteq> []) ls\<rparr>) p = queue_at (s\<lparr>sLevels := ls\<rparr>) p"
  if "sorted_wrt (side_less a) ls"
  using that
proof (induction ls)
  case (Cons x xs)
  have "\<forall>y \<in> set xs. lvPrice y \<noteq> lvPrice x" using Cons.prems by (auto simp: side_less_def split: if_splits)
  then have "queue_at (s\<lparr>sLevels := xs\<rparr>) (lvPrice x) = []" by (rule queue_absent)
  with Cons show ?case by (auto simp: queue_Cons)
qed simp

lemma RemoveEmptyLevel_queue:
  assumes "sorted_wrt (side_less (sIsAsk s)) (sLevels s)"
  shows "queue_at (RemoveEmptyLevel s) = queue_at s"
proof
  fix p
  have "queue_at (s\<lparr>sLevels := filter (\<lambda>p. lvOrders p \<noteq> []) (sLevels s)\<rparr>) p
      = queue_at (s\<lparr>sLevels := sLevels s\<rparr>) p" by (rule queue_filter_nonempty [OF assms])
  then show "queue_at (RemoveEmptyLevel s) p = queue_at s p" by (simp add: RemoveEmptyLevel_filter [OF assms])
qed

lemma queue_replace:
  assumes "\<And>x. x \<in> set ls \<Longrightarrow> lvPrice x = lvPrice k \<Longrightarrow> x = k" and "k \<in> set ls" and "lvPrice k' = lvPrice k"
  shows "queue_at (s\<lparr>sLevels := bt_update (side_less a) k (\<lambda>_. k') ls\<rparr>) =
    (queue_at (s\<lparr>sLevels := ls\<rparr>))(lvPrice k := lvOrders k')"
proof -
  have absent: "queue_at (s\<lparr>sLevels := bt_update (side_less a) k (\<lambda>_. k') xs\<rparr>) q =
      (if q = lvPrice k \<and> (\<exists>x \<in> set xs. lvPrice x = q) then lvOrders k' else queue_at (s\<lparr>sLevels := xs\<rparr>) q)"
    for q xs
  proof (induction xs)
    case (Cons x xs)
    have "bt_update (side_less a) k (\<lambda>_. k') (x # xs) =
       (if lvPrice k = lvPrice x then k' else x) # bt_update (side_less a) k (\<lambda>_. k') xs"
      by (simp add: bt_update_def)
    with Cons assms(3) show ?case by (auto simp: queue_Cons)
  qed (simp add: bt_update_def)
  then show ?thesis using assms(2) by (auto simp: fun_eq_iff)
qed

lemma remove_nth_filter:
  assumes "distinct (map f xs)" and "k < length xs" and "f (xs ! k) = i"
  shows "remove_nth k xs = filter (\<lambda>x. f x \<noteq> i) xs"
proof -
  obtain a b x where xs: "xs = a @ x # b" and k: "length a = k"
    using id_take_nth_drop [OF assms(2)] assms(2) by (metis length_take min.absorb4)
  have "x = xs ! k" using xs k by auto
  then have "f x = i" using assms(3) by simp
  moreover have "f y \<noteq> f x" if "y \<in> set a \<union> set b" for y
  proof -
    have "f x \<notin> f ` (set a \<union> set b)" using assms(1) by (auto simp: xs)
    moreover have "f y \<in> f ` (set a \<union> set b)" using that by (rule imageI)
    ultimately show ?thesis by metis
  qed
  then have "\<forall>y \<in> set a \<union> set b. f y \<noteq> i" using \<open>f x = i\<close> by simp
  ultimately show ?thesis by (simp add: xs remove_nth_def filter_id_conv flip: k)
qed

lemma remove_on_side_queue:
  assumes wf: "side_wf st n s" and d: "distinct (map (\<lambda>r. oID (st r)) (queue_at s p))"
  shows "queue_at (remove_on_side st i p s) =
    (queue_at s)(p := filter (\<lambda>r. oID (st r) \<noteq> i) (queue_at s p))"
proof -
  have srt: "sorted_wrt (side_less (sIsAsk s)) (sLevels s)" using wf by (simp add: side_wf_def)
  note rq = RemoveEmptyLevel_queue [OF srt]
  show ?thesis
  proof (cases "GetLevel p s")
    case None
    then have "queue_at s p = []" by (simp add: queue_at_def)
    then show ?thesis using rq by (auto simp: remove_on_side_def None fun_eq_iff)
  next
    case (Some pl)
    note g = GetLevel_SomeD [OF Some]
    show ?thesis
    proof (cases "RemoveOrderInPriceLevelBasedOnOrderID st i pl")
      case (Inl err)
      then have "\<not> OrderExistByOrderID st i pl" using RemoveOrder_Inl_iff [of st i pl err] by simp
      then have "\<forall>r \<in> set (lvOrders pl). oID (st r) \<noteq> i"
        by (simp add: OrderExistByOrderID_def list_ex_iff)
      then have "filter (\<lambda>r. oID (st r) \<noteq> i) (lvOrders pl) = lvOrders pl" by (simp add: filter_id_conv)
      then have "filter (\<lambda>r. oID (st r) \<noteq> i) (queue_at s p) = queue_at s p"
        using conjunct2 [OF conjunct2 [OF g]] by metis
      then show ?thesis using rq by (simp add: remove_on_side_def Some Inl)
    next
      case (Inr pl')
      let ?ls = "bt_update (side_less (sIsAsk s)) pl (\<lambda>_. pl') (sLevels s)"
      obtain k where k: "k < length (lvOrders pl)" "oID (st (lvOrders pl ! k)) = i"
        "lvOrders pl' = remove_nth k (lvOrders pl)" "lvPrice pl' = lvPrice pl"
        using RemoveOrder_InrD [OF Inr] by blast
      then have os: "lvOrders pl' = filter (\<lambda>r. oID (st r) \<noteq> i) (queue_at s p)"
        using remove_nth_filter [of "\<lambda>r. oID (st r)" "lvOrders pl"] d g by simp
      have "shrunk pl pl'" using k subseq_remove_nth by (auto simp: shrunk_def)
      then have "side_wf st n (s\<lparr>sLevels := ?ls\<rparr>)"
        by (intro shrunk_wf [OF wf] bt_update_shrunk [OF srt]) (use g in auto)
      then have "queue_at (RemoveEmptyLevel (s\<lparr>sLevels := ?ls\<rparr>)) = queue_at (s\<lparr>sLevels := ?ls\<rparr>)"
        by (intro RemoveEmptyLevel_queue) (simp add: side_wf_def)
      moreover have "queue_at (s\<lparr>sLevels := ?ls\<rparr>) = (queue_at (s\<lparr>sLevels := sLevels s\<rparr>))(lvPrice pl := lvOrders pl')"
        by (rule queue_replace) (use sorted_prices_distinct [OF srt] g k in auto)
      ultimately show ?thesis using g os by (simp add: remove_on_side_def Some Inr)
    qed
  qed
qed

lemma OrderExist_iff:
  "OrderExist s0 i ob = (\<exists>r \<in> set (side_refs (opposite (s0 \<noteq> SideBuy) ob)). oID (obStore ob r) = i)"
  by (auto simp: OrderExist_def OrderExistByOrderID_def list_ex_iff side_refs_set opposite_def)

lemma Cancel_result:
  "Cancel repo incoming ob =
     Some (Some ErrOrderNotFoundInOrderbook,
       snd (RemoveOrderByOrderID (oSide incoming) (oID incoming) (oPrice incoming) ob), [])"
  by (simp add: Cancel_def RemoveOrderByOrderID_def)

lemma remove_book_ok [inv_intros]:
  assumes "book_ok ob"
  shows "book_ok (snd (RemoveOrderByOrderID s0 i p ob))"
proof -
  note o = book_ok_opposite [OF assms, of "s0 \<noteq> SideBuy"]
  have "side_wf (obStore ob) (obNext ob) (opposite (s0 \<noteq> SideBuy) ob)" using o by (simp add: side_ok_def)
  from remove_on_side_ok [OF this, of i p] o assms show ?thesis
    unfolding RemoveOrder_opposite by (intro book_ok_set_opposite) auto
qed

subsection \<open>Properties\<close>

text \<open>Removing an order by its ID keeps the order book well formed on either side, whether the order
  was found or not.\<close>

theorem RemoveOrder_invariant:
  assumes "book_ok ob"
  shows "book_ok (snd (RemoveOrderByOrderID s0 i p ob))"
  using assms by (rule remove_book_ok)

theorem RemoveOrder_invariant_witness:
  "book_ok (snd (RemoveOrderByOrderID ''sell'' ''o1'' 10 sample_book))"
  by (rule RemoveOrder_invariant [OF sample_ok(1)])

text \<open>C37: Removing an order by its ID and price takes exactly the order with that ID out of that price's
  queue and keeps the others in their sequence, but the result always says that nothing was removed.\<close>

theorem RemoveOrder_functional:
  assumes "book_ok ob"
    and "distinct (map (\<lambda>r. oID (obStore ob r)) (queue_at (opposite (s0 \<noteq> SideBuy) ob) p))"
  shows "queue_at (opposite (s0 \<noteq> SideBuy) (snd (RemoveOrderByOrderID s0 i p ob))) =
      (queue_at (opposite (s0 \<noteq> SideBuy) ob))
        (p := filter (\<lambda>r. oID (obStore ob r) \<noteq> i) (queue_at (opposite (s0 \<noteq> SideBuy) ob) p)) \<and>
    \<not> fst (RemoveOrderByOrderID s0 i p ob)"
proof
  note o = book_ok_opposite [OF assms(1), of "s0 \<noteq> SideBuy"]
  have wf: "side_wf (obStore ob) (obNext ob) (opposite (s0 \<noteq> SideBuy) ob)" using o by (simp add: side_ok_def)
  show "queue_at (opposite (s0 \<noteq> SideBuy) (snd (RemoveOrderByOrderID s0 i p ob))) =
      (queue_at (opposite (s0 \<noteq> SideBuy) ob))
        (p := filter (\<lambda>r. oID (obStore ob r) \<noteq> i) (queue_at (opposite (s0 \<noteq> SideBuy) ob) p))"
    unfolding RemoveOrder_opposite book_sides_simps by (rule remove_on_side_queue [OF wf assms(2)])
  show "\<not> fst (RemoveOrderByOrderID s0 i p ob)" by (simp add: RemoveOrderByOrderID_def)
qed

theorem RemoveOrder_functional_witness:
  "queue_at (obAsks (snd (RemoveOrderByOrderID ''sell'' ''o1'' 10 sample_book))) 10 = [2] \<and>
   \<not> fst (RemoveOrderByOrderID ''sell'' ''o1'' 10 sample_book)"
proof -
  have d: "distinct (map (\<lambda>r. oID (obStore sample_book r)) (queue_at (opposite (''sell'' \<noteq> SideBuy) sample_book) 10))"
    and b: "(''sell'' \<noteq> SideBuy) = True"
    and q: "filter (\<lambda>r. oID (obStore sample_book r) \<noteq> ''o1'') (queue_at (obAsks sample_book) 10) = [2]"
    by code_simp+
  from RemoveOrder_functional [OF sample_ok(1) d, of "''o1''"]
  show ?thesis unfolding b by (simp add: q opposite_def)
qed

text \<open>\<^verbatim>\<open>Cancel\<close> answers that the order is not in the book for every order, also for one it has just
  removed; the repository is never told, so the call returns also with a nil repository, and the metric
  never counts.\<close>

theorem Cancel_always_not_found:
  "Cancel repo incoming ob =
     Some (Some ErrOrderNotFoundInOrderbook,
       snd (RemoveOrderByOrderID (oSide incoming) (oID incoming) (oPrice incoming) ob), [])"
  by (rule Cancel_result)

end
