(* ===== verification/Book_Reaper.thy ===== *)
theory Book_Reaper
  imports Orderbook_Cancel
begin

text \<open>
  \<^verbatim>\<open>internal/engine/expiry.go\<close>: the heap of expiry entries. \<^verbatim>\<open>container/heap\<close> is the standard library's:
  \<^verbatim>\<open>heap.Push\<close> calls the type's \<^verbatim>\<open>Push\<close> and sifts up, \<^verbatim>\<open>heap.Pop\<close> swaps the ends, sifts down and calls the
  type's \<^verbatim>\<open>Pop\<close>. The type's methods call \<^verbatim>\<open>heap.Push\<close> and \<^verbatim>\<open>heap.Pop\<close> again; a call that does not
  return, or panics, is \<open>None\<close>.
\<close>

record 'd expiryEntity =
  xExpiresAt :: time
  xPair :: string
  xOrderID :: string
  xPrice :: 'd
  xSide :: string
  xIndex :: int

definition NewExpiryEntity ::
  "time \<Rightarrow> string \<Rightarrow> string \<Rightarrow> 'd \<Rightarrow> string \<Rightarrow> int \<Rightarrow> 'd expiryEntity" where
  "NewExpiryEntity expiresAt pair orderID price side index =
     \<lparr> xExpiresAt = expiresAt, xPair = pair, xOrderID = orderID, xPrice = price, xSide = side,
       xIndex = index \<rparr>"

definition isExpired :: "time \<Rightarrow> 'd expiryEntity \<Rightarrow> bool" where
  "isExpired now x = (xExpiresAt x < now)"

definition br_Len :: "'d expiryEntity list \<Rightarrow> nat" where
  "br_Len br = length br"

definition br_Less :: "'d expiryEntity list \<Rightarrow> nat \<Rightarrow> nat \<Rightarrow> bool" where
  "br_Less br i j = (xExpiresAt (br ! i) < xExpiresAt (br ! j))"

definition br_Swap :: "nat \<Rightarrow> nat \<Rightarrow> 'd expiryEntity list \<Rightarrow> 'd expiryEntity list" where
  "br_Swap i j br =
     (let br1 = br[i := br ! j, j := br ! i];
          br2 = br1[i := (br1 ! i)\<lparr>xIndex := int i\<rparr>]
      in br2[j := (br2 ! j)\<lparr>xIndex := int j\<rparr>])"

text \<open>The standard library's sift up and sift down.\<close>

function heap_up :: "nat \<Rightarrow> 'd expiryEntity list \<Rightarrow> 'd expiryEntity list" where
  "heap_up j br =
     (let i = (j - 1) div 2
      in if i = j \<or> \<not> br_Less br j i then br else heap_up i (br_Swap i j br))"
  by pat_completeness auto
termination by (relation "measure fst") auto

function heap_down :: "nat \<Rightarrow> nat \<Rightarrow> 'd expiryEntity list \<Rightarrow> 'd expiryEntity list" where
  "heap_down i n br =
     (let j1 = 2 * i + 1
      in if n \<le> j1 then br
         else (let j = (if j1 + 1 < n \<and> br_Less br (j1 + 1) j1 then j1 + 1 else j1)
               in if \<not> br_Less br j i then br else heap_down j n (br_Swap i j br)))"
  by pat_completeness auto
termination by (relation "measure (\<lambda>(i, n, br). n - i)") (auto split: if_splits)

declare heap_up.simps [simp del] heap_down.simps [simp del]

text \<open>\<^verbatim>\<open>BookReaper.Push\<close> with \<^verbatim>\<open>heap.Push\<close> written out, and \<^verbatim>\<open>BookReaper.Pop\<close> with \<^verbatim>\<open>heap.Pop\<close>.\<close>

partial_function (option) br_Push ::
  "'d expiryEntity \<Rightarrow> 'd expiryEntity list \<Rightarrow> 'd expiryEntity list option" where
  "br_Push x br = Option.bind (br_Push x br) (\<lambda>br'. Some (heap_up (br_Len br' - 1) br'))"

definition heap_Push :: "'d expiryEntity \<Rightarrow> 'd expiryEntity list \<Rightarrow> 'd expiryEntity list option" where
  "heap_Push x br = Option.bind (br_Push x br) (\<lambda>br'. Some (heap_up (br_Len br' - 1) br'))"

text \<open>Swapping in an empty heap indexes out of range.\<close>

partial_function (option) br_Pop ::
  "'d expiryEntity list \<Rightarrow> ('d expiryEntity \<times> 'd expiryEntity list) option" where
  "br_Pop br =
     (if br = [] then None
      else br_Pop (heap_down 0 (br_Len br - 1) (br_Swap 0 (br_Len br - 1) br)))"

definition heap_Pop :: "'d expiryEntity list \<Rightarrow> ('d expiryEntity \<times> 'd expiryEntity list) option" where
  "heap_Pop br =
     (if br = [] then None
      else br_Pop (heap_down 0 (br_Len br - 1) (br_Swap 0 (br_Len br - 1) br)))"

lemma br_Push_None: "br_Push x br = None"
proof -
  have "False" if "(case (x, br) of (x, br) \<Rightarrow> br_Push x br) = Some y" for y
    using br_Push.raw_induct [of "\<lambda>_ _ _. False", OF _ that] by (auto simp: bind_eq_Some_conv)
  then show ?thesis by (cases "br_Push x br") auto
qed

lemma br_Pop_None: "br_Pop br = None"
proof -
  have "False" if "br_Pop br = Some y" for y
    by (rule br_Pop.raw_induct [of "\<lambda>_ _. False", OF _ that]) (auto split: if_splits)
  then show ?thesis by (cases "br_Pop br") auto
qed

lemma heap_calls_None [simp]: "heap_Push x br = None" "heap_Pop br = None"
  by (simp_all add: heap_Push_def heap_Pop_def br_Push_None br_Pop_None)

text \<open>Neither \<^verbatim>\<open>heap.Push\<close> nor \<^verbatim>\<open>heap.Pop\<close> ever returns on a \<^verbatim>\<open>BookReaper\<close>: the type's methods call
  the library functions that call them.\<close>

theorem reaper_heap_diverges:
  "heap_Push x br = None \<and> heap_Pop br = None"
  by simp

end
