(* ===== verification/Event_Producer.thy ===== *)
theory Event_Producer
  imports Orderbook_State
begin

text \<open>
  \<^verbatim>\<open>internal/adapter/messaging/kafka\<close>: order\_producer.go and trade\_producer.go. JSON encoding and
  the Kafka client are parameters: \<open>marshal\<close> gives the payload or an error, \<open>produce\<close> the error of
  \<^verbatim>\<open>ProduceSync\<close>, if any. A call returns its error and the records handed to the client; \<open>None\<close> is a panic.
  An event is a pointer in the code; it is encoded before the call returns, so the record holds its value
  at that moment.
\<close>

record 'b kafka_record =
  krTopic :: string
  krKey :: string
  krValue :: 'b
  krEventType :: string
  krEventID :: string
  krVersion :: string

type_synonym 'b publish_result = "(kafka_error option \<times> 'b kafka_record list) option"

definition publishOrderEvent ::
  "('d order_event \<Rightarrow> string + 'b) \<Rightarrow> ('b kafka_record \<Rightarrow> string option) \<Rightarrow> 'd order_event
   \<Rightarrow> 'b publish_result" where
  "publishOrderEvent marshal produce event =
     (case marshal event of
        Inl err \<Rightarrow> Some (Some (MarshalError err), [])
      | Inr payload \<Rightarrow>
          (let topic = CoinhubOrderEventDispatcher (hEventType (eHeader event))
           in case GetQuoteAsset event of
             None \<Rightarrow> None
           | Some quote \<Rightarrow>
               (let record0 = \<lparr> krTopic = topic, krKey = GetBaseAsset event @ ''-'' @ quote,
                      krValue = payload, krEventType = hEventType (eHeader event),
                      krEventID = hEventID (eHeader event), krVersion = hVersion (eHeader event) \<rparr>
                in case produce record0 of
                  Some err \<Rightarrow> Some (Some (ProduceError err), [record0])
                | None \<Rightarrow> Some (None, [record0]))))"

definition prod_PublishOrderEvent ::
  "('d order_event \<Rightarrow> string + 'b) \<Rightarrow> ('b kafka_record \<Rightarrow> string option) \<Rightarrow> 'd order_event
   \<Rightarrow> 'b publish_result" where
  "prod_PublishOrderEvent marshal produce event =
     (case publishOrderEvent marshal produce event of
        None \<Rightarrow> None
      | Some (Some err, rs) \<Rightarrow> Some (Some err, rs)
      | Some (None, rs) \<Rightarrow> Some (None, rs))"

text \<open>A batch is published one by one and stops at the first error.\<close>

fun publish_all :: "('e \<Rightarrow> 'b publish_result) \<Rightarrow> 'e list \<Rightarrow> 'b publish_result" where
  "publish_all pub [] = Some (None, [])"
| "publish_all pub (ev # evs) =
     (case pub ev of
        None \<Rightarrow> None
      | Some (Some err, rs) \<Rightarrow> Some (Some err, rs)
      | Some (None, rs) \<Rightarrow>
          (case publish_all pub evs of
             None \<Rightarrow> None
           | Some (err, rs') \<Rightarrow> Some (err, rs @ rs')))"

definition prod_PublishOrderEventBatch ::
  "('d order_event \<Rightarrow> string + 'b) \<Rightarrow> ('b kafka_record \<Rightarrow> string option) \<Rightarrow> 'd order_event list
   \<Rightarrow> 'b publish_result" where
  "prod_PublishOrderEventBatch marshal produce events =
     publish_all (prod_PublishOrderEvent marshal produce) events"

definition publishTradeStatusEvent ::
  "('d trade_event \<Rightarrow> string + 'b) \<Rightarrow> ('b kafka_record \<Rightarrow> string option) \<Rightarrow> 'd trade_event
   \<Rightarrow> 'b publish_result" where
  "publishTradeStatusEvent marshal produce event =
     (case marshal event of
        Inl err \<Rightarrow> Some (Some (MarshalError err), [])
      | Inr payload \<Rightarrow>
          (let topic = CoinhubTradeEventDispatcher (hEventType (tHeader event));
               record0 = \<lparr> krTopic = topic, krKey = tPair event, krValue = payload,
                     krEventType = hEventType (tHeader event),
                     krEventID = hEventID (tHeader event), krVersion = hVersion (tHeader event) \<rparr>
           in case produce record0 of
             Some err \<Rightarrow> Some (Some (ProduceError err), [record0])
           | None \<Rightarrow> Some (None, [record0])))"

definition prod_PublishTradeStatusEvent ::
  "('d trade_event \<Rightarrow> string + 'b) \<Rightarrow> ('b kafka_record \<Rightarrow> string option) \<Rightarrow> 'd trade_event
   \<Rightarrow> 'b publish_result" where
  "prod_PublishTradeStatusEvent marshal produce event =
     (case publishTradeStatusEvent marshal produce event of
        None \<Rightarrow> None
      | Some (Some err, rs) \<Rightarrow> Some (Some err, rs)
      | Some (None, rs) \<Rightarrow> Some (None, rs))"

definition prod_PublishTradeStatusEventBatch ::
  "('d trade_event \<Rightarrow> string + 'b) \<Rightarrow> ('b kafka_record \<Rightarrow> string option) \<Rightarrow> 'd trade_event list
   \<Rightarrow> 'b publish_result" where
  "prod_PublishTradeStatusEventBatch marshal produce events =
     publish_all (publishTradeStatusEvent marshal produce) events"

subsection \<open>The contract of a publisher\<close>

text \<open>
  What the callers of \<^verbatim>\<open>EventPublisher\<close> rely on: publishing one event hands over at most one record, and
  exactly one when it reports success.
\<close>

locale event_publisher =
  fixes pub :: "'e \<Rightarrow> 'b publish_result" and rec_of :: "'e \<Rightarrow> 'b kafka_record \<Rightarrow> bool"
  assumes pub_success: "pub ev = Some (None, rs) \<Longrightarrow> \<exists>r. rs = [r] \<and> rec_of ev r"
    and pub_failure: "pub ev = Some (Some err, rs) \<Longrightarrow> rs = [] \<or> (\<exists>r. rs = [r] \<and> rec_of ev r)"
begin

text \<open>A batch that succeeds hands over one record per event, in the batch's sequence.\<close>

lemma batch_success:
  "publish_all pub evs = Some (None, rs) \<Longrightarrow> list_all2 rec_of evs rs"
proof (induction evs arbitrary: rs)
  case (Cons ev evs)
  from Cons.prems obtain r1 rs' where p: "pub ev = Some (None, r1)" "publish_all pub evs = Some (None, rs')"
    "rs = r1 @ rs'" by (auto split: option.splits)
  with Cons.IH pub_success show ?case by fastforce
qed simp

text \<open>A batch that fails hands over the records of a proper prefix, and then at most one of the next event.\<close>

lemma batch_failure:
  "publish_all pub evs = Some (Some err, rs) \<Longrightarrow>
   \<exists>k < length evs. \<exists>rs' ts. rs = rs' @ ts \<and> list_all2 rec_of (take k evs) rs' \<and>
     (ts = [] \<or> (\<exists>r. ts = [r] \<and> rec_of (evs ! k) r)) \<and> pub (evs ! k) = Some (Some err, ts)"
proof (induction evs arbitrary: rs)
  case (Cons ev evs)
  from Cons.prems consider
    (head) "pub ev = Some (Some err, rs)" |
    (tail) r1 rs' where "pub ev = Some (None, r1)" "publish_all pub evs = Some (Some err, rs')" "rs = r1 @ rs'"
    by (auto split: option.splits)
  then show ?case
  proof cases
    case head
    with pub_failure show ?thesis by (intro exI [of _ 0]) auto
  next
    case tail
    from Cons.IH [OF tail(2)] obtain k rs2 ts where k: "k < length evs" "rs' = rs2 @ ts"
      "list_all2 rec_of (take k evs) rs2" "ts = [] \<or> (\<exists>r. ts = [r] \<and> rec_of (evs ! k) r)"
      "pub (evs ! k) = Some (Some err, ts)" by blast
    moreover obtain r where "r1 = [r]" "rec_of ev r" using pub_success [OF tail(1)] by blast
    ultimately show ?thesis using tail(3)
      by (intro exI [of _ "Suc k"]) (auto intro!: exI [of _ "r # rs2"] exI [of _ ts])
  qed
qed simp

end

text \<open>What the record of an order event and of a trade event says.\<close>

definition order_record_of :: "('d order_event \<Rightarrow> string + 'b) \<Rightarrow> 'd order_event \<Rightarrow> 'b kafka_record \<Rightarrow> bool" where
  "order_record_of marshal ev r =
     (krTopic r = CoinhubOrderEventDispatcher (hEventType (eHeader ev)) \<and> marshal ev = Inr (krValue r) \<and>
      krEventID r = hEventID (eHeader ev) \<and>
      (\<exists>quote. GetQuoteAsset ev = Some quote \<and> krKey r = GetBaseAsset ev @ ''-'' @ quote))"

definition trade_record_of :: "('d trade_event \<Rightarrow> string + 'b) \<Rightarrow> 'd trade_event \<Rightarrow> 'b kafka_record \<Rightarrow> bool" where
  "trade_record_of marshal ev r =
     (krTopic r = CoinhubTradeExecutedEventTopic \<and> marshal ev = Inr (krValue r) \<and>
      krEventID r = hEventID (tHeader ev) \<and> krKey r = tPair ev)"

interpretation order_pub: event_publisher "prod_PublishOrderEvent marshal produce" "order_record_of marshal"
  for marshal :: "'d order_event \<Rightarrow> string + 'b" and produce
proof
  fix ev :: "'d order_event" and rs :: "'b kafka_record list" and err
  show "prod_PublishOrderEvent marshal produce ev = Some (None, rs) \<Longrightarrow>
      \<exists>r. rs = [r] \<and> order_record_of marshal ev r"
    by (auto simp: prod_PublishOrderEvent_def publishOrderEvent_def order_record_of_def Let_def
        split: sum.splits option.splits)
  show "prod_PublishOrderEvent marshal produce ev = Some (Some err, rs) \<Longrightarrow>
      rs = [] \<or> (\<exists>r. rs = [r] \<and> order_record_of marshal ev r)"
    by (auto simp: prod_PublishOrderEvent_def publishOrderEvent_def order_record_of_def Let_def
        split: sum.splits option.splits)
qed

interpretation trade_pub: event_publisher "publishTradeStatusEvent marshal produce" "trade_record_of marshal"
  for marshal :: "'d trade_event \<Rightarrow> string + 'b" and produce
proof
  fix ev :: "'d trade_event" and rs :: "'b kafka_record list" and err
  show "publishTradeStatusEvent marshal produce ev = Some (None, rs) \<Longrightarrow>
      \<exists>r. rs = [r] \<and> trade_record_of marshal ev r"
    by (auto simp: publishTradeStatusEvent_def trade_record_of_def CoinhubTradeEventDispatcher_def
        Let_def split: sum.splits option.splits)
  show "publishTradeStatusEvent marshal produce ev = Some (Some err, rs) \<Longrightarrow>
      rs = [] \<or> (\<exists>r. rs = [r] \<and> trade_record_of marshal ev r)"
    by (auto simp: publishTradeStatusEvent_def trade_record_of_def CoinhubTradeEventDispatcher_def
        Let_def split: sum.splits option.splits)
qed

subsection \<open>Properties\<close>

text \<open>A batch of order events that is published without error hands the broker one record per event,
  in the batch's sequence: on the topic of its type, keyed by its pair, with its encoding and its ID.\<close>

theorem PublishOrderEventBatch_success:
  assumes "prod_PublishOrderEventBatch marshal produce events = Some (None, rs)"
  shows "list_all2 (order_record_of marshal) events rs"
  using order_pub.batch_success assms unfolding prod_PublishOrderEventBatch_def by blast

definition sample_marshal :: "int order_event \<Rightarrow> string + string" where
  "sample_marshal ev = Inr (eID ev)"

definition sample_event :: "int order_event" where
  "sample_event = \<lparr> eHeader = \<lparr> hEventID = ''e1'', hEventType = ''ORDER_FILLED'', hVersion = ''v1'',
       hOccuredAt = 7 \<rparr>, eID = ''o1'', eUserID = ''alice'', ePair = ''BTC-USDT'', eType = ''limit'',
     eSide = ''buy'', eBehavior = ''GTC'', eExpiresAt = 9, ePrice = 10, eQuantity = 5, eFilled = 5,
     eStatus = ''filled'', eRemainingQty = 0 \<rparr>"

theorem PublishOrderEventBatch_success_witness:
  "\<exists>r. prod_PublishOrderEventBatch sample_marshal (\<lambda>_. None) [sample_event] = Some (None, [r]) \<and>
     list_all2 (order_record_of sample_marshal) [sample_event] [r] \<and> krTopic r = ''coinhub.order.filled''"
proof -
  obtain r where r: "prod_PublishOrderEventBatch sample_marshal (\<lambda>_. None) [sample_event] = Some (None, [r])"
    and t: "krTopic r = ''coinhub.order.filled''"
    by (simp add: prod_PublishOrderEventBatch_def prod_PublishOrderEvent_def publishOrderEvent_def
        sample_marshal_def sample_event_def GetQuoteAsset_def CoinhubOrderEventDispatcher_def
        CoinHubFilledOrderEventTopic_def)
  from PublishOrderEventBatch_success [OF r] r t show ?thesis by blast
qed

text \<open>Publishing an order event of a pair without a dash panics once it is encoded: the quote asset is
  read past the end of the split pair.\<close>

theorem publishOrderEvent_panics_without_dash:
  assumes "CHR ''-'' \<notin> set (ePair ev)" and "marshal ev = Inr payload"
  shows "publishOrderEvent marshal produce ev = None"
  using assms by (simp add: publishOrderEvent_def GetQuoteAsset_None_iff [THEN iffD2])

theorem publishOrderEvent_panics_without_dash_witness:
  "publishOrderEvent sample_marshal (\<lambda>_. None) (sample_event\<lparr>ePair := ''BTC/USDT''\<rparr>) = None"
  by (rule publishOrderEvent_panics_without_dash [where payload = "''o1''"])
     (simp_all add: sample_marshal_def sample_event_def)

end
