(* ===== verification/Order_Projection.thy ===== *)
theory Order_Projection
  imports Domain_Entities Event_Types
begin

text \<open>
  The order side of the database and the handlers that project events into it:
  \<^verbatim>\<open>adapter/repository/postgres/order_repo.go\<close> and trade\_repo.go, \<^verbatim>\<open>usecases/order_event_usecases/handlers.go\<close>,
  the handler closure of \<^verbatim>\<open>cmd/order_projection_consumer.go\<close>, and the event validators of the engine's
  helper.go. A table is the list of its rows in insertion order; the ORM calls are described by their
  documented effect on it (primary keys are unique, \<^verbatim>\<open>ON CONFLICT DO NOTHING\<close> on the event ID; rows of equal time in a sorted
  query come in insertion order). A fault of
  the database at a call is a parameter, \<open>Some\<close> of the error it returns.
\<close>

record processed_event =
  peEventID :: string
  peConsumer :: string

record 'd order_db =
  dbOrders :: "'d db_order list"
  dbTrades :: "'d db_trade list"
  dbProcessed :: "processed_event list"

datatype 'd db_event = OrderStatusEv "'d order_event" | TradeStatusEv "'d trade_event" | OtherEv

datatype handler_error =
    DBError string | DuplicateKey | RecordNotFound | EventIDRequired | MissingEventID
  | UnsupportedEventType | UnsupportedVersion string | MissingEventFields | MissingMakerUser
  | MissingTakerUser | MissingMakerOrder | MissingTakerOrder | MissingPair | BadPair
  | BadPrice | BadQuantity | TradeRejected entity_error

subsection \<open>Repositories\<close>

definition NewProcessedOrderEvent :: "string \<Rightarrow> string \<Rightarrow> processed_event" where
  "NewProcessedOrderEvent eventID consumerName = \<lparr> peEventID = eventID, peConsumer = consumerName \<rparr>"

definition CreateOrder ::
  "string option \<Rightarrow> string \<Rightarrow> time \<Rightarrow> 'd db_order \<Rightarrow> 'd order_db \<Rightarrow> handler_error + ('d db_order \<times> 'd order_db)" where
  "CreateOrder fault newID now order db =
     (let order' = ent_BeforeCreate newID now order
      in case fault of
           Some err \<Rightarrow> Inl (DBError err)
         | None \<Rightarrow> if dID order' \<in> dID ` set (dbOrders db) then Inl DuplicateKey
                   else Inr (order', db\<lparr>dbOrders := dbOrders db @ [order']\<rparr>))"

definition GetOrderByID :: "string option \<Rightarrow> string \<Rightarrow> 'd order_db \<Rightarrow> handler_error + 'd db_order" where
  "GetOrderByID fault orderId db =
     (case fault of
        Some err \<Rightarrow> Inl (DBError err)
      | None \<Rightarrow> (case find (\<lambda>d. dID d = orderId) (dbOrders db) of
                  None \<Rightarrow> Inl RecordNotFound | Some d \<Rightarrow> Inr d))"

definition UpdateOrderStatus ::
  "string option \<Rightarrow> string \<Rightarrow> string \<Rightarrow> 'd \<Rightarrow> 'd order_db \<Rightarrow> handler_error option \<times> 'd order_db" where
  "UpdateOrderStatus fault orderID status filled db =
     (case fault of
        Some err \<Rightarrow> (Some (DBError err), db)
      | None \<Rightarrow> (None, db\<lparr>dbOrders := map (\<lambda>d. if dID d = orderID
                    then d\<lparr>dStatus := status, dFilled := filled\<rparr> else d) (dbOrders db)\<rparr>))"

definition MarkEventProcessed ::
  "string option \<Rightarrow> string \<Rightarrow> string \<Rightarrow> 'd order_db \<Rightarrow> (bool \<times> handler_error option) \<times> 'd order_db" where
  "MarkEventProcessed fault consumerName eventID db =
     (if eventID = [] then ((False, Some EventIDRequired), db)
      else case fault of
        Some err \<Rightarrow> ((False, Some (DBError err)), db)
      | None \<Rightarrow>
          if eventID \<in> peEventID ` set (dbProcessed db) then ((False, None), db)
          else ((True, None),
                db\<lparr>dbProcessed := dbProcessed db @ [NewProcessedOrderEvent eventID consumerName]\<rparr>))"

definition CreateTrade :: "string option \<Rightarrow> string \<Rightarrow> 'd db_trade \<Rightarrow> 'd order_db \<Rightarrow> handler_error option \<times> 'd order_db" where
  "CreateTrade fault newID trade db =
     (let trade' = trade_BeforeCreate newID trade
      in case fault of
           Some err \<Rightarrow> (Some (DBError err), db)
         | None \<Rightarrow> if tdID trade' \<in> tdID ` set (dbTrades db) then (Some DuplicateKey, db)
                   else (None, db\<lparr>dbTrades := dbTrades db @ [trade']\<rparr>))"

definition GetTradeByID :: "string option \<Rightarrow> string \<Rightarrow> 'd order_db \<Rightarrow> handler_error + 'd db_trade" where
  "GetTradeByID fault tradeID db =
     (case fault of
        Some err \<Rightarrow> Inl (DBError err)
      | None \<Rightarrow> (case find (\<lambda>t. tdID t = tradeID) (dbTrades db) of
                  None \<Rightarrow> Inl RecordNotFound | Some t \<Rightarrow> Inr t))"

definition GetTradesByPair :: "string \<Rightarrow> 'd order_db \<Rightarrow> 'd db_trade list" where
  "GetTradesByPair pair db =
     rev (sort_key tdExecutedAt (rev (filter (\<lambda>t. tdPair t = pair) (dbTrades db))))"

definition GetTradesByOrderID :: "string \<Rightarrow> 'd order_db \<Rightarrow> 'd db_trade list" where
  "GetTradesByOrderID orderID db =
     rev (sort_key tdExecutedAt
       (rev (filter (\<lambda>t. tdMakerOrderID t = orderID \<or> tdTakerOrderID t = orderID) (dbTrades db))))"

subsection \<open>Validators (engine/helper.go)\<close>

definition ValidateOrderStatusEvent :: "'d order_event \<Rightarrow> handler_error option" where
  "ValidateOrderStatusEvent event =
     (if hVersion (eHeader event) \<noteq> ''v1'' then Some (UnsupportedVersion (hVersion (eHeader event)))
      else if eID event = [] \<or> eUserID event = [] \<or> ePair event = [] then Some MissingEventFields
      else None)"

definition ValidateTradeStatusEvent :: "'d::linordered_idom trade_event \<Rightarrow> handler_error option" where
  "ValidateTradeStatusEvent event =
     (if hVersion (tHeader event) \<noteq> ''v1'' then Some (UnsupportedVersion (hVersion (tHeader event)))
      else if tMakerUserID event = [] then Some MissingMakerUser
      else if tTakerUserID event = [] then Some MissingTakerUser
      else if tMakerOrderID event = [] then Some MissingMakerOrder
      else if tTakerOrderID event = [] then Some MissingTakerOrder
      else if tPair event = [] then Some MissingPair
      else if \<not> (contains_char CHR ''-'' (tPair event) \<or> contains_char CHR ''/'' (tPair event))
        then Some BadPair
      else if tPrice event < 0 then Some BadPrice
      else if tQuantity event < 0 then Some BadQuantity
      else None)"

subsection \<open>Handlers\<close>

text \<open>A handler owns a consumer name; \<open>f1\<close> and \<open>f2\<close> are the faults of its first and second call.\<close>

definition MarkEvent ::
  "string option \<Rightarrow> string \<Rightarrow> 'd db_event \<Rightarrow> 'd order_db \<Rightarrow> handler_error option \<times> 'd order_db" where
  "MarkEvent fault consumer event db =
     (let id0 = (case event of OrderStatusEv e \<Rightarrow> Some (hEventID (eHeader e))
                 | TradeStatusEv e \<Rightarrow> Some (hEventID (tHeader e)) | OtherEv \<Rightarrow> None)
      in case id0 of
           None \<Rightarrow> (Some UnsupportedEventType, db)
         | Some eventID \<Rightarrow>
             if eventID = [] then (Some MissingEventID, db)
             else (case MarkEventProcessed fault consumer eventID db of
               ((inserted, err), db') \<Rightarrow>
                 if err \<noteq> None \<or> \<not> inserted then (err, db') else (None, db')))"

definition proj_UpdateOrderStatus ::
  "string option \<Rightarrow> string option \<Rightarrow> string \<Rightarrow> 'd order_event \<Rightarrow> 'd order_db \<Rightarrow> handler_error option \<times> 'd order_db" where
  "proj_UpdateOrderStatus f1 f2 consumer event db =
     (case MarkEvent f1 consumer (OrderStatusEv event) db of
        (Some err, db1) \<Rightarrow> (Some err, db1)
      | (None, db1) \<Rightarrow> (case UpdateOrderStatus f2 (eID event) (eStatus event) (eFilled event) db1 of
           (Some err, db2) \<Rightarrow> (Some err, db2)
         | (None, db2) \<Rightarrow> (None, db2)))"

definition HandleIncmingOrder ::
  "string option \<Rightarrow> string \<Rightarrow> 'd order_event \<Rightarrow> 'd order_db \<Rightarrow> handler_error option \<times> 'd order_db" where
  "HandleIncmingOrder f1 consumer event db =
     (case MarkEvent f1 consumer (OrderStatusEv event) db of
        (Some err, db1) \<Rightarrow> (Some err, db1) | (None, db1) \<Rightarrow> (None, db1))"

definition HandleTradeExecutedEvent ::
  "(string \<Rightarrow> bool) \<Rightarrow> string option \<Rightarrow> string option \<Rightarrow> string \<Rightarrow> string \<Rightarrow> time \<Rightarrow>
   'd::linordered_idom trade_event \<Rightarrow> 'd order_db \<Rightarrow> handler_error option \<times> 'd order_db" where
  "HandleTradeExecutedEvent uuid_ok f1 f2 consumer newID now event db =
     (case MarkEvent f1 consumer (TradeStatusEv event) db of
        (Some err, db1) \<Rightarrow> (Some err, db1)
      | (None, db1) \<Rightarrow>
          (case NewTrade uuid_ok (tPair event) (tMakerOrderID event) (tTakerOrderID event)
                  (tPrice event) (tQuantity event) now of
             Inl err \<Rightarrow> (Some (TradeRejected err), db1)
           | Inr trade \<Rightarrow> (case CreateTrade f2 newID trade db1 of
                (Some err, db2) \<Rightarrow> (Some err, db2)
              | (None, db2) \<Rightarrow> (None, db2))))"

definition HandleOrderExpiredEvent ::
  "string option \<Rightarrow> string option \<Rightarrow> string \<Rightarrow> 'd order_event \<Rightarrow> 'd order_db \<Rightarrow> handler_error option \<times> 'd order_db" where
  "HandleOrderExpiredEvent f1 f2 consumer event db =
     (case MarkEvent f1 consumer (OrderStatusEv event) db of
        (Some err, db1) \<Rightarrow> (Some err, db1)
      | (None, db1) \<Rightarrow> (case UpdateOrderStatus f2 (eID event) (eStatus event) (eFilled event) db1 of
           (Some err, db2) \<Rightarrow> (Some err, db2)
         | (None, db2) \<Rightarrow> (None, db2)))"

text \<open>The closure the projection consumer runs on every record.\<close>

definition projection_consume ::
  "string option \<Rightarrow> string option \<Rightarrow> string \<Rightarrow> 'd order_event \<Rightarrow> 'd order_db \<Rightarrow> handler_error option \<times> 'd order_db" where
  "projection_consume f1 f2 groupID event db =
     (if hEventType (eHeader event) = EventOrderExpired
      then HandleOrderExpiredEvent f1 f2 groupID event db
      else case ValidateOrderStatusEvent event of
        Some err \<Rightarrow> (Some err, db)
      | None \<Rightarrow> proj_UpdateOrderStatus f1 f2 groupID event db)"

definition projection_topics :: "string list" where
  "projection_topics = CoinhubAllOrderTopicsByEventTypes
     [EventOrderFilled, EventOrderPartial, EventOrderStatus, EventOrderCanceled, EventOrderExpired,
      EventTradeExecuted]"

subsection \<open>Well-formed tables\<close>

definition db_ok :: "'d order_db \<Rightarrow> bool" where
  "db_ok db = (distinct (map dID (dbOrders db)) \<and> distinct (map tdID (dbTrades db)) \<and>
     distinct (map peEventID (dbProcessed db)))"

lemma CreateOrder_ok [inv_intros]:
  "db_ok db \<Longrightarrow> CreateOrder f i now d db = Inr (d', db') \<Longrightarrow> db_ok db'"
  by (auto simp: db_ok_def CreateOrder_def Let_def split: option.splits if_splits)

lemma UpdateOrderStatus_ok [inv_intros]:
  "db_ok db \<Longrightarrow> db_ok (snd (UpdateOrderStatus f i s q db))"
proof (cases f)
  case None
  assume "db_ok db"
  moreover have "map dID (map (\<lambda>d. if dID d = i then d\<lparr>dStatus := s, dFilled := q\<rparr> else d) (dbOrders db)) =
      map dID (dbOrders db)" by simp
  ultimately show ?thesis unfolding db_ok_def UpdateOrderStatus_def None by (simp del: map_map)
qed (simp add: UpdateOrderStatus_def)

lemma MarkEventProcessed_ok [inv_intros]:
  "db_ok db \<Longrightarrow> db_ok (snd (MarkEventProcessed f c i db))"
  by (auto simp: db_ok_def MarkEventProcessed_def NewProcessedOrderEvent_def split: option.split)

lemma CreateTrade_ok [inv_intros]: "db_ok db \<Longrightarrow> db_ok (snd (CreateTrade f i t db))"
  by (auto simp: db_ok_def CreateTrade_def Let_def split: option.split)

lemma MarkEvent_db:
  "snd (MarkEvent f c ev db) = db \<or> (\<exists>i. snd (MarkEvent f c ev db) = snd (MarkEventProcessed f c i db))"
proof -
  have "snd (case r of ((inserted, err), db') \<Rightarrow>
     if err \<noteq> None \<or> \<not> inserted then (err, db') else (None :: handler_error option, db')) = snd r"
    for r :: "(bool \<times> handler_error option) \<times> 'a order_db"
    by (cases r) auto
  then show ?thesis by (cases ev) (auto simp: MarkEvent_def Let_def)
qed

lemma MarkEvent_ok [inv_intros]: "db_ok db \<Longrightarrow> db_ok (snd (MarkEvent f c ev db))"
  using MarkEvent_db [of f c ev db] MarkEventProcessed_ok by metis

lemma MarkEvent_orders [simp]:
  "dbOrders (snd (MarkEvent f c ev db)) = dbOrders db" "dbTrades (snd (MarkEvent f c ev db)) = dbTrades db"
proof -
  have "dbOrders (snd (MarkEventProcessed f c i db)) = dbOrders db \<and>
      dbTrades (snd (MarkEventProcessed f c i db)) = dbTrades db" for i
    by (auto simp: MarkEventProcessed_def split: option.split)
  then show "dbOrders (snd (MarkEvent f c ev db)) = dbOrders db" "dbTrades (snd (MarkEvent f c ev db)) = dbTrades db"
    using MarkEvent_db [of f c ev db] by metis+
qed

text \<open>Without a fault, marking fails only for an event without an ID; a known ID is no failure.\<close>

lemma MarkEvent_fst:
  "fst (MarkEvent None c (OrderStatusEv ev) db) = (if hEventID (eHeader ev) = [] then Some MissingEventID else None)"
  "fst (MarkEvent None c (TradeStatusEv tv) db) = (if hEventID (tHeader tv) = [] then Some MissingEventID else None)"
  by (auto simp: MarkEvent_def MarkEventProcessed_def Let_def)

lemma proj_Update_eq:
  "proj_UpdateOrderStatus f1 f2 c ev db =
   (case MarkEvent f1 c (OrderStatusEv ev) db of
      (Some err, db1) \<Rightarrow> (Some err, db1)
    | (None, db1) \<Rightarrow> UpdateOrderStatus f2 (eID ev) (eStatus ev) (eFilled ev) db1)"
  "HandleOrderExpiredEvent f1 f2 c ev db = proj_UpdateOrderStatus f1 f2 c ev db"
  by (auto simp: proj_UpdateOrderStatus_def HandleOrderExpiredEvent_def split: prod.split option.split)

lemma proj_Update_ok [inv_intros]: "db_ok db \<Longrightarrow> db_ok (snd (proj_UpdateOrderStatus f1 f2 c ev db))"
  using MarkEvent_ok [of db f1 c "OrderStatusEv ev"]
    UpdateOrderStatus_ok [of "snd (MarkEvent f1 c (OrderStatusEv ev) db)" f2 "eID ev" "eStatus ev" "eFilled ev"]
  by (auto simp: proj_Update_eq split: prod.splits option.splits)

subsection \<open>The projection as a function of the events\<close>

definition project_all :: "string \<Rightarrow> 'd order_event list \<Rightarrow> 'd order_db \<Rightarrow> 'd order_db" where
  "project_all g evs db = foldl (\<lambda>db ev. snd (projection_consume None None g ev db)) db evs"

definition projected :: "'d order_event \<Rightarrow> bool" where
  "projected ev = (hEventID (eHeader ev) \<noteq> [] \<and>
     (hEventType (eHeader ev) = EventOrderExpired \<or> ValidateOrderStatusEvent ev = None))"

definition apply_event :: "'d order_event \<Rightarrow> 'd db_order \<Rightarrow> 'd db_order" where
  "apply_event ev d = (if projected ev \<and> dID d = eID ev then d\<lparr>dStatus := eStatus ev, dFilled := eFilled ev\<rparr> else d)"

lemma consume_orders:
  "dbOrders (snd (projection_consume None None g ev db)) = map (apply_event ev) (dbOrders db)"
proof -
  have upd: "dbOrders (snd (proj_UpdateOrderStatus None None g ev db)) =
      (if hEventID (eHeader ev) = [] then dbOrders db
       else map (\<lambda>d. if dID d = eID ev then d\<lparr>dStatus := eStatus ev, dFilled := eFilled ev\<rparr> else d) (dbOrders db))"
    using MarkEvent_fst(1) [of g ev db] MarkEvent_orders(1) [of None g "OrderStatusEv ev" db]
    by (cases "MarkEvent None g (OrderStatusEv ev) db")
       (auto simp: proj_Update_eq UpdateOrderStatus_def split: if_splits)
  show ?thesis
    by (auto simp: projection_consume_def proj_Update_eq(2) upd projected_def apply_event_def
        split: option.split intro!: map_idI [symmetric])
qed

text \<open>The last event of an order among those the projection accepts.\<close>

definition last_event :: "string \<Rightarrow> 'd order_event list \<Rightarrow> 'd order_event option" where
  "last_event i evs = find (\<lambda>ev. projected ev \<and> eID ev = i) (rev evs)"

lemma last_event_snoc:
  "last_event i (evs @ [ev]) = (if projected ev \<and> eID ev = i then Some ev else last_event i evs)"
  by (simp add: last_event_def)

definition view_of :: "'d order_event list \<Rightarrow> 'd db_order \<Rightarrow> 'd db_order" where
  "view_of evs d = (case last_event (dID d) evs of None \<Rightarrow> d
     | Some ev \<Rightarrow> d\<lparr>dStatus := eStatus ev, dFilled := eFilled ev\<rparr>)"

lemma apply_view: "apply_event ev (view_of evs d) = view_of (evs @ [ev]) d"
  by (auto simp: apply_event_def view_of_def last_event_snoc split: option.split)

lemma project_orders: "dbOrders (project_all g evs db) = map (view_of evs) (dbOrders db)"
proof (induction evs rule: rev_induct)
  case Nil
  show ?case by (auto simp: project_all_def view_of_def last_event_def intro!: map_idI [symmetric])
next
  case (snoc ev evs)
  have "dbOrders (project_all g (evs @ [ev]) db) = map (apply_event ev) (dbOrders (project_all g evs db))"
    by (simp add: project_all_def consume_orders)
  also have "\<dots> = map (view_of (evs @ [ev])) (dbOrders db)" by (simp add: snoc.IH apply_view comp_def)
  finally show ?case .
qed

subsection \<open>Properties\<close>

definition sample_row :: "string \<Rightarrow> int db_order" where
  "sample_row i = \<lparr> dID = i, dUserID = ''alice'', dPair = ''BTC/USDT'', dType = ''limit'', dSide = ''buy'',
     dBehavior = ''GTC'', dPrice = 10, dQuantity = 5, dFilled = 0, dStatus = ''open'', dExpiresAt = 9,
     dTimestamp = 1 \<rparr>"

definition sample_db :: "int order_db" where
  "sample_db = \<lparr> dbOrders = [sample_row ''o1'', sample_row ''o2''], dbTrades = [], dbProcessed = [] \<rparr>"

definition status_event :: "string \<Rightarrow> string \<Rightarrow> string \<Rightarrow> int \<Rightarrow> int order_event" where
  "status_event evid i s q = \<lparr> eHeader = \<lparr> hEventID = evid, hEventType = ''ORDER_PARTIAL_FILLED'',
       hVersion = ''v1'', hOccuredAt = 7 \<rparr>, eID = i, eUserID = ''alice'', ePair = ''BTC-USDT'',
     eType = ''limit'', eSide = ''buy'', eBehavior = ''GTC'', eExpiresAt = 9, ePrice = 10, eQuantity = 5,
     eFilled = q, eStatus = s, eRemainingQty = 5 - q \<rparr>"

definition sample_trade :: "int trade_event" where
  "sample_trade = \<lparr> tHeader = \<lparr> hEventID = ''t1'', hEventType = ''TRADE_EXECUTED'', hVersion = ''v1'',
       hOccuredAt = 7 \<rparr>, tMakerUserID = ''a'', tTakerUserID = ''b'', tMakerOrderID = ''o1'',
     tTakerOrderID = ''o2'', tPair = ''BTC-USDT'', tPrice = 10, tQuantity = 2, tMakerFilled = False,
     tTakerFilled = True, tMakerRemaining = ''3'', tTakerRemaining = ''0'' \<rparr>"

text \<open>After the projection has consumed a sequence of events, each order row carries the status and the
  filled amount of the last accepted event of that order, and is unchanged when there is none.\<close>

theorem projection_is_last_event:
  "dbOrders (project_all g evs db) =
     map (\<lambda>d. case last_event (dID d) evs of None \<Rightarrow> d
            | Some ev \<Rightarrow> d\<lparr>dStatus := eStatus ev, dFilled := eFilled ev\<rparr>) (dbOrders db)"
  by (simp add: project_orders view_of_def)

text \<open>Consuming a redelivered order event changes no order row a second time: the projection is
  idempotent on the orders, although the handler does not skip events it has already processed.\<close>

theorem projection_redelivery_idempotent:
  "dbOrders (project_all g (evs @ [ev, ev]) db) = dbOrders (project_all g (evs @ [ev]) db)"
proof -
  have "view_of (evs @ [ev, ev]) d = view_of (evs @ [ev]) d" for d :: "'a db_order"
    using last_event_snoc [of "dID d" "evs @ [ev]" ev] last_event_snoc [of "dID d" evs ev]
    by (simp add: view_of_def split: if_splits)
  then show ?thesis by (simp add: project_orders)
qed



text \<open>A trade event that is delivered twice is stored as two trades: the second delivery finds the event
  ID marked, and inserts all the same.\<close>

theorem redelivered_trade_stored_twice:
  assumes "hEventID (tHeader tv) \<noteq> []"
    and "NewTrade uuid_ok (tPair tv) (tMakerOrderID tv) (tTakerOrderID tv) (tPrice tv) (tQuantity tv) now = Inr tr"
    and "tdID tr = []" and "i1 \<noteq> i2" and "i1 \<notin> tdID ` set (dbTrades db)" and "i2 \<notin> tdID ` set (dbTrades db)"
  shows "\<exists>db1. HandleTradeExecutedEvent uuid_ok None None g i1 now tv db = (None, db1) \<and>
     (\<exists>db2. HandleTradeExecutedEvent uuid_ok None None g i2 now tv db1 = (None, db2) \<and>
        dbTrades db2 = dbTrades db @ [tr\<lparr>tdID := i1\<rparr>, tr\<lparr>tdID := i2\<rparr>])"
proof -
  have step: "\<exists>db'. HandleTradeExecutedEvent uuid_ok None None g i now tv db0 = (None, db') \<and>
      dbTrades db' = dbTrades db0 @ [tr\<lparr>tdID := i\<rparr>]" if "i \<notin> tdID ` set (dbTrades db0)" for i db0
    using MarkEvent_fst(2) [of g tv db0] MarkEvent_orders(2) [of None g "TradeStatusEv tv" db0] assms(1-3) that
    by (cases "MarkEvent None g (TradeStatusEv tv) db0")
       (auto simp: HandleTradeExecutedEvent_def CreateTrade_def trade_BeforeCreate_def Let_def)
  from step [OF assms(5)] obtain db1 where
    1: "HandleTradeExecutedEvent uuid_ok None None g i1 now tv db = (None, db1)"
    "dbTrades db1 = dbTrades db @ [tr\<lparr>tdID := i1\<rparr>]" by blast
  then have "i2 \<notin> tdID ` set (dbTrades db1)" using assms(4,6) by auto
  from step [OF this] 1 show ?thesis by auto
qed

theorem redelivered_trade_stored_twice_witness:
  "\<exists>db2. (\<exists>db1. HandleTradeExecutedEvent (\<lambda>_. True) None None ''g'' ''x'' 5 sample_trade sample_db = (None, db1) \<and>
        HandleTradeExecutedEvent (\<lambda>_. True) None None ''g'' ''y'' 5 sample_trade db1 = (None, db2)) \<and>
     length (dbTrades db2) = 2"
proof -
  obtain tr where tr: "NewTrade (\<lambda>_. True) (tPair sample_trade) (tMakerOrderID sample_trade)
      (tTakerOrderID sample_trade) (tPrice sample_trade) (tQuantity sample_trade) 5 = Inr tr" "tdID tr = []"
  proof -
    have "(case NewTrade (\<lambda>_. True) (tPair sample_trade) (tMakerOrderID sample_trade)
      (tTakerOrderID sample_trade) (tPrice sample_trade) (tQuantity sample_trade) 5 of
        Inr tr \<Rightarrow> tdID tr = [] | Inl _ \<Rightarrow> False)" by code_simp
    then show thesis using that by (auto split: sum.splits)
  qed
  have "hEventID (tHeader sample_trade) \<noteq> []" and t: "dbTrades sample_db = []"
    by (simp_all add: sample_trade_def sample_db_def)
  from redelivered_trade_stored_twice [OF this(1) tr, of "''x''" "''y''" sample_db "''g''"]
  show ?thesis unfolding t by auto
qed

end
