(* ===== verification/Match_Engine.thy ===== *)
theory Match_Engine
  imports Book_Reaper Event_Producer Order_Projection
begin

text \<open>
  \<^verbatim>\<open>internal/engine/engine.go\<close> with the symbol helper of helper.go: the engine's construction, the router
  of orders to per-pair channels, submission, the dispatch of an order to the matching functions, the
  handler of consumed events and the reaper. A channel is the list of its buffered orders. Publishing is
  a parameter: the error of the call, or \<open>None\<close> when it panics.
\<close>

definition OrderChanBufferSize :: nat where
  "OrderChanBufferSize = 10000"

record supported_pair =
  spID :: string
  spSymbol :: "string option"

type_synonym 'd router = "string \<Rightarrow> 'd order list option"

record 'd engine =
  meBooks :: "string \<Rightarrow> 'd book option"
  meRouter :: "'d router option"
  meReaper :: "'d expiryEntity list"

subsection \<open>Construction\<close>

text \<open>The outer \<open>None\<close> is the panic on a nil symbol.\<close>

definition fixSupportedPairLight :: "supported_pair \<Rightarrow> (engine_error + supported_pair) option" where
  "fixSupportedPairLight a =
     (case spSymbol a of
        None \<Rightarrow> None
      | Some s \<Rightarrow> Some
          (if \<not> contains_char CHR ''-'' s
           then (if \<not> contains_char CHR ''/'' s \<or> length (split_on CHR ''/'' s) \<noteq> 2
                 then Inl (ErrInvalidSymbolFormat s)
                 else Inr (a\<lparr>spSymbol := Some (split_on CHR ''/'' s ! 0 @ ''-'' @ split_on CHR ''/'' s ! 1)\<rparr>))
           else Inr a))"

definition NewSupportedPairLight :: "string \<Rightarrow> string \<Rightarrow> supported_pair option" where
  "NewSupportedPairLight i symbol =
     (case fixSupportedPairLight \<lparr> spID = i, spSymbol = Some symbol \<rparr> of
        Some (Inr a) \<Rightarrow> Some a | _ \<Rightarrow> None)"

definition empty_book :: "string \<Rightarrow> 'd::linordered_idom book" where
  "empty_book pair = \<lparr> obPair = pair, obDust = 0, obBids = NewSide 32 False, obAsks = NewSide 32 True,
     obStore = (\<lambda>_. \<lparr> oID = [], oUserID = [], oPair = [], oType = [], oSide = [], oBehavior = [],
       oPrice = 0, oQuantity = 0, oFilled = 0, oStatus = [], oExpiresAt = 0, oTimestamp = 0 \<rparr>),
     obNext = 0 \<rparr>"

definition initializeOrderbooks :: "supported_pair list \<Rightarrow> (string \<Rightarrow> 'd::linordered_idom book option)" where
  "initializeOrderbooks availableAssets =
     foldl (\<lambda>books a. case spSymbol a of None \<Rightarrow> books | Some s \<Rightarrow> books(s \<mapsto> empty_book s))
       Map.empty availableAssets"

definition initializeReaper :: "'d expiryEntity list" where
  "initializeReaper = []"

text \<open>
  The loop fixes copies of the pairs, so their symbols stay as they are; the first pair it cannot fix
  makes the function return a nil router and no error.
\<close>

fun check_pairs :: "supported_pair list \<Rightarrow> bool option" where
  "check_pairs [] = Some True"
| "check_pairs (a # as) =
     (case fixSupportedPairLight a of
        None \<Rightarrow> None | Some (Inl _) \<Rightarrow> Some False | Some (Inr _) \<Rightarrow> check_pairs as)"

definition initializeOrderRouter :: "supported_pair list \<Rightarrow> 'd router option option" where
  "initializeOrderRouter availableAssets =
     (case check_pairs availableAssets of
        None \<Rightarrow> None
      | Some False \<Rightarrow> Some None
      | Some True \<Rightarrow> Some (Some (foldl (\<lambda>w a. case spSymbol a of None \<Rightarrow> w | Some s \<Rightarrow> w(s \<mapsto> []))
                                  Map.empty availableAssets)))"

definition NewMatchEngine ::
  "string option \<Rightarrow> supported_pair list \<Rightarrow> (string + 'd::linordered_idom engine) option" where
  "NewMatchEngine producerErr availableAssets =
     (case producerErr of
        Some err \<Rightarrow> Some (Inl err)
      | None \<Rightarrow>
          (case initializeOrderRouter availableAssets of
             None \<Rightarrow> None
           | Some router \<Rightarrow> Some (Inr \<lparr> meBooks = initializeOrderbooks availableAssets,
               meRouter = router, meReaper = initializeReaper \<rparr>)))"

definition engine_topics :: "string list" where
  "engine_topics = [CoinHubOrderSubmittedTopic, CoinHubOrderCanceledTopic]"

subsection \<open>Routing to the channels\<close>

datatype 'a send = Sent 'a | Blocked | Panicked

definition addOrder :: "string \<Rightarrow> 'd order \<Rightarrow> 'd router option \<Rightarrow> 'd router option send" where
  "addOrder pair order r =
     (case r of
        None \<Rightarrow> Panicked
      | Some workers \<Rightarrow>
          (case workers pair of
             None \<Rightarrow> Sent r
           | Some ch \<Rightarrow> if length ch < OrderChanBufferSize then Sent (Some (workers(pair \<mapsto> ch @ [order])))
                        else Blocked))"

definition order_of_event :: "'d::linordered_idom env \<Rightarrow> nat \<Rightarrow> 'd order_event \<Rightarrow> 'd order" where
  "order_of_event e n event =
     (let expPtr = (if eExpiresAt event \<noteq> zero_time then Some (eExpiresAt event) else None);
          order = NewOrder e n (eUserID event) (ePair event) (eType event) (eSide event)
                    (ePrice event) (eQuantity event) expPtr
      in if eBehavior event \<noteq> [] then order\<lparr>oBehavior := eBehavior event\<rparr> else order)"

definition routeOrderEventFanOut ::
  "'d::linordered_idom env \<Rightarrow> nat \<Rightarrow> 'd order_event \<Rightarrow> 'd engine \<Rightarrow> 'd engine send" where
  "routeOrderEventFanOut e n event me =
     (case addOrder (ePair event) (order_of_event e n event) (meRouter me) of
        Sent r \<Rightarrow> Sent (me\<lparr>meRouter := r\<rparr>) | Blocked \<Rightarrow> Blocked | Panicked \<Rightarrow> Panicked)"

text \<open>The closure the main consumer runs on a record; \<open>f1\<close> is a fault of the database.\<close>

definition OrderSubmittedConsumerGroupID :: string where
  "OrderSubmittedConsumerGroupID = ''order-submitted-consumer-v1''"

definition engine_consume ::
  "string option \<Rightarrow> 'd::linordered_idom env \<Rightarrow> nat \<Rightarrow> 'd order_event \<Rightarrow> 'd order_db \<Rightarrow> 'd engine \<Rightarrow>
   (handler_error option \<times> 'd order_db \<times> 'd engine) send" where
  "engine_consume f1 e n event db me =
     (case ValidateOrderStatusEvent event of
        Some err \<Rightarrow> Sent (Some err, db, me)
      | None \<Rightarrow>
          (case HandleIncmingOrder f1 OrderSubmittedConsumerGroupID event db of
             (Some err, db1) \<Rightarrow> Sent (Some err, db1, me)
           | (None, db1) \<Rightarrow>
               (case routeOrderEventFanOut e n event me of
                  Sent me' \<Rightarrow> Sent (None, db1, me') | Blocked \<Rightarrow> Blocked | Panicked \<Rightarrow> Panicked)))"

subsection \<open>Processing\<close>

definition orderTypeRouter ::
  "'d::linordered_idom env \<Rightarrow> nat \<Rightarrow> 'd order \<Rightarrow> 'd engine \<Rightarrow>
   (engine_error option \<times> 'd engine \<times> 'd effect list) option" where
  "orderTypeRouter e n order me =
     (case meBooks me (oPair order) of
        None \<Rightarrow> Some (Some (ErrNoOrderbookForPair (oPair order)), me, [])
      | Some ob \<Rightarrow>
          (let r = (if oType order = OrderTypeLimit then Some (MatchLimit e n ob order)
                    else if oType order = OrderTypeMarket then Some (MatchMarket e n ob order)
                    else if oType order = OrderTypeCancel then Cancel None order ob
                    else Some (None, ob, []))
           in case r of
                None \<Rightarrow> None
              | Some (err, ob', out) \<Rightarrow>
                  Some (err, me\<lparr>meBooks := (meBooks me)(oPair order \<mapsto> ob')\<rparr>, out)))"

text \<open>One turn of a pair's worker: it takes the oldest order of the channel; an error is only logged.\<close>

definition worker_turn ::
  "'d::linordered_idom env \<Rightarrow> nat \<Rightarrow> string \<Rightarrow> 'd engine \<Rightarrow> ('d order \<times> 'd engine \<times> 'd effect list) option" where
  "worker_turn e n pair me =
     (case meRouter me of
        None \<Rightarrow> None
      | Some workers \<Rightarrow>
          (case workers pair of
             Some (order # rest) \<Rightarrow>
               (case orderTypeRouter e n order (me\<lparr>meRouter := Some (workers(pair \<mapsto> rest))\<rparr>) of
                  None \<Rightarrow> None | Some (_, me', out) \<Rightarrow> Some (order, me', out))
           | _ \<Rightarrow> None))"

definition OrdersSubmittedTotal :: string where [simp]: "OrdersSubmittedTotal = ''orders_submitted_total''"
definition OrdersExpiredTotal :: string where [simp]: "OrdersExpiredTotal = ''orders_expired_total''"
definition ReaperRemovalFailedTotal :: string where
  [simp]: "ReaperRemovalFailedTotal = ''reaper_removal_failed_total''"

text \<open>
  \<^verbatim>\<open>SubmitOrder\<close> and \<^verbatim>\<open>SubmitCancelOrder\<close>: the effects of the call, and its result, which is \<open>None\<close> when the call
  panics or does not return.
\<close>

definition SubmitOrder ::
  "('d order_event \<Rightarrow> kafka_error option option) \<Rightarrow> 'd::linordered_idom env \<Rightarrow> nat \<Rightarrow> 'd order \<Rightarrow> 'd engine \<Rightarrow>
   'd effect list \<times> (engine_error option \<times> 'd engine) option" where
  "SubmitOrder pub e n incoming me =
     (let ev = NewOrderEvent e n (oID incoming) (oUserID incoming) (oPair incoming) (oType incoming)
                 kafka_StatusOpen EventOrderSubmitted (oSide incoming) (oPrice incoming)
                 (oQuantity incoming) (oFilled incoming) (Remaining incoming) (oBehavior incoming)
                 (oExpiresAt incoming)
      in case pub ev of
           None \<Rightarrow> ([], None)
         | Some (Some err) \<Rightarrow> ([], Some (Some (ErrPublishOrderEventFailed err), me))
         | Some None \<Rightarrow>
             (let item = NewExpiryEntity (oExpiresAt incoming) (oPair incoming) (oID incoming)
                           (oPrice incoming) (oSide incoming) (int (br_Len (meReaper me)))
              in case heap_Push item (meReaper me) of
                   None \<Rightarrow> ([PublishOrderEvent ev], None)
                 | Some br \<Rightarrow>
                     ([PublishOrderEvent ev,
                       MetricAdd OrdersSubmittedTotal [oPair incoming, oType incoming, oSide incoming] 1],
                      Some (None, me\<lparr>meReaper := br\<rparr>))))"

definition SubmitCancelOrder ::
  "('d order_event \<Rightarrow> kafka_error option option) \<Rightarrow> 'd::linordered_idom env \<Rightarrow> nat \<Rightarrow> 'd order \<Rightarrow>
   'd effect list \<times> engine_error option option" where
  "SubmitCancelOrder pub e n incoming =
     (let ev = NewOrderEvent e n (oID incoming) (oUserID incoming) (oPair incoming) (oType incoming)
                 kafka_StatusCancelled EventOrderCanceled (oSide incoming) (oPrice incoming)
                 (oQuantity incoming) (oFilled incoming) (Remaining incoming) (oBehavior incoming)
                 (oExpiresAt incoming)
      in case pub ev of
           None \<Rightarrow> ([], None)
         | Some (Some err) \<Rightarrow> ([], Some (Some (ErrPublishCancelEventFailed err)))
         | Some None \<Rightarrow> ([PublishOrderEvent ev], Some None))"

subsection \<open>The reaper\<close>

text \<open>What the reaper does with an entry it has popped; \<open>None\<close> is the panic on an unknown pair's nil book.\<close>

definition reap_item ::
  "'d::linordered_idom env \<Rightarrow> nat \<Rightarrow> 'd expiryEntity \<Rightarrow> 'd engine \<Rightarrow> ('d engine \<times> 'd effect list) option" where
  "reap_item e n item me =
     (case meBooks me (xPair item) of
        None \<Rightarrow> None
      | Some ob \<Rightarrow>
          if OrderExist (xSide item) (xOrderID item) ob
          then (case RemoveOrderByOrderID (xSide item) (xOrderID item) (xPrice item) ob of
             (removed, ob') \<Rightarrow>
               (let me' = me\<lparr>meBooks := (meBooks me)(xPair item \<mapsto> ob')\<rparr>
                in if \<not> removed then Some (me', [MetricAdd ReaperRemovalFailedTotal [xPair item] 1])
                   else Some (me', [MetricAdd OrdersExpiredTotal [xPair item] 1,
                          PublishOrderEvent (NewOrderEvent e n (xOrderID item) [] (xPair item)
                            OrderTypeLimit kafka_StatusExpired EventOrderExpired (xSide item)
                            (xPrice item) 0 0 0 ''GTC'' (xExpiresAt item))])))
          else Some (me, []))"

text \<open>One tick: expired entries are popped while the top of the heap has expired.\<close>

partial_function (option) reaper_tick ::
  "'d::linordered_idom env \<Rightarrow> nat \<Rightarrow> 'd engine \<Rightarrow> ('d engine \<times> 'd effect list) option" where
  "reaper_tick e n me =
     (if br_Len (meReaper me) = 0 then Some (me, [])
      else if \<not> isExpired (clock e n) (meReaper me ! 0) then Some (me, [])
      else Option.bind (heap_Pop (meReaper me)) (\<lambda>(item, br).
        Option.bind (reap_item e n item (me\<lparr>meReaper := br\<rparr>)) (\<lambda>(me', out).
          Option.bind (reaper_tick e (n + 2) me') (\<lambda>(me'', out'). Some (me'', out @ out')))))"

subsection \<open>Properties\<close>

lemma empty_book_ok [simp]: "book_ok (empty_book pair)"
  by (simp add: book_ok_def empty_book_def book_refs_def side_refs_def NewSide_def side_ok_def
      side_wf_def no_empty_level_def Let_def)

lemma order_of_event_fields [simp]:
  "oFilled (order_of_event e n ev) = 0" "oQuantity (order_of_event e n ev) = eQuantity ev"
  "oID (order_of_event e n ev) = uuid e n" "oUserID (order_of_event e n ev) = eUserID ev"
  "oPair (order_of_event e n ev) = ePair ev" "oType (order_of_event e n ev) = eType ev"
  "oSide (order_of_event e n ev) = eSide ev" "oPrice (order_of_event e n ev) = ePrice ev"
  "oStatus (order_of_event e n ev) = ''open''"
  by (simp_all add: order_of_event_def Let_def)

text \<open>C38: Once its event is published, \<^verbatim>\<open>SubmitOrder\<close> does not return: the broker has the order, the caller
  gets no answer, and the submission is never counted.\<close>

theorem SubmitOrder_never_returns_after_publishing:
  assumes "\<And>ev. pub ev = Some None"
  shows "\<exists>ev. SubmitOrder pub e n incoming me = ([PublishOrderEvent ev], None) \<and> eID ev = oID incoming \<and>
     hEventType (eHeader ev) = EventOrderSubmitted"
  using assms by (simp add: SubmitOrder_def Let_def)

theorem SubmitOrder_never_returns_after_publishing_witness:
  "snd (SubmitOrder (\<lambda>_. Some None) sample_env 0 (sample_buy ''erin'' 11 6)
     \<lparr> meBooks = Map.empty, meRouter = Some Map.empty, meReaper = [] \<rparr>) = None"
proof -
  have "Some None = Some (None :: kafka_error option)" by simp
  from SubmitOrder_never_returns_after_publishing [of "\<lambda>_. Some None", OF this, of sample_env 0]
  show ?thesis by (metis snd_conv)
qed

text \<open>The order the engine processes for a consumed event is new: it has a generated ID, nothing filled
  and status open, whatever the event's ID, filled amount, status and event type are, and it is appended
  to its pair's channel.\<close>

theorem routed_order_is_new:
  assumes "meRouter me = Some workers" and "workers (ePair ev) = Some ch" and "length ch < OrderChanBufferSize"
  shows "\<exists>o1. routeOrderEventFanOut e n ev me =
       Sent (me\<lparr>meRouter := Some (workers(ePair ev \<mapsto> ch @ [o1]))\<rparr>) \<and>
     oID o1 = uuid e n \<and> oFilled o1 = 0 \<and> oStatus o1 = ''open'' \<and> oUserID o1 = eUserID ev \<and>
     oType o1 = eType ev \<and> oSide o1 = eSide ev \<and> oPrice o1 = ePrice ev \<and> oQuantity o1 = eQuantity ev"
  using assms by (intro exI [of _ "order_of_event e n ev"]) (simp add: routeOrderEventFanOut_def addOrder_def)

theorem routed_order_is_new_witness:
  "\<exists>o1. routeOrderEventFanOut sample_env 3 sample_event
       \<lparr> meBooks = Map.empty, meRouter = Some [''BTC-USDT'' \<mapsto> []], meReaper = [] \<rparr> =
     Sent \<lparr> meBooks = Map.empty, meRouter = Some ([''BTC-USDT'' \<mapsto> []](''BTC-USDT'' \<mapsto> [o1])),
       meReaper = [] \<rparr> \<and>
     oID o1 = [char_of (3 :: nat)]"
proof -
  let ?me = "\<lparr> meBooks = Map.empty, meRouter = Some [''BTC-USDT'' \<mapsto> []], meReaper = [] \<rparr> :: int engine"
  have p: "ePair sample_event = ''BTC-USDT''" and u: "uuid sample_env 3 = [char_of (3 :: nat)]"
    by (simp_all add: sample_event_def sample_env_def)
  have "meRouter ?me = Some [''BTC-USDT'' \<mapsto> []]" "[''BTC-USDT'' \<mapsto> []] (ePair sample_event) = Some []"
    "length [] < OrderChanBufferSize" by (simp_all add: p OrderChanBufferSize_def)
  from routed_order_is_new [OF this, of sample_env 3] show ?thesis
    unfolding p u append_Nil engine.simps by blast
qed

text \<open>A limit sell that does not cross comes back for ever: its cancellation is published on a topic the
  engine consumes, and the order routed from that event is again a non-crossing limit sell of the same
  user, price and quantity, which the unchanged book cancels in the same way.\<close>

theorem cancelled_sell_feeds_back:
  assumes "oSide o1 \<noteq> SideBuy" and "limit_best ob o1 = None" and "sLevels (obBids ob) \<noteq> []"
  shows "\<exists>ev. MatchLimit e n ob o1 = (None, ob, [PublishOrderEvent ev]) \<and>
     CoinhubOrderEventDispatcher (hEventType (eHeader ev)) \<in> set engine_topics \<and>
     limit_best ob (order_of_event e m ev) = None \<and>
     (\<exists>ev'. MatchLimit e k ob (order_of_event e m ev) = (None, ob, [PublishOrderEvent ev']) \<and>
        eUserID ev' = eUserID ev \<and> ePrice ev' = ePrice ev \<and> eQuantity ev' = eQuantity ev \<and>
        hEventType (eHeader ev') = hEventType (eHeader ev))"
proof -
  have cancel: "MatchLimit e j ob x = (None, ob, [PublishOrderEvent (ChangeStatusEvent EventOrderCanceled
      kafka_StatusCancelled (order_event_of e j x))])"
    if "oSide x = oSide o1" "oPrice x = oPrice o1" for j and x :: "'a order"
  proof -
    obtain lv rest where ls: "sLevels (obBids ob) = lv # rest" using assms(3) by (cases "sLevels (obBids ob)") auto
    then have b: "BestPriceLevel (obBids ob) = Some lv" by (simp add: BestPriceLevel_def)
    with assms(1,2) have "\<not> oPrice o1 \<le> lvPrice lv" by (simp add: limit_best_def opposite_def split: if_splits)
    then show ?thesis using that assms(1) ls b by (simp add: MatchLimit_def match_limit_sell_def)
  qed
  let ?ev = "ChangeStatusEvent EventOrderCanceled kafka_StatusCancelled (order_event_of e n o1)"
  have "limit_best ob (order_of_event e m ?ev) = None"
    using assms(2) limit_best_cong [of "order_of_event e m ?ev" o1 ob] by simp
  moreover have "CoinhubOrderEventDispatcher (hEventType (eHeader ?ev)) \<in> set engine_topics"
    by (simp add: CoinhubOrderEventDispatcher_def engine_topics_def)
  ultimately show ?thesis using cancel [of o1 n] cancel [of "order_of_event e m ?ev" k] by simp
qed

theorem cancelled_sell_feeds_back_witness:
  "\<exists>ev. MatchLimit sample_env 0 sample_book (sample_sell ''erin'' 11 3) = (None, sample_book, [PublishOrderEvent ev]) \<and>
     CoinhubOrderEventDispatcher (hEventType (eHeader ev)) \<in> set engine_topics"
proof -
  have "oSide (sample_sell ''erin'' 11 3) \<noteq> SideBuy" "limit_best sample_book (sample_sell ''erin'' 11 3) = None"
    "sLevels (obBids sample_book) \<noteq> []" by code_simp+
  from cancelled_sell_feeds_back [OF this, of sample_env 0] show ?thesis by blast
qed

end
