(* ===== verification/Engine_Steps.thy ===== *)
theory Engine_Steps
  imports Match_Engine
begin

text \<open>
  The engine process as a transition system (\<^verbatim>\<open>MatchEngine.Run\<close>): one consumer of the submitted and
  cancelled topics, one worker per pair, and the reaper run concurrently; each takes one of its turns per
  step, a turn runs under the book's mutex. The topics keep the records of one pair in their sequence (the
  record key is the pair), and records of different pairs may overtake each other. The state carries, per
  pair, the orders routed and processed so far. The locale states the invariant rule; each invariant of
  the engine is an interpretation of it.
\<close>

record 'd sys =
  sysEngine :: "'d engine"
  sysDb :: "'d order_db"
  sysTopic :: "'d order_event list"
  sysRouted :: "string \<Rightarrow> 'd order list"
  sysDone :: "string \<Rightarrow> 'd order list"
  sysTrades :: "'d trade_event list"

text \<open>The events of a turn that go back to the topics the engine consumes.\<close>

definition engine_feed :: "'d effect list \<Rightarrow> 'd order_event list" where
  "engine_feed out = filter (\<lambda>ev. CoinhubOrderEventDispatcher (hEventType (eHeader ev)) \<in> set engine_topics)
     (order_events_of out)"

definition first_of_pair :: "nat \<Rightarrow> 'd order_event list \<Rightarrow> bool" where
  "first_of_pair i evs = (i < length evs \<and> (\<forall>j < i. ePair (evs ! j) \<noteq> ePair (evs ! i)))"

definition has_worker :: "string \<Rightarrow> 'd engine \<Rightarrow> bool" where
  "has_worker p me = (case meRouter me of None \<Rightarrow> False | Some w \<Rightarrow> w p \<noteq> None)"

inductive sys_step :: "'d::linordered_idom env \<Rightarrow> 'd sys \<Rightarrow> 'd sys \<Rightarrow> bool" for e where
  submit: "0 \<le> eQuantity ev \<Longrightarrow> CoinhubOrderEventDispatcher (hEventType (eHeader ev)) \<in> set engine_topics \<Longrightarrow>
     sys_step e s (s\<lparr>sysTopic := sysTopic s @ [ev]\<rparr>)"
| consume: "first_of_pair i (sysTopic s) \<Longrightarrow> ev = sysTopic s ! i \<Longrightarrow>
     engine_consume f e n ev (sysDb s) (sysEngine s) = Sent (err, db', me') \<Longrightarrow>
     sys_step e s (s\<lparr>sysEngine := me', sysDb := db', sysTopic := remove_nth i (sysTopic s),
        sysRouted := (if err = None \<and> has_worker (ePair ev) (sysEngine s)
                      then (sysRouted s)(ePair ev := sysRouted s (ePair ev) @ [order_of_event e n ev])
                      else sysRouted s)\<rparr>)"
| work: "worker_turn e n p (sysEngine s) = Some (order, me', out) \<Longrightarrow>
     sys_step e s (s\<lparr>sysEngine := me', sysTopic := sysTopic s @ engine_feed out,
        sysDone := (sysDone s)(p := sysDone s p @ [order]), sysTrades := sysTrades s @ trades_of out\<rparr>)"
| reap: "reaper_tick e n (sysEngine s) = Some (me', out) \<Longrightarrow>
     sys_step e s (s\<lparr>sysEngine := me', sysTopic := sysTopic s @ engine_feed out\<rparr>)"

inductive_cases sys_stepE: "sys_step e s s'"

definition sys_init :: "'d::linordered_idom sys \<Rightarrow> bool" where
  "sys_init s = (sysTopic s = [] \<and> (\<forall>p. sysRouted s p = [] \<and> sysDone s p = []) \<and> sysTrades s = [] \<and>
     meReaper (sysEngine s) = [] \<and>
     (\<exists>pairs. meBooks (sysEngine s) = initializeOrderbooks pairs \<and>
        initializeOrderRouter pairs = Some (meRouter (sysEngine s))))"

inductive sys_reach :: "'d::linordered_idom env \<Rightarrow> 'd sys \<Rightarrow> bool" for e where
  init: "sys_init s \<Longrightarrow> sys_reach e s"
| step: "sys_reach e s \<Longrightarrow> sys_step e s s' \<Longrightarrow> sys_reach e s'"

locale sys_invariant =
  fixes e :: "'d::linordered_idom env" and I :: "'d sys \<Rightarrow> bool"
  assumes at_init: "sys_init s \<Longrightarrow> I s"
    and at_step: "I s \<Longrightarrow> sys_step e s s' \<Longrightarrow> I s'"
begin

lemma reach: "sys_reach e s \<Longrightarrow> I s"
  by (induction rule: sys_reach.induct) (auto intro: at_init at_step)

end

subsection \<open>What a turn does to the engine\<close>

lemma reaper_idle: "meReaper me = [] \<Longrightarrow> reaper_tick e n me = Some (me, [])"
  by (subst reaper_tick.simps) (simp add: br_Len_def)

lemma addOrder_Sent:
  "addOrder p o1 r = Sent r' \<Longrightarrow> \<exists>w. r = Some w \<and>
     ((w p = None \<and> r' = r) \<or>
      (\<exists>ch. w p = Some ch \<and> length ch < OrderChanBufferSize \<and> r' = Some (w(p \<mapsto> ch @ [o1]))))"
  by (auto simp: addOrder_def split: option.splits if_splits)

lemma consume_engine:
  assumes "engine_consume f e n ev db me = Sent (err, db', me')"
  shows "meBooks me' = meBooks me \<and> meReaper me' = meReaper me \<and>
     (me' = me \<and> (err = None \<longrightarrow> \<not> has_worker (ePair ev) me) \<or>
      (err = None \<and> has_worker (ePair ev) me \<and> (\<exists>w ch. meRouter me = Some w \<and> w (ePair ev) = Some ch \<and> length ch < OrderChanBufferSize \<and>
         meRouter me' = Some (w(ePair ev \<mapsto> ch @ [order_of_event e n ev])))))"
proof (cases "ValidateOrderStatusEvent ev")
  case None
  obtain e1 db1 where h: "HandleIncmingOrder f OrderSubmittedConsumerGroupID ev db = (e1, db1)" by fastforce
  show ?thesis
  proof (cases e1)
    case None
    then obtain r where r: "addOrder (ePair ev) (order_of_event e n ev) (meRouter me) = Sent r"
      "err = None" "me' = me\<lparr>meRouter := r\<rparr>"
      using assms h \<open>ValidateOrderStatusEvent ev = None\<close>
      by (auto simp: engine_consume_def routeOrderEventFanOut_def split: send.splits)
    from addOrder_Sent [OF r(1)] r(2,3) show ?thesis by (auto simp: has_worker_def)
  qed (use assms h None in \<open>auto simp: engine_consume_def\<close>)
qed (use assms in \<open>auto simp: engine_consume_def\<close>)

lemma router_books:
  assumes "orderTypeRouter e n o1 me = Some (err, me', out)"
  shows "meRouter me' = meRouter me \<and> meReaper me' = meReaper me \<and>
     (meBooks me (oPair o1) = None \<and> meBooks me' = meBooks me \<and> out = [] \<or>
      (\<exists>ob r. meBooks me (oPair o1) = Some ob \<and> meBooks me' = (meBooks me)(oPair o1 \<mapsto> fst (snd r)) \<and>
         out = snd (snd r) \<and> (r = MatchLimit e n ob o1 \<or> r = MatchMarket e n ob o1 \<or>
           Cancel None o1 ob = Some r \<or> r = (None, ob, []))))"
proof (cases "meBooks me (oPair o1)")
  case None
  then show ?thesis using assms by (simp add: orderTypeRouter_def)
next
  case (Some ob)
  let ?r = "if oType o1 = OrderTypeLimit then Some (MatchLimit e n ob o1)
            else if oType o1 = OrderTypeMarket then Some (MatchMarket e n ob o1)
            else if oType o1 = OrderTypeCancel then Cancel None o1 ob
            else Some (None, ob, [])"
  obtain r where r: "?r = Some r" "me' = me\<lparr>meBooks := (meBooks me)(oPair o1 \<mapsto> fst (snd r))\<rparr>" "out = snd (snd r)"
    using assms by (auto simp: orderTypeRouter_def Some Let_def split: option.splits)
  from r(1) have "r = MatchLimit e n ob o1 \<or> r = MatchMarket e n ob o1 \<or> Cancel None o1 ob = Some r \<or>
      r = (None, ob, [])" by (auto split: if_splits)
  moreover have "meRouter me' = meRouter me \<and> meReaper me' = meReaper me"
    and "meBooks me' = (meBooks me)(oPair o1 \<mapsto> fst (snd r))" by (simp_all add: r(2))
  ultimately show ?thesis using Some r(3) by blast
qed

lemma worker_turn_engine:
  assumes "worker_turn e n p me = Some (o1, me', out)"
  obtains w rest err where "meRouter me = Some w" "w p = Some (o1 # rest)"
    "meRouter me' = Some (w(p \<mapsto> rest))"
    "orderTypeRouter e n o1 (me\<lparr>meRouter := Some (w(p \<mapsto> rest))\<rparr>) = Some (err, me', out)"
proof -
  from assms obtain w where w: "meRouter me = Some w" by (auto simp: worker_turn_def split: option.splits)
  with assms obtain x rest where x: "w p = Some (x # rest)"
    by (auto simp: worker_turn_def split: option.splits list.splits)
  with assms w obtain err where r: "orderTypeRouter e n x (me\<lparr>meRouter := Some (w(p \<mapsto> rest))\<rparr>) = Some (err, me', out)"
    and "x = o1" by (auto simp: worker_turn_def split: option.splits)
  with router_books [OF r] that w x show ?thesis by auto
qed

subsection \<open>First in, first out\<close>

text \<open>What is routed to a pair is what its worker has processed and what waits in its channel.\<close>

definition channel :: "string \<Rightarrow> 'd engine \<Rightarrow> 'd order list" where
  "channel p me = (case meRouter me of None \<Rightarrow> []
     | Some w \<Rightarrow> (case w p of None \<Rightarrow> [] | Some ch \<Rightarrow> ch))"

definition fifo :: "'d sys \<Rightarrow> bool" where
  "fifo s = (meReaper (sysEngine s) = [] \<and>
     (\<forall>p. sysRouted s p = sysDone s p @ channel p (sysEngine s) \<and>
        length (channel p (sysEngine s)) \<le> OrderChanBufferSize))"

lemma foldl_channels:
  "(foldl (\<lambda>w a. case spSymbol a of None \<Rightarrow> w | Some s \<Rightarrow> w(s \<mapsto> [])) w0 pairs) p \<in> {None, Some []}"
  if "w0 p \<in> {None, Some []}"
  using that by (induction pairs arbitrary: w0) (auto split: option.split)

lemma init_channels:
  assumes "initializeOrderRouter pairs = Some r"
  shows "channel p (me\<lparr>meRouter := r\<rparr>) = []"
proof (cases r)
  case (Some w)
  with assms have "w = foldl (\<lambda>w a. case spSymbol a of None \<Rightarrow> w | Some s \<Rightarrow> w(s \<mapsto> [])) Map.empty pairs"
    by (auto simp: initializeOrderRouter_def split: option.splits bool.splits)
  with foldl_channels [of Map.empty p pairs] have "w p = None \<or> w p = Some []" by simp
  then show ?thesis by (auto simp: channel_def Some)
qed (simp add: channel_def)

lemma consume_channel:
  assumes "engine_consume f e n ev db me = Sent (err, db', me')" and "length (channel p me) \<le> OrderChanBufferSize"
  shows "channel p me' = channel p me @
      (if err = None \<and> has_worker (ePair ev) me \<and> p = ePair ev then [order_of_event e n ev] else []) \<and>
     length (channel p me') \<le> OrderChanBufferSize \<and> meReaper me' = meReaper me"
  using consume_engine [OF assms(1)] assms(2) by (auto simp: channel_def has_worker_def)

lemma worker_channel:
  assumes "worker_turn e n p me = Some (o1, me', out)"
  shows "meReaper me' = meReaper me \<and> channel q me = (if q = p then o1 # channel p me' else channel q me')"
proof -
  obtain w rest err where w: "meRouter me = Some w" "w p = Some (o1 # rest)"
    "meRouter me' = Some (w(p \<mapsto> rest))"
    "orderTypeRouter e n o1 (me\<lparr>meRouter := Some (w(p \<mapsto> rest))\<rparr>) = Some (err, me', out)"
    by (rule worker_turn_engine [OF assms])
  from router_books [OF w(4)] w(1-3) show ?thesis by (simp add: channel_def)
qed

lemma fifo_step:
  assumes "fifo s" and "sys_step e s s'"
  shows "fifo s'"
  using assms(2)
proof cases
  case (consume i ev f n err db' me')
  have len: "length (channel p (sysEngine s)) \<le> OrderChanBufferSize" for p using assms(1) by (simp add: fifo_def)
  note c = consume_channel [OF consume(4) len]
  have "length (channel p me') \<le> OrderChanBufferSize" for p using c [of p] by blast
  moreover have "meReaper me' = []" using c assms(1) unfolding fifo_def by metis
  moreover have "sysRouted s' p = sysDone s p @ channel p me'" for p
    using c [of p] assms(1) by (simp add: fifo_def consume(1))
  ultimately show ?thesis by (simp add: fifo_def consume(1))
next
  case (work n p order me' out)
  note c = worker_channel [OF work(2)]
  have "length (channel q me') \<le> OrderChanBufferSize" for q
    using c [of q] assms(1) by (auto simp: fifo_def split: if_splits dest: spec [of _ q])
  moreover have "sysRouted s q = ((sysDone s)(p := sysDone s p @ [order])) q @ channel q me'" for q
    using c [of q] assms(1) by (auto simp: fifo_def split: if_splits)
  ultimately show ?thesis using assms(1) c [of p] by (simp add: fifo_def work(1))
next
  case (reap n me' out)
  have "me' = sysEngine s" using reap(2) assms(1) by (simp add: fifo_def reaper_idle)
  then show ?thesis using assms(1) by (simp add: fifo_def reap(1))
qed (use assms(1) in \<open>simp add: fifo_def\<close>)

interpretation fifo_inv: sys_invariant e fifo for e
proof
  fix s :: "'a sys"
  assume i: "sys_init s"
  then obtain pairs where r: "initializeOrderRouter pairs = Some (meRouter (sysEngine s))" by (auto simp: sys_init_def)
  from init_channels [OF r, of _ "sysEngine s"] i show "fifo s" by (simp add: fifo_def sys_init_def)
qed (rule fifo_step)

subsection \<open>Well-formed books\<close>

definition books_wf :: "'d::linordered_idom sys \<Rightarrow> bool" where
  "books_wf s = ((\<forall>p ob. meBooks (sysEngine s) p = Some ob \<longrightarrow> book_ok ob) \<and>
     (\<forall>p. \<forall>o1 \<in> set (channel p (sysEngine s)). order_ok o1) \<and>
     (\<forall>ev \<in> set (sysTopic s). 0 \<le> eQuantity ev) \<and> meReaper (sysEngine s) = [])"

lemma balanced_quantity: "event_balanced ev \<Longrightarrow> 0 \<le> eQuantity ev"
  by (auto simp: event_balanced_def)

lemma init_books:
  "initializeOrderbooks pairs p = Some ob \<Longrightarrow> \<exists>s. ob = empty_book s"
proof -
  have gen: "\<forall>q b. m q = Some b \<longrightarrow> (\<exists>s. b = empty_book s) \<Longrightarrow>
      \<forall>q b. foldl (\<lambda>books a. case spSymbol a of None \<Rightarrow> books | Some s \<Rightarrow> books(s \<mapsto> empty_book s)) m pairs q = Some b
        \<longrightarrow> (\<exists>s. b = empty_book s)" for m :: "string \<Rightarrow> 'a book option"
  proof (induction pairs arbitrary: m)
    case (Cons a pairs)
    show ?case unfolding foldl_Cons by (rule Cons.IH) (use Cons.prems in \<open>auto split: option.split\<close>)
  qed simp
  then show "initializeOrderbooks pairs p = Some ob \<Longrightarrow> \<exists>s. ob = empty_book s"
    using gen [of Map.empty] by (simp add: initializeOrderbooks_def)
qed

lemma router_books_wf:
  assumes "orderTypeRouter e n o1 me = Some (err, me', out)" and "order_ok o1"
    and "\<forall>p ob. meBooks me p = Some ob \<longrightarrow> book_ok ob"
  shows "(\<forall>p ob. meBooks me' p = Some ob \<longrightarrow> book_ok ob) \<and> (\<forall>ev \<in> set (order_events_of out). 0 \<le> eQuantity ev)"
proof -
  have one: "book_ok (fst (snd r)) \<and> (\<forall>ev \<in> set (order_events_of (snd (snd r))). 0 \<le> eQuantity ev)"
    if "book_ok ob" and r: "r = MatchLimit e n ob o1 \<or> r = MatchMarket e n ob o1 \<or>
      Cancel None o1 ob = Some r \<or> r = (None, ob, [])" for ob r
    using r
  proof (elim disjE)
    assume "r = MatchLimit e n ob o1"
    with limit_book_ok [OF that(1) assms(2)] limit_events_balanced [OF that(1) assms(2)]
    show ?thesis using balanced_quantity by metis
  next
    assume "r = MatchMarket e n ob o1"
    with market_book_ok [OF that(1) assms(2)] market_events_balanced [OF that(1) assms(2)]
    show ?thesis using balanced_quantity by metis
  next
    assume "Cancel None o1 ob = Some r"
    then have "r = (Some ErrOrderNotFoundInOrderbook, snd (RemoveOrderByOrderID (oSide o1) (oID o1) (oPrice o1) ob), [])"
      by (simp add: Cancel_result)
    then show ?thesis using remove_book_ok [OF that(1)] by simp
  qed (use that(1) in simp)
  consider "meBooks me' = meBooks me" "out = []"
    | ob r where "meBooks me (oPair o1) = Some ob" "meBooks me' = (meBooks me)(oPair o1 \<mapsto> fst (snd r))"
      "out = snd (snd r)" "r = MatchLimit e n ob o1 \<or> r = MatchMarket e n ob o1 \<or>
           Cancel None o1 ob = Some r \<or> r = (None, ob, [])"
    using router_books [OF assms(1)] by blast
  then show ?thesis
  proof cases
    case (2 ob r)
    have "book_ok ob" using assms(3) 2(1) by blast
    from one [OF this 2(4)] assms(3) show ?thesis by (simp add: 2(2,3))
  qed (use assms(3) in simp)
qed

lemma books_wf_step:
  assumes "books_wf s" and "sys_step e s s'"
  shows "books_wf s'"
  using assms(2)
proof cases
  case (consume i ev f n err db' me')
  have "0 \<le> eQuantity ev"
    using assms(1) consume(2,3) by (auto simp: books_wf_def first_of_pair_def)
  then have "order_ok (order_of_event e n ev)" by (simp add: order_ok_def)
  moreover have "set (sysTopic s') \<subseteq> set (sysTopic s)" by (simp add: consume(1) set_remove_nth)
  moreover have "set (channel p me') \<subseteq> insert (order_of_event e n ev) (set (channel p (sysEngine s)))" for p
    using consume_channel [OF consume(4), of p] consume_engine [OF consume(4)]
    by (cases "p = ePair ev") (auto simp: channel_def)
  moreover have "meBooks me' = meBooks (sysEngine s)" "meReaper me' = meReaper (sysEngine s)"
    using consume_engine [OF consume(4)] by auto
  ultimately show ?thesis using assms(1) unfolding books_wf_def by (simp add: consume(1)) blast
next
  case (work n p order me' out)
  obtain w rest err where w: "meRouter (sysEngine s) = Some w" "w p = Some (order # rest)"
    "meRouter me' = Some (w(p \<mapsto> rest))"
    "orderTypeRouter e n order ((sysEngine s)\<lparr>meRouter := Some (w(p \<mapsto> rest))\<rparr>) = Some (err, me', out)"
    by (rule worker_turn_engine [OF work(2)])
  have ch: "channel q (sysEngine s) = (if q = p then order # channel p me' else channel q me')"
    and rp: "meReaper me' = meReaper (sysEngine s)" for q
    using worker_channel [OF work(2), of q] worker_channel [OF work(2), of p] by auto
  have "order \<in> set (channel p (sysEngine s))" using ch [of p] by simp
  then have "order_ok order" using assms(1) unfolding books_wf_def by blast
  from router_books_wf [OF w(4) this] assms(1)
  have bk: "\<forall>p ob. meBooks me' p = Some ob \<longrightarrow> book_ok ob" "\<forall>ev \<in> set (order_events_of out). 0 \<le> eQuantity ev"
    by (auto simp: books_wf_def)
  have "\<forall>o1 \<in> set (channel q me'). order_ok o1" for q
    using assms(1) ch [of q] by (auto simp: books_wf_def split: if_splits dest!: spec [of _ q])
  then show ?thesis using assms(1) bk rp by (auto simp: books_wf_def work(1) engine_feed_def)
next
  case (reap n me' out)
  have "me' = sysEngine s \<and> out = []" using reap(2) assms(1) by (simp add: books_wf_def reaper_idle)
  then show ?thesis using assms(1) by (simp add: books_wf_def reap(1) engine_feed_def)
qed (use assms(1) in \<open>auto simp: books_wf_def\<close>)

interpretation books_wf_inv: sys_invariant e books_wf for e
proof
  fix s :: "'a sys"
  assume i: "sys_init s"
  then obtain pairs where r: "initializeOrderRouter pairs = Some (meRouter (sysEngine s))"
    and b: "meBooks (sysEngine s) = initializeOrderbooks pairs" by (auto simp: sys_init_def)
  have "book_ok ob" if "meBooks (sysEngine s) p = Some ob" for p ob
    using init_books [of pairs p ob] that b by auto
  with init_channels [OF r, of _ "sysEngine s"] i show "books_wf s" by (simp add: books_wf_def sys_init_def)
qed (rule books_wf_step)

subsection \<open>Empty books stay empty\<close>

definition books_empty :: "'d::linordered_idom sys \<Rightarrow> bool" where
  "books_empty s = ((\<forall>p ob. meBooks (sysEngine s) p = Some ob \<longrightarrow> sLevels (obBids ob) = [] \<and> sLevels (obAsks ob) = []) \<and>
     sysTrades s = [] \<and> meReaper (sysEngine s) = [])"

lemma remove_on_empty: "sLevels s = [] \<Longrightarrow> sLevels (remove_on_side st i p s) = []"
  by (simp add: remove_on_side_def GetLevel_def RemoveEmptyLevel_def)

lemma match_on_empty:
  assumes "sLevels (obBids ob) = []" "sLevels (obAsks ob) = []"
    and r: "r = MatchLimit e n ob o1 \<or> r = MatchMarket e n ob o1 \<or> Cancel None o1 ob = Some r \<or> r = (None, ob, [])"
  shows "sLevels (obBids (fst (snd r))) = [] \<and> sLevels (obAsks (fst (snd r))) = [] \<and>
     order_events_of (snd (snd r)) = [] \<and> trades_of (snd (snd r)) = []"
proof -
  have "MatchLimit e n ob o1 = (Some ErrOrderbookEmpty, ob, [])" "MatchMarket e n ob o1 = (Some ErrOrderbookEmpty, ob, [])"
    using assms(1,2) by (simp_all add: MatchLimit_def match_limit_buy_def match_limit_sell_def
        MatchMarket_def match_market_buy_def match_market_sell_def)
  moreover have "sLevels (obBids (fst (snd r))) = [] \<and> sLevels (obAsks (fst (snd r))) = [] \<and> snd (snd r) = []"
    if "Cancel None o1 ob = Some r"
    using that assms(1,2) by (auto simp: Cancel_result RemoveOrderByOrderID_def remove_on_empty)
  ultimately show ?thesis using r assms(1,2) by auto
qed

lemma books_empty_step:
  assumes "books_empty s" and "sys_step e s s'"
  shows "books_empty s'"
  using assms(2)
proof cases
  case (consume i ev f n err db' me')
  show ?thesis using assms(1) consume_engine [OF consume(4)] by (simp add: books_empty_def consume(1))
next
  case (work n p order me' out)
  obtain w rest err where w: "orderTypeRouter e n order ((sysEngine s)\<lparr>meRouter := Some (w(p \<mapsto> rest))\<rparr>) = Some (err, me', out)"
    using worker_turn_engine [OF work(2)] by metis
  have upd: "meBooks ((sysEngine s)\<lparr>meRouter := x\<rparr>) = meBooks (sysEngine s)" for x by simp
  have "(\<forall>p ob. meBooks me' p = Some ob \<longrightarrow> sLevels (obBids ob) = [] \<and> sLevels (obAsks ob) = []) \<and>
      meReaper me' = [] \<and> trades_of out = []"
  proof -
    consider "meBooks me' = meBooks (sysEngine s)" "out = []"
      | ob r where "meBooks (sysEngine s) (oPair order) = Some ob"
        "meBooks me' = (meBooks (sysEngine s))(oPair order \<mapsto> fst (snd r))" "out = snd (snd r)"
        "r = MatchLimit e n ob order \<or> r = MatchMarket e n ob order \<or>
           Cancel None order ob = Some r \<or> r = (None, ob, [])"
      using router_books [OF w, unfolded upd] by blast
    then show ?thesis
    proof cases
      case (2 ob r)
      have "sLevels (obBids ob) = []" "sLevels (obAsks ob) = []" using assms(1) 2(1) by (auto simp: books_empty_def)
      from match_on_empty [OF this 2(4)] assms(1) conjunct1 [OF conjunct2 [OF router_books [OF w]]] show ?thesis
        by (simp add: 2(2,3) books_empty_def)
    qed (use assms(1) conjunct1 [OF conjunct2 [OF router_books [OF w]]] in \<open>simp add: books_empty_def\<close>)
  qed
  then show ?thesis using assms(1) by (simp add: books_empty_def work(1))
next
  case (reap n me' out)
  have "me' = sysEngine s" using reap(2) assms(1) by (simp add: books_empty_def reaper_idle)
  then show ?thesis using assms(1) by (simp add: books_empty_def reap(1))
qed (use assms(1) in \<open>simp add: books_empty_def\<close>)

interpretation books_empty_inv: sys_invariant e books_empty for e
proof
  fix s :: "'a sys"
  assume i: "sys_init s"
  then obtain pairs where b: "meBooks (sysEngine s) = initializeOrderbooks pairs" by (auto simp: sys_init_def)
  have "sLevels (obBids ob) = [] \<and> sLevels (obAsks ob) = []" if "meBooks (sysEngine s) p = Some ob" for p ob
    using init_books [of pairs p ob] that b by (auto simp: empty_book_def NewSide_def)
  with i show "books_empty s" by (simp add: books_empty_def sys_init_def)
qed (rule books_empty_step)

subsection \<open>A run\<close>

text \<open>Start-up with one pair, a submission, and its consumption.\<close>

definition sample_engine :: "int order list \<Rightarrow> int engine" where
  "sample_engine ch = \<lparr> meBooks = [''BTC-USDT'' \<mapsto> empty_book ''BTC-USDT''],
     meRouter = Some [''BTC-USDT'' \<mapsto> ch], meReaper = [] \<rparr>"

definition sample_submission :: "int order_event" where
  "sample_submission = sample_event
     \<lparr>eHeader := \<lparr> hEventID = ''e1'', hEventType = EventOrderSubmitted, hVersion = ''v1'', hOccuredAt = 7 \<rparr>\<rparr>"

definition sample_sys :: "int order_db \<Rightarrow> int order_event list \<Rightarrow> int order list \<Rightarrow> int sys" where
  "sample_sys db evs ch = \<lparr> sysEngine = sample_engine ch, sysDb = db, sysTopic = evs,
     sysRouted = (\<lambda>_. [])(''BTC-USDT'' := ch), sysDone = (\<lambda>_. []), sysTrades = [] \<rparr>"

definition no_rows :: "int order_db" where
  "no_rows = \<lparr> dbOrders = [], dbTrades = [], dbProcessed = [] \<rparr>"

lemma sample_reach:
  "\<exists>db. sys_reach sample_env (sample_sys db [] [order_of_event sample_env 4 sample_submission])"
proof -
  let ?pairs = "[\<lparr> spID = ''1'', spSymbol = Some ''BTC-USDT'' \<rparr>]"
  have "initializeOrderRouter ?pairs = Some (Some [''BTC-USDT'' \<mapsto> ([] :: int order list)])"
    by (simp add: initializeOrderRouter_def fixSupportedPairLight_def contains_char_def)
  then have "sys_init (sample_sys no_rows [] [])"
    unfolding sys_init_def
    by (intro conjI exI [of _ ?pairs]) (simp_all add: sample_sys_def sample_engine_def initializeOrderbooks_def)
  then have r0: "sys_reach sample_env (sample_sys no_rows [] [])" by (rule sys_reach.init)
  have p: "ePair sample_submission = ''BTC-USDT''"
    and v: "ValidateOrderStatusEvent sample_submission = None" and q: "0 \<le> eQuantity sample_submission"
    and t: "CoinhubOrderEventDispatcher (hEventType (eHeader sample_submission)) \<in> set engine_topics"
    by code_simp+
  have r1: "sys_reach sample_env (sample_sys no_rows [sample_submission] [])"
    using sys_reach.step [OF r0 sys_step.submit [OF q t]] by (simp add: sample_sys_def)
  obtain db where h: "HandleIncmingOrder None OrderSubmittedConsumerGroupID sample_submission no_rows = (None, db)"
    by (simp add: HandleIncmingOrder_def MarkEvent_def MarkEventProcessed_def sample_submission_def no_rows_def
        split: prod.splits option.splits)
  let ?o = "order_of_event sample_env 4 sample_submission"
  have c: "engine_consume None sample_env 4 sample_submission no_rows (sample_engine []) =
      Sent (None, db, sample_engine [?o])"
    by (simp add: engine_consume_def v h routeOrderEventFanOut_def addOrder_def p sample_engine_def OrderChanBufferSize_def)
  have f: "first_of_pair 0 (sysTopic (sample_sys no_rows [sample_submission] []))"
    by (simp add: first_of_pair_def sample_sys_def)
  have "sys_step sample_env (sample_sys no_rows [sample_submission] []) (sample_sys db [] [?o])"
    using sys_step.consume [OF f, of sample_submission None sample_env 4 None db "sample_engine [?o]"] c
    by (simp add: sample_sys_def p has_worker_def remove_nth_def sample_engine_def)
  with sys_reach.step [OF r1] show ?thesis by blast
qed

subsection \<open>Properties\<close>



text \<open>C4: Each pair's orders are processed in the sequence in which they were routed, none lost and none
  twice: at any time what has been routed is what the worker has processed followed by what its channel
  holds, and the channel holds at most its capacity.\<close>

theorem reachable_orders_fifo:
  assumes "sys_reach e s"
  shows "sysRouted s p = sysDone s p @ channel p (sysEngine s) \<and>
     length (channel p (sysEngine s)) \<le> OrderChanBufferSize"
  using fifo_inv.reach [OF assms] by (simp add: fifo_def)

theorem reachable_orders_fifo_witness:
  "\<exists>db ch. length ch = 1 \<and> sysRouted (sample_sys db [] ch) ''BTC-USDT'' =
     sysDone (sample_sys db [] ch) ''BTC-USDT'' @ channel ''BTC-USDT'' (sysEngine (sample_sys db [] ch))"
proof -
  obtain db where "sys_reach sample_env (sample_sys db [] [order_of_event sample_env 4 sample_submission])"
    using sample_reach by blast
  from reachable_orders_fifo [OF this, of "''BTC-USDT''"] show ?thesis
    by (intro exI [of _ db] exI [of _ "[order_of_event sample_env 4 sample_submission]"]) simp
qed

text \<open>C14: From start-up on, whatever orders are submitted and however the turns interleave, no order ever
  rests on a book and no trade is ever published: a limit order only rests after it has traded, and a
  book that starts empty never gets its first order.\<close>

theorem reachable_books_stay_empty:
  assumes "sys_reach e s"
  shows "sysTrades s = [] \<and> (\<forall>p ob. meBooks (sysEngine s) p = Some ob \<longrightarrow>
     sLevels (obBids ob) = [] \<and> sLevels (obAsks ob) = [])"
  using books_empty_inv.reach [OF assms] by (simp add: books_empty_def)

theorem reachable_books_stay_empty_witness:
  "\<exists>db ch. length ch = 1 \<and> sysTrades (sample_sys db [] ch) = []"
proof -
  obtain db where "sys_reach sample_env (sample_sys db [] [order_of_event sample_env 4 sample_submission])"
    using sample_reach by blast
  from reachable_books_stay_empty [OF this] show ?thesis
    by (intro exI [of _ db] exI [of _ "[order_of_event sample_env 4 sample_submission]"]) simp
qed

text \<open>Consuming an accepted event marks it, and routes it whether it was marked before or not.\<close>

lemma consume_accepted:
  assumes "ValidateOrderStatusEvent ev = None" and "hEventID (eHeader ev) \<noteq> []"
    and "meRouter me = Some w" and "w (ePair ev) = Some ch" and "length ch < OrderChanBufferSize"
  shows "\<exists>db'. engine_consume None e n ev db me =
       Sent (None, db', me\<lparr>meRouter := Some (w(ePair ev \<mapsto> ch @ [order_of_event e n ev]))\<rparr>) \<and>
     hEventID (eHeader ev) \<in> peEventID ` set (dbProcessed db') \<and>
     (hEventID (eHeader ev) \<in> peEventID ` set (dbProcessed db) \<longrightarrow> db' = db)"
  using assms
  by (auto simp: engine_consume_def HandleIncmingOrder_def MarkEvent_def MarkEventProcessed_def NewProcessedOrderEvent_def
      routeOrderEventFanOut_def addOrder_def Let_def)

text \<open>C5: The mark of a processed event stops nothing: when the broker delivers an accepted submission a second time, as it
  does after a commit that failed, the engine routes a second order for it, with an ID of its own and the full
  quantity, behind the first one.\<close>

theorem redelivered_order_is_routed_twice:
  assumes "ValidateOrderStatusEvent ev = None" and "hEventID (eHeader ev) \<noteq> []"
    and "meRouter me = Some w" and "w (ePair ev) = Some ch" and "Suc (length ch) < OrderChanBufferSize"
  shows "\<exists>db1 me1. engine_consume None e n1 ev db me = Sent (None, db1, me1) \<and>
     hEventID (eHeader ev) \<in> peEventID ` set (dbProcessed db1) \<and>
     engine_consume None e n2 ev db1 me1 = Sent (None, db1, me1\<lparr>meRouter :=
       Some (w(ePair ev \<mapsto> ch @ [order_of_event e n1 ev, order_of_event e n2 ev]))\<rparr>)"
proof -
  obtain db1 where 1: "engine_consume None e n1 ev db me =
      Sent (None, db1, me\<lparr>meRouter := Some (w(ePair ev \<mapsto> ch @ [order_of_event e n1 ev]))\<rparr>)"
    "hEventID (eHeader ev) \<in> peEventID ` set (dbProcessed db1)"
    using consume_accepted [OF assms(1-4), of e n1 db] assms(5) by auto
  let ?me1 = "me\<lparr>meRouter := Some (w(ePair ev \<mapsto> ch @ [order_of_event e n1 ev]))\<rparr>"
  have "engine_consume None e n2 ev db1 ?me1 = Sent (None, db1, ?me1\<lparr>meRouter :=
       Some (w(ePair ev \<mapsto> ch @ [order_of_event e n1 ev, order_of_event e n2 ev]))\<rparr>)"
    using consume_accepted [OF assms(1,2), of ?me1 "w(ePair ev \<mapsto> ch @ [order_of_event e n1 ev])"
        "ch @ [order_of_event e n1 ev]" e n2 db1] 1(2) assms(5) by auto
  with 1 show ?thesis by blast
qed

theorem redelivered_order_is_routed_twice_witness:
  "\<exists>db1 me1 o1 o2. engine_consume None sample_env 3 sample_submission no_rows (sample_engine []) = Sent (None, db1, me1) \<and>
     engine_consume None sample_env 7 sample_submission db1 me1 =
       Sent (None, db1, me1\<lparr>meRouter := Some [''BTC-USDT'' \<mapsto> [o1, o2]]\<rparr>) \<and>
     oID o1 \<noteq> oID o2 \<and> oQuantity o1 + oQuantity o2 = 2 * eQuantity sample_submission"
proof -
  have h: "ValidateOrderStatusEvent sample_submission = None" "hEventID (eHeader sample_submission) \<noteq> []"
    by code_simp+
  have p: "ePair sample_submission = ''BTC-USDT''" by code_simp
  have r: "meRouter (sample_engine []) = Some [''BTC-USDT'' \<mapsto> []]" by (simp add: sample_engine_def)
  have c: "[''BTC-USDT'' \<mapsto> []] (ePair sample_submission) = Some []" "Suc (length []) < OrderChanBufferSize"
    by (simp_all add: p OrderChanBufferSize_def)
  let ?o = "\<lambda>n. order_of_event sample_env n sample_submission"
  have o: "oID (?o 3) \<noteq> oID (?o 7) \<and> oQuantity (?o 3) + oQuantity (?o 7) = 2 * eQuantity sample_submission"
    by (simp add: order_of_event_def NewOrder_def sample_env_def Let_def)
  have w: "[''BTC-USDT'' \<mapsto> []](ePair sample_submission \<mapsto> [] @ [?o 3, ?o 7]) = [''BTC-USDT'' \<mapsto> [?o 3, ?o 7]]"
    by (simp add: p)
  from redelivered_order_is_routed_twice [OF h r c, of sample_env 3 no_rows 7, unfolded w] o show ?thesis by blast
qed

end
