(* ===== verification/Text_Numbers.thy ===== *)
theory Text_Numbers
  imports Prelude "HOL-Library.Word"
begin

text \<open>
  The parts of Go's \<^verbatim>\<open>fmt\<close>, \<^verbatim>\<open>strconv\<close> and \<^verbatim>\<open>encoding/base64\<close> that the sources call: printing an integer with
  \<^verbatim>\<open>%d\<close>, reading one back with \<^verbatim>\<open>Fscanf\<close> from what is left of a reader, and the unpadded standard base64
  with strict decoding. A byte slice is a byte string. The lemmas are the round trips.
\<close>

subsection \<open>Integers\<close>

definition digit_char :: "nat \<Rightarrow> char" where
  "digit_char d = char_of (48 + d)"

fun dec_digits :: "nat \<Rightarrow> string" where
  "dec_digits n = (if n < 10 then [digit_char n] else dec_digits (n div 10) @ [digit_char (n mod 10)])"

declare dec_digits.simps [simp del]

definition fmt_int :: "int \<Rightarrow> string" where
  "fmt_int i = (if i < 0 then CHR ''-'' # dec_digits (nat (- i)) else dec_digits (nat i))"

definition read_nat :: "string \<Rightarrow> nat" where
  "read_nat s = foldl (\<lambda>a c. 10 * a + (of_char c - 48)) 0 s"

text \<open>\<^verbatim>\<open>Fscanf\<close> skips spaces before a verb, but a line break there is an error (\<open>None\<close>).\<close>

fun skip_space :: "string \<Rightarrow> string option" where
  "skip_space [] = Some []"
| "skip_space (c # s) =
     (if c = CHR 0x0D \<and> s \<noteq> [] \<and> hd s = CHR 0x0A then skip_space s
      else if c = CHR 0x0A then None
      else if is_space c then skip_space s else Some (c # s))"

definition scan_uint :: "nat \<Rightarrow> string \<Rightarrow> (nat \<times> string) option" where
  "scan_uint bits s =
     (case skip_space s of
        None \<Rightarrow> None
      | Some t \<Rightarrow>
          (let tok = takeWhile is_digit t
           in if tok = [] \<or> 2 ^ bits \<le> read_nat tok then None
              else Some (read_nat tok, dropWhile is_digit t)))"

definition scan_int :: "string \<Rightarrow> (int \<times> string) option" where
  "scan_int s =
     (case skip_space s of
        None \<Rightarrow> None
      | Some t \<Rightarrow>
          (let neg = (t \<noteq> [] \<and> hd t = CHR ''-'');
               u = (if t \<noteq> [] \<and> (hd t = CHR ''-'' \<or> hd t = CHR ''+'') then tl t else t);
               tok = takeWhile is_digit u;
               i = (if neg then - int (read_nat tok) else int (read_nat tok))
           in if tok = [] \<or> i < - (2 ^ 63) \<or> 2 ^ 63 \<le> i then None
              else Some (i, dropWhile is_digit u)))"

text \<open>The literal characters of a format must be the next ones of the input.\<close>

definition scan_lit :: "string \<Rightarrow> string \<Rightarrow> string option" where
  "scan_lit fmt s = (if take (length fmt) s = fmt then Some (drop (length fmt) s) else None)"

lemma of_digit_char: "d < 10 \<Longrightarrow> of_char (digit_char d) = (48 + d :: nat)"
  by (simp add: digit_char_def of_char_of)

lemma is_digit_digit_char [simp]: "d < 10 \<Longrightarrow> is_digit (digit_char d)"
  by (simp add: is_digit_def of_digit_char)

lemma dec_digits_digits: "c \<in> set (dec_digits n) \<Longrightarrow> is_digit c"
proof (induction n rule: dec_digits.induct)
  case (1 n)
  then show ?case by (cases "n < 10") (auto simp: dec_digits.simps [of n])
qed

lemma dec_digits_not_Nil [simp]: "dec_digits n \<noteq> []"
  by (simp add: dec_digits.simps [of n])

lemma read_nat_snoc: "read_nat (s @ [c]) = 10 * read_nat s + (of_char c - 48)"
  by (simp add: read_nat_def)

lemma read_nat_dec_digits [simp]: "read_nat (dec_digits n) = n"
proof (induction n rule: dec_digits.induct)
  case (1 n)
  show ?case
  proof (cases "n < 10")
    case True
    then show ?thesis by (simp add: dec_digits.simps [of n] read_nat_def of_digit_char)
  next
    case False
    then show ?thesis using 1 by (simp add: dec_digits.simps [of n] read_nat_snoc of_digit_char)
  qed
qed

lemma dec_digits_inj [simp]: "dec_digits n = dec_digits m \<longleftrightarrow> n = m"
  using read_nat_dec_digits by metis

lemma digits_prefix:
  assumes "s = [] \<or> \<not> is_digit (hd s)"
  shows "takeWhile is_digit (dec_digits n @ s) = dec_digits n" "dropWhile is_digit (dec_digits n @ s) = s"
  using assms by (cases s, auto simp: dec_digits_digits takeWhile_append dropWhile_append)+

lemma digit_not_space: "is_digit c \<Longrightarrow> \<not> is_space c"
  by (auto simp: is_digit_def is_space_def)

lemma digit_clean: "is_digit c \<Longrightarrow> c \<noteq> CHR 0x0D \<and> c \<noteq> CHR 0x0A \<and> c \<noteq> CHR ''-'' \<and> c \<noteq> CHR ''+'' \<and> c \<noteq> CHR '':''"
  by (auto simp: is_digit_def)

lemma hd_dec_digits: "is_digit (hd (dec_digits n @ s))"
  by (metis dec_digits_digits dec_digits_not_Nil hd_append2 list.set_sel(1))

lemma skip_space_hd: "t \<noteq> [] \<Longrightarrow> \<not> is_space (hd t) \<Longrightarrow> skip_space t = Some t"
  by (cases t) (auto simp: is_space_def)

lemma skip_space_dec_digits: "skip_space (dec_digits n @ s) = Some (dec_digits n @ s)"
  by (rule skip_space_hd) (simp, rule digit_not_space, rule hd_dec_digits)

lemma scan_uint_digits:
  assumes "n < 2 ^ bits" and "s = [] \<or> \<not> is_digit (hd s)"
  shows "scan_uint bits (dec_digits n @ s) = Some (n, s)"
proof -
  have "skip_space (dec_digits n @ s) = Some (dec_digits n @ s)"
    by (rule skip_space_dec_digits)
  then show ?thesis using assms by (simp add: scan_uint_def digits_prefix)
qed

lemma scan_int_fmt:
  assumes "- (2 ^ 63) \<le> i" and "i < 2 ^ 63" and "s = [] \<or> \<not> is_digit (hd s)"
  shows "scan_int (fmt_int i @ s) = Some (i, s)"
proof (cases "i < 0")
  case True
  have "\<not> is_space CHR ''-''" by (simp add: is_space_def)
  then show ?thesis using assms True by (simp add: scan_int_def fmt_int_def digits_prefix Let_def)
next
  case False
  let ?t = "dec_digits (nat i) @ s"
  have sk: "skip_space ?t = Some ?t" by (rule skip_space_dec_digits)
  have "hd ?t \<noteq> CHR ''-''" "hd ?t \<noteq> CHR ''+''" using digit_clean [OF hd_dec_digits] by blast+
  then show ?thesis using assms False sk by (simp add: scan_int_def fmt_int_def digits_prefix Let_def)
qed

lemma scan_lit_simps [simp]:
  "scan_lit [] s = Some s"
  "scan_lit (c # f) (d # s) = (if c = d then scan_lit f s else None)"
  "scan_lit (c # f) [] = None"
  by (auto simp: scan_lit_def)

lemma fmt_int_inj [simp]: "fmt_int i = fmt_int j \<longleftrightarrow> i = j"
proof -
  have "CHR ''-'' # t \<noteq> dec_digits n" for t n
    using hd_dec_digits [of n "[]"] by (metis append_Nil2 digit_clean list.sel(1))
  then show ?thesis by (auto simp: fmt_int_def dest: sym)
qed

lemma colon_fmt_int: "CHR '':'' \<notin> set (fmt_int i)"
  using dec_digits_digits digit_clean by (auto simp: fmt_int_def)

subsection \<open>Base64\<close>

definition b64_alphabet :: string where
  "b64_alphabet = ''ABCDEFGHIJKLMNOPQRSTUVWXYZabcdefghijklmnopqrstuvwxyz0123456789+/''"

fun b64_groups :: "nat list \<Rightarrow> nat list" where
  "b64_groups (a # b # c # r) =
     [a div 4, a mod 4 * 16 + b div 16, b mod 16 * 4 + c div 64, c mod 64] @ b64_groups r"
| "b64_groups [a, b] = [a div 4, a mod 4 * 16 + b div 16, b mod 16 * 4]"
| "b64_groups [a] = [a div 4, a mod 4 * 16]"
| "b64_groups [] = []"

definition b64_encode :: "string \<Rightarrow> string" where
  "b64_encode s = map (\<lambda>n. b64_alphabet ! n) (b64_groups (map of_char s))"

fun b64_ungroup :: "nat list \<Rightarrow> nat list option" where
  "b64_ungroup (w # x # y # z # r) =
     map_option (\<lambda>bs. [w * 4 + x div 16, x mod 16 * 16 + y div 4, y mod 4 * 64 + z] @ bs) (b64_ungroup r)"
| "b64_ungroup [w, x, y] = (if y mod 4 \<noteq> 0 then None else Some [w * 4 + x div 16, x mod 16 * 16 + y div 4])"
| "b64_ungroup [w, x] = (if x mod 16 \<noteq> 0 then None else Some [w * 4 + x div 16])"
| "b64_ungroup [w] = None"
| "b64_ungroup [] = Some []"

definition b64_value :: "char \<Rightarrow> nat option" where
  "b64_value c = index_of (\<lambda>x. x = c) b64_alphabet"

text \<open>The decoder skips line breaks; every other character must be of the alphabet.\<close>

definition b64_decode :: "string \<Rightarrow> string option" where
  "b64_decode s =
     (let vs = map b64_value (filter (\<lambda>c. c \<noteq> CHR 0x0D \<and> c \<noteq> CHR 0x0A) s)
      in if None \<in> set vs then None else map_option (map char_of) (b64_ungroup (map the vs)))"

lemma mix_div: "y < k \<Longrightarrow> (x * k + y) div k = (x :: nat)"
  by (simp add: div_add1_eq)

lemma mix_bound: "x < j \<Longrightarrow> y < k \<Longrightarrow> x * k + y < j * (k :: nat)"
proof -
  assume "x < j" "y < k"
  then have "x * k + y < Suc x * k" by simp
  also have "\<dots> \<le> j * k" using \<open>x < j\<close> by (intro mult_le_mono1) simp
  finally show ?thesis .
qed

lemma byte_parts: "b < 256 \<Longrightarrow> b div 4 < 64 \<and> b div 16 < 16 \<and> b div 64 < (4 :: nat)"
  by (simp add: less_mult_imp_div_less)

lemma b64_ungroup_groups: "list_all (\<lambda>b. b < 256) bs \<Longrightarrow> b64_ungroup (b64_groups bs) = Some bs"
proof (induction bs rule: b64_groups.induct)
  case (1 a b c r)
  then have p: "b div 16 < 16" "c div 64 < 4" and ih: "b64_ungroup (b64_groups r) = Some r"
    by (simp_all add: byte_parts)
  show ?case using ih by (simp add: mix_div [OF p(1)] mix_div [OF p(2)] mod_less [OF p(1)] mod_less [OF p(2)])
next
  case (2 a b)
  then have p: "b div 16 < 16" by (simp add: byte_parts)
  show ?case by (simp add: mix_div [OF p] mod_less [OF p])
qed simp_all

lemma b64_groups_bound: "list_all (\<lambda>b. b < 256) bs \<Longrightarrow> list_all (\<lambda>n. n < 64) (b64_groups bs)"
proof (induction bs rule: b64_groups.induct)
  case (1 a b c r)
  then show ?case
    using mix_bound [of "a mod 4" 4 "b div 16" 16] mix_bound [of "b mod 16" 16 "c div 64" 4] by (simp add: byte_parts)
next
  case (2 a b)
  then show ?case
    using mix_bound [of "a mod 4" 4 "b div 16" 16] mix_bound [of "b mod 16" 16 0 4] by (simp add: byte_parts)
next
  case (3 a)
  then show ?case using mix_bound [of "a mod 4" 4 0 16] by (simp add: byte_parts)
qed simp

lemma index_of_nth: "distinct xs \<Longrightarrow> n < length xs \<Longrightarrow> index_of (\<lambda>x. x = xs ! n) xs = Some n"
  by (induction xs arbitrary: n) (auto simp: nth_Cons split: nat.splits)

lemma alphabet_facts: "distinct b64_alphabet" "length b64_alphabet = 64"
  "list_all (\<lambda>c. c \<noteq> CHR 0x0D \<and> c \<noteq> CHR 0x0A \<and> c \<noteq> CHR ''$'') b64_alphabet"
  by (code_simp, code_simp, code_simp)

lemma b64_value_nth: "n < 64 \<Longrightarrow> b64_value (b64_alphabet ! n) = Some n"
  by (simp add: b64_value_def index_of_nth alphabet_facts)

lemma of_char_bytes: "list_all (\<lambda>b. b < 256) (map of_char (s :: string) :: nat list)"
  by (simp add: list_all_iff)

lemma b64_encode_set: "c \<in> set (b64_encode s) \<Longrightarrow> c \<noteq> CHR 0x0D \<and> c \<noteq> CHR 0x0A \<and> c \<noteq> CHR ''$''"
proof -
  assume "c \<in> set (b64_encode s)"
  then have "c \<in> set b64_alphabet"
    using b64_groups_bound [OF of_char_bytes [of s]] by (auto simp: b64_encode_def list_all_iff alphabet_facts)
  then show ?thesis using alphabet_facts(3) by (auto simp: list_all_iff)
qed

lemma b64_decode_encode [simp]: "b64_decode (b64_encode s) = Some s"
proof -
  have "filter (\<lambda>c. c \<noteq> CHR 0x0D \<and> c \<noteq> CHR 0x0A) (b64_encode s) = b64_encode s"
    using b64_encode_set by (auto simp: filter_id_conv)
  moreover have "map b64_value (b64_encode s) = map Some (b64_groups (map of_char s))"
    using b64_groups_bound [OF of_char_bytes [of s]] by (simp add: b64_encode_def list_all_iff b64_value_nth)
  moreover have "map char_of (map of_char s :: nat list) = s" by (simp add: comp_def)
  ultimately show ?thesis
    using b64_ungroup_groups [OF of_char_bytes [of s]] by (auto simp: b64_decode_def Let_def comp_def)
qed

end
