(* ===== verification/Configs.thy ===== *)
theory Configs
  imports Text_Numbers
begin

text \<open>
  The configuration every command starts from: \<^verbatim>\<open>internal/infrastructure/configs/configs.go\<close>. The fields of the nested
  structs are fields of one record. Reading the file and the environment (package \<^verbatim>\<open>cleanenv\<close>) are parameters: each
  fills the record it is given and may fail.
\<close>

record configuration =
  appEnv :: string
  appDebug :: bool
  appName :: string
  appHost :: string
  appPort :: string
  appGracePeriod :: int
  appAddress :: string
  appInstType :: string
  appVersion :: string
  appTimeZone :: string
  appCORSAllow :: string
  appUnderMaintenance :: bool
  appJWTSecret :: string
  appSessionSecret :: string
  appNetworkStatus :: string
  appHDWalletMnemonic :: string
  appETHClientTestnet :: string
  appETHClientMainnet :: string
  appWSClientEthereumMainnet :: string
  appWSClientEthereumTestnet :: string
  appIPInfoServiceToken :: string
  brokerHost :: string
  brokerPort :: string
  langLocale :: string
  langFallbackLocale :: string
  observeLogLevel :: int
  observeSentryDSN :: string
  storageDatabaseUrl :: string
  redisHost :: string
  redisPort :: int
  redisUsername :: string
  redisPassword :: string
  serviceQueueDB :: int
  serviceCacheDB :: int
  mailSMTPHost :: string
  mailSMTPPort :: int
  mailSMTPUsername :: string
  mailSMTPPassword :: string
  mailFromEmail :: string
  mailFromName :: string
  feedProviderName :: string
  feedBaseURL :: string
  feedAPIKey :: string
  originFrontend :: string
  serviceURLAPI :: string

definition empty_configuration :: configuration where
  "empty_configuration = \<lparr> appEnv = [], appDebug = False, appName = [], appHost = [], appPort = [],
     appGracePeriod = 0, appAddress = [], appInstType = [], appVersion = [], appTimeZone = [], appCORSAllow = [],
     appUnderMaintenance = False, appJWTSecret = [], appSessionSecret = [], appNetworkStatus = [],
     appHDWalletMnemonic = [], appETHClientTestnet = [], appETHClientMainnet = [], appWSClientEthereumMainnet = [],
     appWSClientEthereumTestnet = [], appIPInfoServiceToken = [], brokerHost = [], brokerPort = [], langLocale = [],
     langFallbackLocale = [], observeLogLevel = 0, observeSentryDSN = [], storageDatabaseUrl = [], redisHost = [],
     redisPort = 0, redisUsername = [], redisPassword = [], serviceQueueDB = 0, serviceCacheDB = 0, mailSMTPHost = [],
     mailSMTPPort = 0, mailSMTPUsername = [], mailSMTPPassword = [], mailFromEmail = [], mailFromName = [],
     feedProviderName = [], feedBaseURL = [], feedAPIKey = [], originFrontend = [], serviceURLAPI = [] \<rparr>"

definition PrepareConfig :: "configuration \<Rightarrow> configuration" where
  "PrepareConfig c = c\<lparr>appEnv := to_upper (appEnv c)\<rparr>"

text \<open>The process ends (\<open>None\<close>) when neither the file nor the environment can be read.\<close>

definition LoadConfig ::
  "(string \<Rightarrow> configuration \<Rightarrow> string option \<times> configuration) \<Rightarrow> (configuration \<Rightarrow> string option \<times> configuration) \<Rightarrow>
   string \<Rightarrow> configuration option" where
  "LoadConfig readConfig readEnv envFilePath =
     (case readConfig envFilePath empty_configuration of
        (None, cfg) \<Rightarrow> Some (PrepareConfig cfg)
      | (Some _, cfg) \<Rightarrow>
          (case readEnv cfg of (Some _, _) \<Rightarrow> None | (None, cfg) \<Rightarrow> Some (PrepareConfig cfg)))"

definition RedisAddress :: "configuration \<Rightarrow> string" where
  "RedisAddress c = redisHost c @ '':'' @ fmt_int (redisPort c)"

text \<open>The brokers' address, written out at every \<^verbatim>\<open>kgo.NewClient\<close>.\<close>

definition broker_address :: "configuration \<Rightarrow> string" where
  "broker_address c = brokerHost c @ '':'' @ brokerPort c"

end
