(* ===== verification/Listing_Entities.thy ===== *)
theory Listing_Entities
  imports Domain_Entities "HOL-Library.Word"
begin

text \<open>
  The assets an exchange lists: \<^verbatim>\<open>internal/domain/entities/asset.go\<close>. A \<^verbatim>\<open>float64\<close> is only copied by the code, so it
  is its 64 bits here.
\<close>

type_synonym float64 = "64 word"

definition AssetStatusActive :: string where [go_enum]: "AssetStatusActive = ''active''"
definition AssetStatusInactive :: string where [go_enum]: "AssetStatusInactive = ''inactive''"
definition TestnetAsset :: string where [go_enum]: "TestnetAsset = ''testnet''"
definition MainnetAsset :: string where [go_enum]: "MainnetAsset = ''mainnet''"

record network_availability =
  naSpotTestnet :: bool
  naSpotMainnet :: bool
  naPerpTestnet :: bool
  naPerpMainnet :: bool

record asset =
  asID :: string
  asName :: "string option"
  asSymbol :: "string option"
  asMaxSize :: float64
  asNetworkAvailability :: network_availability
  asStatus :: string
  asAddress :: "string option"
  asNetwork :: string

end
