(* ===== verification/Http_Schema.thy ===== *)
theory Http_Schema
  imports Event_Types Listing_Entities
begin

text \<open>
  \<^verbatim>\<open>internal/adapter/handler/http/schema\<close> and the response helper: the requests of the order and withdrawal
  endpoints, the checks registered with the validator, and the answers. A validator of a field is a
  predicate on the field; one of a struct gives the tags of the errors it reports, in sequence.
  \<^verbatim>\<open>decimal.NewFromString\<close> is the parameter \<open>dec\<close>. The character classes are the ASCII ones.
\<close>

subsection \<open>Answers (helper/response.go)\<close>

datatype http_body =
    SuccessResponse bool string
  | ErrorResponse bool string
  | CodeMessage nat string
  | LoginResponse nat string string
  | VerificationResponse nat string string
  | RegisterResponse string string string string string
  | WithdrawResponse nat string
  | AssetResponse string string string string string network_availability float64 string
  | GinError string
  | NoBody
  | PlainText string
  | HealthResponse string "(string \<times> string \<times> string) list"
  | DataResponse bool string string
  | MetaResponse bool string string string
  | DetailedError bool string string
  | ValidationErrorResponse bool string string

record answer =
  anStatus :: nat
  anBody :: http_body

definition SuccessStandard :: "http_body \<Rightarrow> answer" where
  "SuccessStandard data = \<lparr> anStatus = 200, anBody = data \<rparr>"

definition NewErrorResponse :: "string \<Rightarrow> http_body" where
  "NewErrorResponse message = ErrorResponse False message"

definition InvalidRequestBody :: answer where
  "InvalidRequestBody = \<lparr> anStatus = 400, anBody = NewErrorResponse ''Invalid request body'' \<rparr>"

definition InternalServerError :: "string list \<Rightarrow> answer" where
  "InternalServerError message =
     (let msg = (if length message > 0 \<and> message ! 0 \<noteq> [] then message ! 0 else ''Internal server error'')
      in \<lparr> anStatus = 500, anBody = NewErrorResponse msg \<rparr>)"

text \<open>The optional error of the answer is nil for every caller.\<close>

definition Conflict :: "string \<Rightarrow> answer" where
  "Conflict message = \<lparr> anStatus = 409, anBody = NewErrorResponse message \<rparr>"

text \<open>
  The rest of the helper, for data, metadata and error details given as their JSON text. A variadic argument is a list:
  its first element, when there is one, is what counts.
\<close>

definition operation_message :: "string list \<Rightarrow> string" where
  "operation_message message =
     (if length message > 0 \<and> message ! 0 \<noteq> [] then message ! 0 else ''Operation successful'')"

definition Success :: "string \<Rightarrow> string list \<Rightarrow> answer" where
  "Success data message = \<lparr> anStatus = 200, anBody = DataResponse True (operation_message message) data \<rparr>"

definition SuccessWithMeta :: "string \<Rightarrow> string \<Rightarrow> string list \<Rightarrow> answer" where
  "SuccessWithMeta data meta message = \<lparr> anStatus = 200, anBody = MetaResponse True (operation_message message) data meta \<rparr>"

definition ValidationError :: "string \<Rightarrow> answer" where
  "ValidationError errors = \<lparr> anStatus = 422, anBody = ValidationErrorResponse False ''Validation failed'' errors \<rparr>"

definition detailed :: "nat \<Rightarrow> string \<Rightarrow> string list \<Rightarrow> answer" where
  "detailed code message errors =
     \<lparr> anStatus = code, anBody = (if errors = [] then NewErrorResponse message else DetailedError False message (hd errors)) \<rparr>"

definition BadRequest :: "string \<Rightarrow> string list \<Rightarrow> answer" where "BadRequest = detailed 400"
definition Unauthorized :: "string \<Rightarrow> string list \<Rightarrow> answer" where "Unauthorized = detailed 401"
definition Forbidden :: "string \<Rightarrow> string list \<Rightarrow> answer" where "Forbidden = detailed 403"
definition NotFound :: "string \<Rightarrow> string list \<Rightarrow> answer" where "NotFound = detailed 404"

definition UnprocessableEntity :: "string \<Rightarrow> string \<Rightarrow> answer" where
  "UnprocessableEntity message errors = \<lparr> anStatus = 422, anBody = DetailedError False message errors \<rparr>"

definition ServiceUnavailable :: "string \<Rightarrow> answer" where
  "ServiceUnavailable message = \<lparr> anStatus = 503, anBody = NewErrorResponse message \<rparr>"

definition TokenGenerationFailed :: answer where
  "TokenGenerationFailed = \<lparr> anStatus = 500, anBody = NewErrorResponse ''Token generation failed'' \<rparr>"

definition InvalidToken :: answer where
  "InvalidToken = \<lparr> anStatus = 401, anBody = NewErrorResponse ''Invalid token'' \<rparr>"

definition InvalidCredentials :: answer where
  "InvalidCredentials = \<lparr> anStatus = 401, anBody = NewErrorResponse ''Invalid credentials'' \<rparr>"

definition TokenExpired :: answer where
  "TokenExpired = \<lparr> anStatus = 401, anBody = NewErrorResponse ''Token expired'' \<rparr>"

definition ErrorStandard :: "nat \<Rightarrow> string \<Rightarrow> answer" where
  "ErrorStandard statusCode message = \<lparr> anStatus = statusCode, anBody = CodeMessage statusCode message \<rparr>"

definition BadRequestStandard :: "string \<Rightarrow> answer" where
  "BadRequestStandard message = ErrorStandard 400 message"

definition UnauthorizedStandard :: "string \<Rightarrow> answer" where
  "UnauthorizedStandard message = ErrorStandard 401 message"

definition InternalServerErrorStandard :: "string \<Rightarrow> answer" where
  "InternalServerErrorStandard message = ErrorStandard 500 message"

definition NotFoundStandard :: "string \<Rightarrow> answer" where
  "NotFoundStandard message = ErrorStandard 404 message"

subsection \<open>Orders (order\_schema.go)\<close>

definition Buy :: string where [simp]: "Buy = ''BUY''"
definition Sell :: string where [simp]: "Sell = ''SELL''"
definition Limit :: string where [simp]: "Limit = ''LIMIT''"
definition Market :: string where [simp]: "Market = ''MARKET''"
definition StopLimit :: string where [simp]: "StopLimit = ''STOP_LIMIT''"
definition IOC :: string where [simp]: "IOC = ''IOC''"
definition FOK :: string where [simp]: "FOK = ''FOK''"
definition PostOnly :: string where [simp]: "PostOnly = ''POST_ONLY''"
definition GTD :: string where [simp]: "GTD = ''GTD''"

record PlaceOrderRequest =
  poUserID :: int
  poClientOrdID :: string
  poSymbol :: string
  poSide :: string
  poOrderType :: string
  poPrice :: string
  poStopPrice :: string
  poQty :: string
  poTimeInForce :: string
  poExpireAt :: "time option"
  poSource :: string
  poRequestID :: string

record CancelOrderRequest =
  coOrderID :: int
  coClientOrdID :: string
  coSymbol :: string
  coSide :: string

definition DecimalGT0Check :: "(string \<Rightarrow> 'd::linordered_idom option) \<Rightarrow> string \<Rightarrow> bool" where
  "DecimalGT0Check dec field =
     (let raw = trim_space field
      in if raw = [] then False
         else case dec raw of None \<Rightarrow> False | Some d \<Rightarrow> 0 < d)"

definition ClientOrdIDCheck :: "string \<Rightarrow> bool" where
  "ClientOrdIDCheck field =
     list_all (\<lambda>r. \<not> (\<not> (is_upper r \<or> is_lower r) \<and> \<not> is_digit r \<and> r \<noteq> CHR ''-'' \<and> r \<noteq> CHR ''_'')) field"

definition SymbolFormatCheck :: "string \<Rightarrow> bool" where
  "SymbolFormatCheck field =
     (let parts = split_on CHR ''-'' field
      in if length parts \<noteq> 2 then False
         else list_all (\<lambda>part. if length part < 2 \<or> length part > 10 then False else list_all is_upper part) parts)"

definition FutureTimeCheck :: "time \<Rightarrow> time option \<Rightarrow> bool" where
  "FutureTimeCheck now field = (case field of None \<Rightarrow> True | Some t \<Rightarrow> now < t)"

definition type_errors :: "(string \<Rightarrow> 'd::linordered_idom option) \<Rightarrow> PlaceOrderRequest \<Rightarrow> string list" where
  "type_errors dec req =
     (let noPrice = (trim_space (poPrice req) = []); noStop = (trim_space (poStopPrice req) = [])
      in if poOrderType req = Limit \<or> poOrderType req = PostOnly then
           (if noPrice then [''price_required_for_limit''] else []) @
           (if \<not> noStop then [''stop_price_not_allowed''] else [])
         else if poOrderType req = Market then
           (if \<not> noPrice then [''price_not_allowed_for_market''] else []) @
           (if \<not> noStop then [''stop_price_not_allowed''] else [])
         else if poOrderType req = StopLimit then
           (if noPrice then [''price_required_for_stop_limit''] else []) @
           (if noStop then [''stop_price_required''] else []) @
           (case (dec (poPrice req), dec (poStopPrice req)) of
              (Some price, Some stop) \<Rightarrow>
                (if poSide req = Buy \<and> stop \<le> price then [''stop_price_must_exceed_price_for_buy''] else []) @
                (if poSide req = Sell \<and> price \<le> stop then [''stop_price_must_be_below_price_for_sell''] else [])
            | _ \<Rightarrow> [])
         else if poOrderType req = IOC \<or> poOrderType req = FOK then
           (if noPrice then [''price_required_for_ioc_fok''] else [])
         else [])"

definition ValidatePlaceOrderRequest ::
  "(string \<Rightarrow> 'd::linordered_idom option) \<Rightarrow> time \<Rightarrow> PlaceOrderRequest \<Rightarrow> string list" where
  "ValidatePlaceOrderRequest dec now req =
     (let maxExpireAt = now + hour * 24 * MaxRestingDays
      in type_errors dec req @
         (if poTimeInForce req = GTD \<and> poExpireAt req = None then [''expire_at_required_for_gtd''] else []) @
         (case poExpireAt req of
            None \<Rightarrow> []
          | Some t \<Rightarrow>
              (if maxExpireAt < t then [''expire_at_too_far_in_future''] else []) @
              (if poOrderType req = Limit \<or> poOrderType req = PostOnly \<or> poOrderType req = StopLimit then []
               else if poTimeInForce req \<noteq> GTD then [''expire_at_not_allowed_for_order_type''] else [])))"

definition ValidateCancelOrderRequest :: "CancelOrderRequest \<Rightarrow> string list" where
  "ValidateCancelOrderRequest req =
     (if coOrderID req = 0 \<and> trim_space (coClientOrdID req) = []
      then [''order_id_or_client_ord_id_required''] else [])"

subsection \<open>Users (auth\_schema.go)\<close>

record RegisterUserRequest =
  rgUsername :: string
  rgFirstname :: string
  rgLastname :: string
  rgGmail :: string
  rgPassword :: string

record LoginUserWithUsernameRequest =
  luUsername :: string
  luPassword :: string

record LoginWithGmailRequest =
  lgGmail :: string
  lgPassword :: string

record GmailVerificationCodeRequest =
  gvGmail :: string
  gvUsername :: string
  gvVerificationCode :: string

record GmailVerificationCodeResendRequest =
  grGmail :: string
  grUsername :: string

definition UsernameCheck :: "string \<Rightarrow> bool" where
  "UsernameCheck field = (length field \<ge> 2 \<and> length field \<le> 20)"

definition FirstnameCheck :: "string \<Rightarrow> bool" where
  "FirstnameCheck field = (length field \<ge> 2 \<and> length field \<le> 20)"

definition LastnameCheck :: "string \<Rightarrow> bool" where
  "LastnameCheck field = (length field \<ge> 2 \<and> length field \<le> 20)"

definition EmailCheck :: "string \<Rightarrow> bool" where
  "EmailCheck field = (contains_char CHR ''@'' field \<and> contains_char CHR ''.'' field)"

subsection \<open>Withdrawals (transaction\_schema.go, wallet\_schema.go)\<close>

record WithdrawNativeRequest =
  wdAssetOwnerAddress :: string
  wdDestinationAddress :: string
  wdTokenAddress :: string
  wdTokenSymbol :: string
  wdAmountWei :: string
  wdGasLimitUnit :: int
  wdGasPriceWei :: string
  wdChainId :: int
  wdCalldata :: string

text \<open>\<^verbatim>\<open>big.Int.SetString(s, 10)\<close>: an optional sign and decimal digits, nothing else.\<close>

definition digits_value :: "string \<Rightarrow> int option" where
  "digits_value s = (if s \<noteq> [] \<and> list_all is_digit s
     then Some (foldl (\<lambda>a c. 10 * a + (int (of_char c) - 48)) 0 s) else None)"

definition SetString10 :: "string \<Rightarrow> int option" where
  "SetString10 s = (case s of
     [] \<Rightarrow> None
   | c # r \<Rightarrow> if c = CHR ''-'' then map_option uminus (digits_value r)
              else if c = CHR ''+'' then digits_value r else digits_value s)"

definition WeiAmountCheck :: "string \<Rightarrow> bool" where
  "WeiAmountCheck field =
     (let raw = trim_space field
      in if raw = [] then False
         else case SetString10 raw of None \<Rightarrow> False | Some n \<Rightarrow> 0 < n)"

definition TokenSymbolCheck :: "string \<Rightarrow> bool" where
  "TokenSymbolCheck field =
     (let s = trim_space field
      in if length s < 2 \<or> length s > 10 then False else s \<noteq> [] \<and> list_all is_upper s)"

definition CalldataHexCheck :: "string \<Rightarrow> bool" where
  "CalldataHexCheck field =
     (let s = trim_space field
      in if s = [] then True
         else take 2 s = ''0x'' \<and> even (length (drop 2 s)) \<and> list_all is_hex (drop 2 s))"

definition WalletAddressCheck :: "string \<Rightarrow> bool" where
  "WalletAddressCheck walletAddress =
     (take 2 walletAddress = ''0x'' \<and> length (drop 2 walletAddress) = 40 \<and> list_all is_hex (drop 2 walletAddress))"

definition ValidateWithdrawNativeRequest :: "WithdrawNativeRequest \<Rightarrow> string list" where
  "ValidateWithdrawNativeRequest req =
     (if to_lower (wdAssetOwnerAddress req) = to_lower (wdDestinationAddress req)
      then [''destination_must_differ_from_owner''] else [])"

subsection \<open>Assets (asset\_schema.go)\<close>

record CreateAssetRequest =
  caName :: string
  caSymbol :: string
  caAssetAddress :: string
  caNetwork :: string
  caNetworkAvailability :: network_availability
  caMaxSize :: float64

subsection \<open>Lemmas\<close>

lemma upper_letter_clean:
  assumes "list_all is_upper s" and "2 \<le> length s"
  shows "clean_symbol s"
proof -
  have u: "is_upper c" if "c \<in> set s" for c using assms(1) that by (simp add: list_all_iff)
  have sp: "\<not> is_space c" and up: "upper_char c = c" if "is_upper c" for c
    using that by (auto simp: is_space_def is_upper_def upper_char_def is_lower_def)
  have ne: "s \<noteq> []" using assms(2) by auto
  have "\<not> is_upper CHR ''/''" "\<not> is_upper CHR ''-''" by code_simp+
  then have "CHR ''/'' \<notin> set s" "CHR ''-'' \<notin> set s" using u by blast+
  moreover have "trim_space s = s" by (rule trim_space_id) (use u sp in auto)
  moreover have "to_upper s = s" unfolding to_upper_def by (rule map_idI) (use u up in blast)
  ultimately show ?thesis using ne by (simp add: clean_symbol_def)
qed

lemma SymbolFormatCheck_iff:
  "SymbolFormatCheck s \<longleftrightarrow> (\<exists>b q. s = b @ ''-'' @ q \<and> split_on CHR ''-'' s = [b, q] \<and>
     2 \<le> length b \<and> length b \<le> 10 \<and> 2 \<le> length q \<and> length q \<le> 10 \<and> list_all is_upper b \<and> list_all is_upper q)"
proof
  assume c: "SymbolFormatCheck s"
  then have "length (split_on CHR ''-'' s) = 2" by (simp add: SymbolFormatCheck_def Let_def split: if_splits)
  then obtain b q where bq: "split_on CHR ''-'' s = [b, q]" by (auto simp: length_Suc_conv numeral_2_eq_2)
  from split_on_twoD [OF this] c bq show "\<exists>b q. s = b @ ''-'' @ q \<and> split_on CHR ''-'' s = [b, q] \<and>
     2 \<le> length b \<and> length b \<le> 10 \<and> 2 \<le> length q \<and> length q \<le> 10 \<and> list_all is_upper b \<and> list_all is_upper q"
    by (intro exI [of _ b] exI [of _ q]) (auto simp: SymbolFormatCheck_def Let_def split: if_splits)
next
  assume "\<exists>b q. s = b @ ''-'' @ q \<and> split_on CHR ''-'' s = [b, q] \<and>
     2 \<le> length b \<and> length b \<le> 10 \<and> 2 \<le> length q \<and> length q \<le> 10 \<and> list_all is_upper b \<and> list_all is_upper q"
  then show "SymbolFormatCheck s" by (auto simp: SymbolFormatCheck_def Let_def)
qed

subsection \<open>Properties\<close>

text \<open>A symbol that passes the format check is understood alike by every later reader: it splits into the
  base and the quote asset, the database form is those two with a slash, that form is stable under
  normalising again, and an event of the pair has both assets, so it can be published.\<close>

theorem valid_symbol_roundtrip:
  assumes "SymbolFormatCheck s"
  shows "\<exists>b q. s = b @ ''-'' @ q \<and> NormalizePairToSlash s = Inr (b @ ''/'' @ q) \<and>
     NormalizePairToSlash (b @ ''/'' @ q) = Inr (b @ ''/'' @ q) \<and>
     (\<forall>ev. ePair ev = s \<longrightarrow> GetBaseAsset ev = b \<and> GetQuoteAsset ev = Some q)"
proof -
  obtain b q where s: "s = b @ ''-'' @ q" and sp: "split_on CHR ''-'' s = [b, q]"
    and l: "2 \<le> length b" "2 \<le> length q" "list_all is_upper b" "list_all is_upper q"
    using assms by (auto simp: SymbolFormatCheck_iff)
  note c = upper_letter_clean [OF l(3,1)] upper_letter_clean [OF l(4,2)]
  have "NormalizePairToSlash s = Inr (b @ ''/'' @ q)" "NormalizePairToSlash (b @ ''/'' @ q) = Inr (b @ ''/'' @ q)"
    unfolding s using NormalizePairToSlash_clean [OF c, of "CHR ''-''"] NormalizePairToSlash_clean [OF c, of "CHR ''/''"] by simp_all
  then show ?thesis using s sp by (intro exI [of _ b] exI [of _ q]) (simp add: GetBaseAsset_def GetQuoteAsset_def)
qed

theorem valid_symbol_roundtrip_witness:
  "\<exists>b q. ''BTC-USDT'' = b @ ''-'' @ q \<and> NormalizePairToSlash ''BTC-USDT'' = Inr (b @ ''/'' @ q)"
proof -
  have "SymbolFormatCheck ''BTC-USDT''" by code_simp
  from valid_symbol_roundtrip [OF this] show ?thesis by blast
qed

end
