(* ===== verification/Users_Store.thy ===== *)
theory Users_Store
  imports Order_Projection Text_Numbers
begin

text \<open>
  The account side of the domain: \<^verbatim>\<open>internal/domain/entities\<close> (user.go, role.go, wallet.go), the repositories of
  \<^verbatim>\<open>internal/adapter/repository/postgres\<close> (user\_repo.go, role\_repo.go, wallet\_repo.go) and the address
  derivation of \<^verbatim>\<open>internal/domain/services/wallet\_service.go\<close>. As for orders, a table is the list of its rows and an
  ORM call has its documented effect on it: zero values take the column's default, unique columns refuse a
  second value. The ORM reports a duplicate as \<^verbatim>\<open>ErrDuplicatedKey\<close> only when it is configured to
  translate errors, otherwise with the driver's text \<open>dup\<close>. The hardware-wallet library's \<^verbatim>\<open>Derive\<close> is
  the parameter \<open>ledger\<close>, from a path to an account.
\<close>

subsection \<open>Entities\<close>

definition StatusActive :: string where [go_enum]: "StatusActive = ''active''"
definition StatusBanned :: string where [go_enum]: "StatusBanned = ''banned''"
definition GmailVerificationStatusPending :: string where [go_enum]: "GmailVerificationStatusPending = ''pending''"
definition GmailVerificationStatusVerified :: string where [go_enum]: "GmailVerificationStatusVerified = ''verified''"

definition RoleUser :: string where [go_enum]: "RoleUser = ''user''"
definition RoleAdmin :: string where [go_enum]: "RoleAdmin = ''admin''"
definition RoleSystem :: string where [go_enum]: "RoleSystem = ''system''"

record role =
  roID :: nat
  roName :: string

definition SpotAccount :: string where [go_enum]: "SpotAccount = ''spot_account''"
definition ActiveWalletAccount :: string where [go_enum]: "ActiveWalletAccount = ''ACTIVE''"

record wallet =
  waUserID :: string
  waAddressIndex :: nat
  waAddress :: string
  waAccountType :: string
  waStatus :: string
  waBalanceSynced :: bool
  waLastSyncedAt :: time
  waDepositsEnabled :: bool
  waStatusReason :: "string option"
  waFrozenReason :: "string option"

text \<open>The constructor is handed the address index and does not store it.\<close>

definition NewWalletAccount ::
  "string \<Rightarrow> string \<Rightarrow> nat \<Rightarrow> string \<Rightarrow> string \<Rightarrow> string \<Rightarrow> string \<Rightarrow> bool \<Rightarrow> wallet" where
  "NewWalletAccount userID walletAddress walletAddressIndex accountType status statusReason frozenStatus depositEnabled =
     \<lparr> waUserID = userID, waAddressIndex = 0, waAddress = walletAddress, waAccountType = accountType, waStatus = status,
       waBalanceSynced = False, waLastSyncedAt = zero_time, waDepositsEnabled = depositEnabled,
       waStatusReason = Some statusReason, waFrozenReason = Some frozenStatus \<rparr>"

record profile =
  prFirstname :: string
  prLastname :: string
  prAvatarUrl :: string
  prBio :: string

record user =
  usID :: string
  usUsername :: "string option"
  usPassword :: "string option"
  usProfile :: profile
  usRoleID :: nat
  usRole :: role
  usGmail :: "string option"
  usGmailStatus :: string
  usGmailVerifiedAt :: "time option"
  usWallet :: wallet
  usStatus :: string
  usIsVerified :: bool
  usLocalTimezone :: "string option"

text \<open>What an association holds before it is loaded.\<close>

definition zero_role :: role where
  "zero_role = \<lparr> roID = 0, roName = [] \<rparr>"

definition zero_wallet :: wallet where
  "zero_wallet = \<lparr> waUserID = [], waAddressIndex = 0, waAddress = [], waAccountType = [], waStatus = [],
     waBalanceSynced = False, waLastSyncedAt = zero_time, waDepositsEnabled = False, waStatusReason = None, waFrozenReason = None \<rparr>"

definition NewProfile :: "string \<Rightarrow> string \<Rightarrow> profile" where
  "NewProfile firstname lastname = \<lparr> prFirstname = firstname, prLastname = lastname, prAvatarUrl = [], prBio = [] \<rparr>"

definition NewUser :: "string \<Rightarrow> string \<Rightarrow> string \<Rightarrow> string \<Rightarrow> string \<Rightarrow> string \<Rightarrow> string \<Rightarrow> user" where
  "NewUser firstname lastname username gmail hashedPassword gmailVerificationStatus status =
     \<lparr> usID = [], usUsername = Some username, usPassword = Some hashedPassword, usProfile = NewProfile firstname lastname,
       usRoleID = 0, usRole = zero_role, usGmail = Some gmail, usGmailStatus = gmailVerificationStatus,
       usGmailVerifiedAt = None, usWallet = zero_wallet, usStatus = status, usIsVerified = False, usLocalTimezone = None \<rparr>"

record user_db =
  udRoles :: "role list"
  udUsers :: "user list"
  udWallets :: "wallet list"

subsection \<open>Roles (role\_repo.go)\<close>

definition role_GetByName :: "string option \<Rightarrow> string \<Rightarrow> user_db \<Rightarrow> handler_error + role" where
  "role_GetByName fault name db =
     (case fault of Some err \<Rightarrow> Inl (DBError err)
      | None \<Rightarrow> (case find (\<lambda>r. roName r = name) (udRoles db) of None \<Rightarrow> Inl RecordNotFound | Some r \<Rightarrow> Inr r))"

definition role_GetByID :: "string option \<Rightarrow> nat \<Rightarrow> user_db \<Rightarrow> handler_error + role" where
  "role_GetByID fault i db =
     (case fault of Some err \<Rightarrow> Inl (DBError err)
      | None \<Rightarrow> (case find (\<lambda>r. roID r = i) (udRoles db) of None \<Rightarrow> Inl RecordNotFound | Some r \<Rightarrow> Inr r))"

text \<open>The insert of the three roles skips those whose name exists; the keys come from a sequence that a
  skipped row advances too.\<close>

fun insert_roles :: "nat \<Rightarrow> string list \<Rightarrow> role list \<Rightarrow> role list" where
  "insert_roles n [] rs = rs"
| "insert_roles n (name # names) rs =
     insert_roles (Suc n) names (if name \<in> roName ` set rs then rs else rs @ [\<lparr> roID = n, roName = name \<rparr>])"

definition role_Seed :: "string option \<Rightarrow> nat \<Rightarrow> user_db \<Rightarrow> handler_error option \<times> user_db" where
  "role_Seed fault n db =
     (case fault of Some err \<Rightarrow> (Some (DBError err), db)
      | None \<Rightarrow> (None, db\<lparr>udRoles := insert_roles n [RoleUser, RoleAdmin, RoleSystem] (udRoles db)\<rparr>))"

subsection \<open>Users (user\_repo.go)\<close>

text \<open>\<^verbatim>\<open>gorm.Config\<close> of \<^verbatim>\<open>database/db.go\<close> leaves \<^verbatim>\<open>TranslateError\<close> off.\<close>

definition TranslateError :: bool where
  "TranslateError = False"

definition duplicate_error :: "string \<Rightarrow> handler_error" where
  "duplicate_error dup = (if TranslateError then DuplicateKey else DBError dup)"

definition user_defaults :: "string \<Rightarrow> user \<Rightarrow> user" where
  "user_defaults newID u =
     u\<lparr>usID := (if usID u = [] then newID else usID u),
       usRoleID := (if usRoleID u = 0 then 1 else usRoleID u),
       usGmailStatus := (if usGmailStatus u = [] then ''not_registered'' else usGmailStatus u),
       usStatus := (if usStatus u = [] then StatusActive else usStatus u),
       usLocalTimezone := (if usLocalTimezone u = None then Some ''0'' else usLocalTimezone u)\<rparr>"

definition user_Create ::
  "string option \<Rightarrow> string \<Rightarrow> string \<Rightarrow> user \<Rightarrow> user_db \<Rightarrow> handler_error + (user \<times> user_db)" where
  "user_Create fault dup newID user db =
     (let u = user_defaults newID user
      in case fault of
           Some err \<Rightarrow> Inl (DBError err)
         | None \<Rightarrow>
             if usID u \<in> usID ` set (udUsers db) \<or> usUsername u \<in> usUsername ` set (udUsers db) \<or>
                (usGmail u \<noteq> None \<and> usGmail u \<in> usGmail ` set (udUsers db))
             then Inl (duplicate_error dup)
             else Inr (u, db\<lparr>udUsers := udUsers db @ [u]\<rparr>))"

definition role_of :: "user_db \<Rightarrow> nat \<Rightarrow> role" where
  "role_of db i = (case find (\<lambda>r. roID r = i) (udRoles db) of None \<Rightarrow> zero_role | Some r \<Rightarrow> r)"

definition wallet_of :: "user_db \<Rightarrow> string \<Rightarrow> wallet" where
  "wallet_of db userID = (case find (\<lambda>w. waUserID w = userID) (udWallets db) of None \<Rightarrow> zero_wallet | Some w \<Rightarrow> w)"

definition first_user :: "string option \<Rightarrow> (user \<Rightarrow> bool) \<Rightarrow> user_db \<Rightarrow> handler_error + user" where
  "first_user fault P db =
     (case fault of Some err \<Rightarrow> Inl (DBError err)
      | None \<Rightarrow> (case find P (udUsers db) of
                  None \<Rightarrow> Inl RecordNotFound
                | Some u \<Rightarrow> Inr (u\<lparr>usWallet := wallet_of db (usID u)\<rparr>)))"

definition GetUserByID :: "string option \<Rightarrow> string \<Rightarrow> user_db \<Rightarrow> handler_error + user" where
  "GetUserByID fault userID db =
     (case first_user fault (\<lambda>u. usID u = userID) db of
        Inl err \<Rightarrow> Inl err | Inr u \<Rightarrow> Inr (u\<lparr>usRole := role_of db (usRoleID u)\<rparr>))"

definition GetUserByUsername :: "string option \<Rightarrow> string \<Rightarrow> user_db \<Rightarrow> handler_error + user" where
  "GetUserByUsername fault username db = first_user fault (\<lambda>u. usUsername u = Some username) db"

definition GetUserByGmail :: "string option \<Rightarrow> string \<Rightarrow> user_db \<Rightarrow> handler_error + user" where
  "GetUserByGmail fault gmail db = first_user fault (\<lambda>u. usGmail u = Some gmail) db"

definition GetUserByWalletAccount :: "string option \<Rightarrow> string \<Rightarrow> user_db \<Rightarrow> handler_error + user" where
  "GetUserByWalletAccount fault walletAddress db =
     first_user fault (\<lambda>u. list_ex (\<lambda>w. waUserID w = usID u \<and> waAddress w = walletAddress) (udWallets db)) db"

definition update_users :: "(user \<Rightarrow> bool) \<Rightarrow> (user \<Rightarrow> user) \<Rightarrow> user_db \<Rightarrow> user_db" where
  "update_users P f db = db\<lparr>udUsers := map (\<lambda>u. if P u then f u else u) (udUsers db)\<rparr>"

text \<open>Two statements, outside a transaction; when the first fails the second is not sent.\<close>

definition UpdateGmailVerificationStatus ::
  "string option \<Rightarrow> string option \<Rightarrow> string \<Rightarrow> string \<Rightarrow> user_db \<Rightarrow> handler_error option \<times> user_db" where
  "UpdateGmailVerificationStatus fault1 fault2 gmail gmailVerificationStatus db =
     (let isVerified = (gmailVerificationStatus = GmailVerificationStatusVerified);
          P = (\<lambda>u. usGmail u = Some gmail)
      in case fault1 of
           Some err \<Rightarrow> (Some (DBError err), db)
         | None \<Rightarrow>
             (let db1 = update_users P (\<lambda>u. u\<lparr>usGmailStatus := gmailVerificationStatus\<rparr>) db
              in case fault2 of
                   Some err \<Rightarrow> (Some (DBError err), db1)
                 | None \<Rightarrow> (None, update_users P (\<lambda>u. u\<lparr>usIsVerified := isVerified\<rparr>) db1)))"

subsection \<open>Wallets (wallet\_service.go, wallet\_repo.go)\<close>

record account =
  acAddress :: string
  acPath :: string

definition getBIP44Format :: "32 word \<Rightarrow> string" where
  "getBIP44Format userNumber = ''m/44'/60'/0'/0/'' @ fmt_int (uint userNumber)"

definition generateNewPublicKey :: "(string \<Rightarrow> string + account) \<Rightarrow> 32 word \<Rightarrow> string + account" where
  "generateNewPublicKey ledger userNumber =
     (let bip44 = getBIP44Format userNumber in case ledger bip44 of Inl err \<Rightarrow> Inl err | Inr account \<Rightarrow> Inr account)"

definition GenerateWalletAddress :: "(string \<Rightarrow> string + account) \<Rightarrow> 32 word \<Rightarrow> string + account" where
  "GenerateWalletAddress ledger index = generateNewPublicKey ledger index"

definition GetWalletAccountByUserID :: "(string \<Rightarrow> string + account) \<Rightarrow> 32 word \<Rightarrow> string + account" where
  "GetWalletAccountByUserID ledger idx =
     (let bip44 = getBIP44Format idx in case ledger bip44 of Inl err \<Rightarrow> Inl err | Inr account \<Rightarrow> Inr account)"

text \<open>The sequence is a counter outside the tables: a rollback does not set it back.\<close>

definition NextAddressIndex :: "string option \<Rightarrow> nat \<Rightarrow> (handler_error + nat) \<times> nat" where
  "NextAddressIndex fault seq = (case fault of Some err \<Rightarrow> (Inl (DBError err), seq) | None \<Rightarrow> (Inr seq, Suc seq))"

text \<open>\<^verbatim>\<open>WalletAddressIndex\<close> is read-only for the ORM, so the column of a new row holds its default: the next
  number of the same sequence where the comment of wallet.go has been followed (\<open>seqDefault\<close>), else null, read as 0.\<close>

definition insert_wallet ::
  "bool \<Rightarrow> string option \<Rightarrow> string \<Rightarrow> wallet \<Rightarrow> nat \<Rightarrow> user_db \<Rightarrow> handler_error option \<times> nat \<times> user_db" where
  "insert_wallet seqDefault fault dup w seq db =
     (let w' = w\<lparr>waAddressIndex := (if seqDefault then seq else 0), waDepositsEnabled := True\<rparr>;
          seq' = (if seqDefault then Suc seq else seq)
      in case fault of
           Some err \<Rightarrow> (Some (DBError err), seq, db)
         | None \<Rightarrow>
             if waUserID w' \<in> waUserID ` set (udWallets db) \<or> waAddress w' \<in> waAddress ` set (udWallets db)
             then (Some (duplicate_error dup), seq', db)
             else (None, seq', db\<lparr>udWallets := udWallets db @ [w']\<rparr>))"

definition CreateNewWallet ::
  "bool \<Rightarrow> string option \<Rightarrow> string option \<Rightarrow> string \<Rightarrow> (string \<Rightarrow> string + account) \<Rightarrow> string \<Rightarrow> nat \<Rightarrow> user_db \<Rightarrow>
   handler_error option \<times> nat \<times> user_db" where
  "CreateNewWallet seqDefault seqErr createErr dup ledger userID seq db =
     (case NextAddressIndex seqErr seq of
        (Inl err, seq) \<Rightarrow> (Some err, seq, db)
      | (Inr walletAddressIdx, seq) \<Rightarrow>
          (case GenerateWalletAddress ledger (of_nat walletAddressIdx) of
             Inl err \<Rightarrow> (Some (DBError err), seq, db)
           | Inr generatedWalletAccount \<Rightarrow>
               insert_wallet seqDefault createErr dup
                 (NewWalletAccount userID (acAddress generatedWalletAccount) walletAddressIdx SpotAccount
                    ActiveWalletAccount [] [] True) seq db))"

definition update_wallets :: "(wallet \<Rightarrow> bool) \<Rightarrow> (wallet \<Rightarrow> wallet) \<Rightarrow> user_db \<Rightarrow> user_db" where
  "update_wallets P f db = db\<lparr>udWallets := map (\<lambda>w. if P w then f w else w) (udWallets db)\<rparr>"

definition UpdateWalletAccountStatus ::
  "string option \<Rightarrow> string \<Rightarrow> string \<Rightarrow> string \<Rightarrow> string \<Rightarrow> user_db \<Rightarrow> handler_error option \<times> user_db" where
  "UpdateWalletAccountStatus fault userID newStatus statusReason frozenReason db =
     (case fault of Some err \<Rightarrow> (Some (DBError err), db)
      | None \<Rightarrow> (None, update_wallets (\<lambda>w. waUserID w = userID)
          (\<lambda>w. w\<lparr>waStatus := (if newStatus = [] then waStatus w else newStatus),
                 waStatusReason := Some statusReason, waFrozenReason := Some frozenReason\<rparr>) db))"

definition first_wallet :: "string option \<Rightarrow> (wallet \<Rightarrow> bool) \<Rightarrow> user_db \<Rightarrow> handler_error + wallet" where
  "first_wallet fault P db =
     (case fault of Some err \<Rightarrow> Inl (DBError err)
      | None \<Rightarrow> (case find P (udWallets db) of None \<Rightarrow> Inl RecordNotFound | Some w \<Rightarrow> Inr w))"

definition GetByUserID :: "string option \<Rightarrow> string \<Rightarrow> user_db \<Rightarrow> handler_error + wallet" where
  "GetByUserID fault userID db = first_wallet fault (\<lambda>w. waUserID w = userID) db"

definition GetByWalletAddress :: "string option \<Rightarrow> string \<Rightarrow> user_db \<Rightarrow> handler_error + wallet" where
  "GetByWalletAddress fault walletAddress db = first_wallet fault (\<lambda>w. waAddress w = walletAddress) db"

definition UpdateTheBalanceSync ::
  "string option \<Rightarrow> string \<Rightarrow> bool \<Rightarrow> time \<Rightarrow> user_db \<Rightarrow> handler_error option \<times> user_db" where
  "UpdateTheBalanceSync fault walletAddress flag lastBalanceSyncedAtTimestamp db =
     (case fault of Some err \<Rightarrow> (Some (DBError err), db)
      | None \<Rightarrow> (None, update_wallets (\<lambda>w. waAddress w = walletAddress)
          (\<lambda>w. w\<lparr>waBalanceSynced := flag, waLastSyncedAt := lastBalanceSyncedAtTimestamp\<rparr>) db))"

end
