(* ===== verification/Caches.thy ===== *)
theory Caches
  imports Text_Numbers
begin

text \<open>
  \<^verbatim>\<open>internal/adapter/repository/cache\<close>: the verification codes (auth\_email.go), the withdrawals that wait
  for the chain (transactions.go) and the request counters (rate\_limiter.go), each a set of keys in Redis. The client
  library is a record of the calls the code makes, over the state \<open>'s\<close> of the server: a parameter of every
  operation. A failed call gives its error. A time is a number of nanoseconds since the zero \<^verbatim>\<open>time.Time\<close>.
\<close>

record 's redis =
  rdSet :: "string \<Rightarrow> string \<Rightarrow> time \<Rightarrow> 's \<Rightarrow> string option \<times> 's"
  rdGet :: "string \<Rightarrow> 's \<Rightarrow> string + string"
  rdDel :: "string \<Rightarrow> 's \<Rightarrow> string option \<times> 's"
  rdTTL :: "string \<Rightarrow> 's \<Rightarrow> string + time"
  rdIncr :: "string \<Rightarrow> 's \<Rightarrow> (string + int) \<times> 's"
  rdExpire :: "string \<Rightarrow> time \<Rightarrow> 's \<Rightarrow> 's"

definition GMAIL_VERIFY_PREFIX :: string where "GMAIL_VERIFY_PREFIX = ''gmail_verify''"
definition PENDING_TRANSACTION_PREFIX :: string where "PENDING_TRANSACTION_PREFIX = ''pending_transaction''"
definition RATE_LIMIT_PREFIX :: string where "RATE_LIMIT_PREFIX = ''rate_limit''"

subsection \<open>Verification codes (auth\_email.go)\<close>

text \<open>The lifetime passed to \<^verbatim>\<open>SetGmailVerificationCode\<close> is not used: the cache's own one is.\<close>

definition gmail_key :: "string \<Rightarrow> string \<Rightarrow> string" where
  "gmail_key gmail username = GMAIL_VERIFY_PREFIX @ '':'' @ gmail @ '':'' @ username"

definition SetGmailVerificationCode ::
  "'s redis \<Rightarrow> time \<Rightarrow> time \<Rightarrow> string \<Rightarrow> string \<Rightarrow> string \<Rightarrow> 's \<Rightarrow> string option \<times> 's" where
  "SetGmailVerificationCode rd cacheTTL ttl gmail username code s = rdSet rd (gmail_key gmail username) code cacheTTL s"

definition GetGmailVerificationCode :: "'s redis \<Rightarrow> string \<Rightarrow> string \<Rightarrow> 's \<Rightarrow> string + string" where
  "GetGmailVerificationCode rd gmail username s = rdGet rd (gmail_key gmail username) s"

definition DeleteGmailVerificationCode :: "'s redis \<Rightarrow> string \<Rightarrow> string \<Rightarrow> 's \<Rightarrow> string option \<times> 's" where
  "DeleteGmailVerificationCode rd gmail username s = rdDel rd (gmail_key gmail username) s"

definition GetGmailVerificationCodeTimeLeft :: "'s redis \<Rightarrow> string \<Rightarrow> string \<Rightarrow> 's \<Rightarrow> string + time" where
  "GetGmailVerificationCodeTimeLeft rd gmail username s =
     (case rdTTL rd (gmail_key gmail username) s of Inl err \<Rightarrow> Inl err | Inr ttl \<Rightarrow> Inr ttl)"

subsection \<open>Pending withdrawals (transactions.go)\<close>

definition pending_key :: "string \<Rightarrow> string" where
  "pending_key trxHash = PENDING_TRANSACTION_PREFIX @ '':'' @ trxHash"

definition SetPendingTransaction :: "'s redis \<Rightarrow> time \<Rightarrow> string \<Rightarrow> 's \<Rightarrow> string option \<times> 's" where
  "SetPendingTransaction rd cacheTTL trxHash s = rdSet rd (pending_key trxHash) trxHash cacheTTL s"

definition GetPendingTransaction :: "'s redis \<Rightarrow> string \<Rightarrow> 's \<Rightarrow> string + string" where
  "GetPendingTransaction rd trxHash s = rdGet rd (pending_key trxHash) s"

definition DeletePendingTransaction :: "'s redis \<Rightarrow> string \<Rightarrow> 's \<Rightarrow> string option \<times> 's" where
  "DeletePendingTransaction rd trxHash s = rdDel rd (pending_key trxHash) s"

subsection \<open>Request counters (rate\_limiter.go)\<close>

definition truncate_time :: "time \<Rightarrow> time \<Rightarrow> time" where
  "truncate_time t d = (if d \<le> 0 then t else t - t mod d)"

definition unix_seconds :: "time \<Rightarrow> int" where
  "unix_seconds t = t div 1000000000 - 62135596800"

definition window_of :: "time \<Rightarrow> time \<Rightarrow> int" where
  "window_of ttl now = unix_seconds (truncate_time now ttl)"

definition rate_key :: "string \<Rightarrow> int \<Rightarrow> string" where
  "rate_key ip window = RATE_LIMIT_PREFIX @ '':'' @ ip @ '':'' @ fmt_int window"

definition Allow :: "'s redis \<Rightarrow> time \<Rightarrow> time \<Rightarrow> string \<Rightarrow> int \<Rightarrow> 's \<Rightarrow> (string + bool) \<times> 's" where
  "Allow rd ttl now ip maxRequests s =
     (let window = window_of ttl now;
          key = rate_key ip window
      in case rdIncr rd key s of
           (Inl err, s) \<Rightarrow> (Inl err, s)
         | (Inr n, s) \<Rightarrow>
             (let s = (if n = 1 then rdExpire rd key ttl s else s)
              in (Inr (n \<le> maxRequests), s)))"

subsection \<open>Lemmas\<close>

lemma split_last_colon:
  assumes "a @ CHR '':'' # b = c @ CHR '':'' # d" and "CHR '':'' \<notin> set b" and "CHR '':'' \<notin> set d"
  shows "a = c \<and> b = d"
proof -
  from assms(1) obtain us where "a = c @ us \<and> us @ CHR '':'' # b = CHR '':'' # d \<or> a @ us = c \<and> CHR '':'' # b = us @ CHR '':'' # d"
    by (auto simp: append_eq_append_conv2)
  then show ?thesis using assms(2,3) by (cases us) auto
qed

lemma rate_key_inj [simp]: "rate_key ip w = rate_key ip' w' \<longleftrightarrow> ip = ip' \<and> w = w'"
  using split_last_colon [of ip "fmt_int w" ip' "fmt_int w'"] colon_fmt_int by (auto simp: rate_key_def)

text \<open>Two users share a key only when an address or a name has a colon.\<close>

lemma gmail_key_inj:
  assumes "CHR '':'' \<notin> set u" and "CHR '':'' \<notin> set u'"
  shows "gmail_key g u = gmail_key g' u' \<longleftrightarrow> g = g' \<and> u = u'"
  using split_last_colon [OF _ assms, of g g'] by (auto simp: gmail_key_def)

lemma pending_key_inj [simp]: "pending_key h = pending_key h' \<longleftrightarrow> h = h'"
  by (simp add: pending_key_def)

text \<open>What Redis documents of its counters: \<^verbatim>\<open>INCR\<close> adds one to the key, taking an absent key as 0, and
  \<^verbatim>\<open>EXPIRE\<close> only sets a deadline.\<close>

definition redis_counts :: "'s redis \<Rightarrow> ('s \<Rightarrow> string \<Rightarrow> int) \<Rightarrow> bool" where
  "redis_counts rd counter =
     ((\<forall>k s. fst (rdIncr rd k s) = Inr (counter s k + 1) \<and>
            counter (snd (rdIncr rd k s)) = (counter s)(k := counter s k + 1)) \<and>
      (\<forall>k d s. counter (rdExpire rd k d s) = counter s))"

lemma Allow_counts:
  assumes "redis_counts rd counter" and "Allow rd ttl now ip maxRequests s = (v, s')"
  defines "k \<equiv> rate_key ip (window_of ttl now)"
  shows "v = Inr (counter s k < maxRequests) \<and> counter s' = (counter s)(k := counter s k + 1)"
proof -
  obtain r t where i: "rdIncr rd k s = (r, t)" by fastforce
  then have "r = Inr (counter s k + 1)" "counter t = (counter s)(k := counter s k + 1)"
    using assms(1) unfolding redis_counts_def by (metis fst_conv, metis snd_conv)
  then show ?thesis using assms i unfolding redis_counts_def by (auto simp: Allow_def Let_def)
qed

text \<open>A sequence of requests, each with its time and its address, and the verdict on each.\<close>

fun allow_run :: "'s redis \<Rightarrow> time \<Rightarrow> int \<Rightarrow> (time \<times> string) list \<Rightarrow> 's \<Rightarrow> ((string \<times> int) \<times> (string + bool)) list" where
  "allow_run rd ttl maxRequests [] s = []"
| "allow_run rd ttl maxRequests ((now, ip) # reqs) s =
     (case Allow rd ttl now ip maxRequests s of
        (v, s') \<Rightarrow> ((ip, window_of ttl now), v) # allow_run rd ttl maxRequests reqs s')"

definition requests_of :: "time \<Rightarrow> string \<Rightarrow> int \<Rightarrow> (time \<times> string) list \<Rightarrow> nat" where
  "requests_of ttl ip w reqs = length (filter (\<lambda>(now, i). i = ip \<and> window_of ttl now = w) reqs)"

definition allowed_of :: "string \<Rightarrow> int \<Rightarrow> ((string \<times> int) \<times> (string + bool)) list \<Rightarrow> nat" where
  "allowed_of ip w verdicts = length (filter (\<lambda>(k, v). k = (ip, w) \<and> v = Inr True) verdicts)"

lemma allow_run_counts:
  assumes "redis_counts rd counter" and "0 \<le> counter s (rate_key ip w)"
  shows "allowed_of ip w (allow_run rd ttl maxRequests reqs s) =
     min (nat (maxRequests - counter s (rate_key ip w))) (requests_of ttl ip w reqs)"
  using assms(2)
proof (induction reqs arbitrary: s)
  case (Cons r reqs)
  obtain now i where r: "r = (now, i)" by fastforce
  obtain v s' where a: "Allow rd ttl now i maxRequests s = (v, s')" by fastforce
  note c = Allow_counts [OF assms(1) a]
  have "0 \<le> counter s' (rate_key ip w)" using c Cons.prems by auto
  note ih = Cons.IH [OF this]
  show ?case
  proof (cases "i = ip \<and> window_of ttl now = w")
    case True
    then have "v = Inr (counter s (rate_key ip w) < maxRequests)"
      and "counter s' (rate_key ip w) = counter s (rate_key ip w) + 1" using c by auto
    then show ?thesis using ih True a r by (auto simp: allowed_of_def requests_of_def)
  next
    case False
    then have "counter s' (rate_key ip w) = counter s (rate_key ip w)" using c by auto
    then show ?thesis using ih False a r by (auto simp: allowed_of_def requests_of_def)
  qed
qed (simp add: allowed_of_def requests_of_def)

end
