(* ===== verification/Http_Security.thy ===== *)
theory Http_Security
  imports Http_Schema Users_Store Caches
begin

text \<open>
  What stands before a handler: \<^verbatim>\<open>internal/infrastructure/security\<close> (jwt.go, headers.go) and
  \<^verbatim>\<open>internal/adapter/handler/http/middleware.go\<close>. A request is its context: the headers it came with, the keys
  set on it, the response headers and the answer written so far. A middleware is handed the rest of the chain,
  which \<^verbatim>\<open>c.Next()\<close> runs, and gives the context, \<open>None\<close> when the call panics or does not return, and the state
  after it. The JWT library is
  the two parameters \<open>jwtSign\<close> and \<open>jwtParse\<close>, \<^verbatim>\<open>uuid.Parse\<close> is \<open>uuidParse\<close>.
\<close>

record gctx =
  gcHeaders :: "string \<Rightarrow> string"
  gcKeys :: "string \<Rightarrow> string option"
  gcClientIP :: string
  gcOut :: "(string \<times> string) list"
  gcAnswer :: "answer option"

type_synonym 's rest = "gctx \<Rightarrow> 's \<Rightarrow> gctx option \<times> 's"

definition respond :: "answer \<Rightarrow> gctx \<Rightarrow> gctx" where
  "respond a c = c\<lparr>gcAnswer := Some a\<rparr>"

definition set_key :: "string \<Rightarrow> string \<Rightarrow> gctx \<Rightarrow> gctx" where
  "set_key k v c = c\<lparr>gcKeys := (gcKeys c)(k \<mapsto> v)\<rparr>"

definition set_out :: "string \<Rightarrow> string \<Rightarrow> gctx \<Rightarrow> gctx" where
  "set_out k v c = c\<lparr>gcOut := gcOut c @ [(k, v)]\<rparr>"

definition failure :: "nat \<Rightarrow> string \<Rightarrow> answer" where
  "failure code msg = \<lparr> anStatus = code, anBody = GinError msg \<rparr>"

subsection \<open>Tokens (jwt.go)\<close>

text \<open>\<open>now1\<close> and \<open>now2\<close> are the two readings of the clock.\<close>

record claims =
  clUserID :: string
  clExpiresAt :: time
  clIssuedAt :: time

definition GenerateToken :: "(string \<Rightarrow> claims \<Rightarrow> string + string) \<Rightarrow> string \<Rightarrow> time \<Rightarrow> time \<Rightarrow> string \<Rightarrow> string + string" where
  "GenerateToken jwtSign jwtSecret now1 now2 userID =
     (let cl = \<lparr> clUserID = userID, clExpiresAt = now1 + 24 * hour, clIssuedAt = now2 \<rparr>
      in jwtSign jwtSecret cl)"

definition strip_bearer :: "string \<Rightarrow> string" where
  "strip_bearer tokenString =
     (if length tokenString > 7 \<and> take 7 tokenString = ''Bearer '' then drop 7 tokenString else tokenString)"

text \<open>\<open>jwtParse\<close> gives the error, or whether the token is valid and, when its claims are of the type asked for,
  the user ID among them.\<close>

definition AuthMiddleware ::
  "(string \<Rightarrow> string \<Rightarrow> string + (bool \<times> string option)) \<Rightarrow> string \<Rightarrow> 's rest \<Rightarrow> 's rest" where
  "AuthMiddleware jwtParse secret next c s =
     (let tokenString = gcHeaders c ''Authorization''
      in if tokenString = [] then (Some (respond (failure 401 ''Missing authorization token'') c), s)
         else
           let tokenString = strip_bearer tokenString
           in case jwtParse secret tokenString of
                Inl _ \<Rightarrow> (Some (respond (failure 401 ''Invalid token'') c), s)
              | Inr (valid, cls) \<Rightarrow>
                  if \<not> valid then (Some (respond (failure 401 ''Invalid token'') c), s)
                  else (case cls of
                          Some userID \<Rightarrow> next (set_key ''userID'' userID c) s
                        | None \<Rightarrow> (Some (respond (failure 401 ''Invalid token claims'') c), s)))"

definition SecurityHeadersMiddleware :: "'s rest \<Rightarrow> 's rest" where
  "SecurityHeadersMiddleware next c s =
     next (fold (\<lambda>(k, v). set_out k v)
       [(''X-Content-Type-Options'', ''nosniff''), (''X-Frame-Options'', ''DENY''),
        (''X-XSS-Protection'', ''1; mode=block''),
        (''Strict-Transport-Security'', ''max-age=31536000; includeSubDomains''),
        (''Referrer-Policy'', ''strict-origin-when-cross-origin''),
        (''Permissions-Policy'', ''geolocation=(), microphone=(), camera=()''),
        (''Content-Security-Policy'', ''default-src 'none'' @ [CHR 0x27]), (''Cache-Control'', ''no-store'')] c) s"

subsection \<open>Roles, forwarding and rate limiting (middleware.go)\<close>

definition RequireRole ::
  "string option \<Rightarrow> (string \<Rightarrow> string option) \<Rightarrow> user_db \<Rightarrow> string list \<Rightarrow> 's rest \<Rightarrow> 's rest" where
  "RequireRole fault uuidParse db roles next c s =
     (case gcKeys c ''userID'' of
        None \<Rightarrow> (Some (respond (failure 401 ''missing user identity'') c), s)
      | Some rawID \<Rightarrow>
          (case uuidParse rawID of
             None \<Rightarrow> (Some (respond (failure 401 ''invalid user identity'') c), s)
           | Some userID \<Rightarrow>
               (case GetUserByID fault userID db of
                  Inl _ \<Rightarrow> (Some (respond (failure 401 ''user not found'') c), s)
                | Inr user \<Rightarrow>
                    if list_ex (\<lambda>allowed. roName (usRole user) = allowed) roles then next c s
                    else (Some (respond (failure 403 ''insufficient permissions'') c), s))))"

definition forwarded :: "'s rest \<Rightarrow> 's rest" where
  "forwarded next c s =
     (let xff = gcHeaders c ''X-Forwarded-For'';
          c1 = (if xff \<noteq> [] then set_key ''real-ip'' (trim_space (hd (split_on CHR '','' xff))) c else c);
          xfp = gcHeaders c1 ''X-Forwarded-Proto'';
          c2 = (if xfp \<noteq> [] then set_key ''real-proto'' xfp c1 else c1)
      in next c2 s)"

definition limiter_ip :: "gctx \<Rightarrow> string" where
  "limiter_ip c =
     (let ip = (case gcKeys c ''real-ip'' of None \<Rightarrow> [] | Some v \<Rightarrow> v) in if ip = [] then gcClientIP c else ip)"

text \<open>\<open>fmtTime\<close> is \<^verbatim>\<open>Time.Format(http.TimeFormat)\<close> in UTC.\<close>

definition rateLimiter ::
  "'s redis \<Rightarrow> time \<Rightarrow> (time \<Rightarrow> string) \<Rightarrow> 'd env \<Rightarrow> nat \<Rightarrow> int \<Rightarrow> 's rest \<Rightarrow> 's rest" where
  "rateLimiter store ttl fmtTime e n maxRequests next c s =
     (let ip = limiter_ip c
      in case Allow store ttl (clock e n) ip maxRequests s of
           (Inl err, s) \<Rightarrow> next c s
         | (Inr allowed, s) \<Rightarrow>
             if \<not> allowed
             then (Some (respond (failure 429 ''too many requests'')
                    (set_out ''Retry-After'' (fmtTime (clock e (n + 1) + 60000000000)) c)), s)
             else next c s)"

text \<open>The router (\<^verbatim>\<open>http/router.go\<close>) drops the handler's error: what the client sees is the context's answer, or an
  empty 200.\<close>

definition apiPostHandler :: "(gctx \<Rightarrow> 's \<Rightarrow> (gctx \<times> 'e) option \<times> 's) \<Rightarrow> 's rest" where
  "apiPostHandler handler c s = (case handler c s of (r, s') \<Rightarrow> (map_option fst r, s'))"

subsection \<open>Lemmas\<close>

text \<open>The two outcomes of a request to a protected route.\<close>

lemma protected_outcome:
  "(\<exists>rawID userID user. jwtParse secret (strip_bearer (gcHeaders c ''Authorization'')) = Inr (True, Some rawID) \<and>
      uuidParse rawID = Some userID \<and> GetUserByID fault userID db = Inr user \<and> roName (usRole user) \<in> set roles \<and>
      AuthMiddleware jwtParse secret (RequireRole fault uuidParse db roles handler) c s = handler (set_key ''userID'' rawID c) s) \<or>
   (\<exists>a. AuthMiddleware jwtParse secret (RequireRole fault uuidParse db roles handler) c s = (Some a, s) \<and>
      (case gcAnswer a of None \<Rightarrow> False | Some r \<Rightarrow> anStatus r = 401 \<or> anStatus r = 403))"
proof (cases "\<exists>rawID. jwtParse secret (strip_bearer (gcHeaders c ''Authorization'')) = Inr (True, Some rawID) \<and>
    gcHeaders c ''Authorization'' \<noteq> []")
  case False
  then show ?thesis
    by (auto simp: AuthMiddleware_def Let_def respond_def failure_def split: sum.splits option.splits)
next
  case True
  then obtain rawID where p: "jwtParse secret (strip_bearer (gcHeaders c ''Authorization'')) = Inr (True, Some rawID)"
    and a: "AuthMiddleware jwtParse secret (RequireRole fault uuidParse db roles handler) c s =
      RequireRole fault uuidParse db roles handler (set_key ''userID'' rawID c) s" by (auto simp: AuthMiddleware_def Let_def)
  have k: "gcKeys (set_key ''userID'' rawID c) ''userID'' = Some rawID" by (simp add: set_key_def)
  show ?thesis unfolding a RequireRole_def k using p
    by (auto simp: respond_def failure_def list_ex_iff split: sum.splits option.splits)
qed

lemma protected_cases:
  obtains (ran) rawID userID user where
      "jwtParse secret (strip_bearer (gcHeaders c ''Authorization'')) = Inr (True, Some rawID)"
      "uuidParse rawID = Some userID" "GetUserByID fault userID db = Inr user" "roName (usRole user) \<in> set roles"
      "AuthMiddleware jwtParse secret (RequireRole fault uuidParse db roles handler) c s = handler (set_key ''userID'' rawID c) s"
    | (refused) a where
      "AuthMiddleware jwtParse secret (RequireRole fault uuidParse db roles handler) c s = (Some a, s)"
  using protected_outcome [of jwtParse secret c uuidParse fault db roles handler s] by blast

subsection \<open>Properties\<close>

text \<open>Only an authorised caller reaches a protected handler: behind the token check and the role check,
  either the handler ran, and then the token was valid, named a user that exists, and that user's role is one
  of the allowed ones; or the request was answered 401 or 403 with the state as it was.\<close>

theorem protected_handler_needs_role:
  "(\<exists>rawID userID user. jwtParse secret (strip_bearer (gcHeaders c ''Authorization'')) = Inr (True, Some rawID) \<and>
      uuidParse rawID = Some userID \<and> GetUserByID fault userID db = Inr user \<and> roName (usRole user) \<in> set roles \<and>
      AuthMiddleware jwtParse secret (RequireRole fault uuidParse db roles handler) c s = handler (set_key ''userID'' rawID c) s) \<or>
   (\<exists>a. AuthMiddleware jwtParse secret (RequireRole fault uuidParse db roles handler) c s = (Some a, s) \<and>
      (case gcAnswer a of None \<Rightarrow> False | Some r \<Rightarrow> anStatus r = 401 \<or> anStatus r = 403))"
  by (rule protected_outcome)

text \<open>C34: Within one window the limiter lets through exactly the first \<^verbatim>\<open>maxRequests\<close> requests of an address: over
  any interleaving with other addresses and other windows, the requests of an address that are allowed number
  the smaller of the limit and of those made, and no other address's traffic uses them up.\<close>

theorem rate_limit_is_exact:
  assumes "redis_counts rd counter" and "counter s (rate_key ip w) = 0"
  shows "allowed_of ip w (allow_run rd ttl maxRequests reqs s) = min (nat maxRequests) (requests_of ttl ip w reqs)"
  using allow_run_counts [OF assms(1), of s ip w ttl maxRequests reqs] assms(2) by simp

definition sample_redis :: "(string \<Rightarrow> int) redis" where
  "sample_redis = \<lparr> rdSet = (\<lambda>k v d s. (None, s)), rdGet = (\<lambda>k s. Inl ''nil''), rdDel = (\<lambda>k s. (None, s)),
     rdTTL = (\<lambda>k s. Inr (- 2)), rdIncr = (\<lambda>k s. (Inr (s k + 1), s(k := s k + 1))), rdExpire = (\<lambda>k d s. s) \<rparr>"

lemma sample_redis_counts: "redis_counts sample_redis (\<lambda>s. s)"
  by (simp add: redis_counts_def sample_redis_def)

definition sample_requests :: "(time \<times> string) list" where
  "sample_requests = [(0, ''1.1.1.1''), (5, ''2.2.2.2''), (9, ''1.1.1.1''), (10, ''1.1.1.1''), (70000000000, ''1.1.1.1'')]"

theorem rate_limit_is_exact_witness:
  "allowed_of ''1.1.1.1'' (window_of 60000000000 0)
     (allow_run sample_redis 60000000000 2 sample_requests (\<lambda>_. 0)) = 2"
proof -
  have "requests_of 60000000000 ''1.1.1.1'' (window_of 60000000000 0) sample_requests = 3" by code_simp
  then show ?thesis using rate_limit_is_exact [OF sample_redis_counts, of "\<lambda>_. 0"] by simp
qed

text \<open>The address that is limited is the one the client writes: a request whose \<^verbatim>\<open>X-Forwarded-For\<close> begins with a
  text not counted in this window passes the limiter, wherever it comes from and however many came before.\<close>

theorem fresh_forwarded_address_passes:
  assumes "redis_counts rd counter" and "0 < maxRequests"
    and "gcHeaders c ''X-Forwarded-For'' = claimed @ '','' @ others" and "CHR '','' \<notin> set claimed"
    and "trim_space claimed \<noteq> []" and "counter s (rate_key (trim_space claimed) (window_of ttl (clock e n))) = 0"
  shows "\<exists>c' s'. gcKeys c' ''real-ip'' = Some (trim_space claimed) \<and>
     forwarded (rateLimiter rd ttl fmtTime e n maxRequests handler) c s = handler c' s'"
proof -
  define c1 where "c1 = set_key ''real-ip'' (trim_space claimed) c"
  define c2 where "c2 = (if gcHeaders c1 ''X-Forwarded-Proto'' \<noteq> [] then set_key ''real-proto'' (gcHeaders c1 ''X-Forwarded-Proto'') c1 else c1)"
  have ip: "gcKeys c2 ''real-ip'' = Some (trim_space claimed)" by (simp add: c1_def c2_def set_key_def)
  have f: "forwarded nx c s = nx c2 s" for nx :: "'a rest"
    using assms(3,4) by (simp add: forwarded_def c1_def c2_def split_on_append Let_def)
  obtain v s' where a: "Allow rd ttl (clock e n) (trim_space claimed) maxRequests s = (v, s')" by fastforce
  then have "v = Inr True" using Allow_counts [OF assms(1) a] assms(2,6) by simp
  then have "rateLimiter rd ttl fmtTime e n maxRequests handler c2 s = handler c2 s'"
    using a ip assms(5) by (simp add: rateLimiter_def limiter_ip_def)
  then show ?thesis using f ip by (intro exI [of _ c2] exI [of _ s']) simp
qed

definition sample_ctx :: gctx where
  "sample_ctx = \<lparr> gcHeaders = (\<lambda>k. if k = ''X-Forwarded-For'' then ''7.7.7.7, 9.9.9.9'' else []), gcKeys = (\<lambda>_. None),
     gcClientIP = ''9.9.9.9'', gcOut = [], gcAnswer = None \<rparr>"

definition busy :: "string \<Rightarrow> int" where
  "busy k = (if k = rate_key ''9.9.9.9'' (window_of 60000000000 0) then 1000 else 0)"

theorem fresh_forwarded_address_passes_witness:
  "(case forwarded (rateLimiter sample_redis 60000000000 (\<lambda>_. []) \<lparr> uuid = (\<lambda>_. []), clock = (\<lambda>_. 0), dec_str = (\<lambda>_ :: int. []) \<rparr> 0 60
      (\<lambda>c s. (Some (respond (failure 200 []) c), s))) sample_ctx busy of
     (None, s) \<Rightarrow> False | (Some c, s) \<Rightarrow> gcAnswer c = Some (failure 200 []))"
proof -
  have t: "trim_space ''7.7.7.7'' = ''7.7.7.7''" by code_simp
  let ?e = "\<lparr> uuid = (\<lambda>_. []), clock = (\<lambda>_. 0), dec_str = (\<lambda>_ :: int. []) \<rparr>"
  have "\<exists>c' s'. gcKeys c' ''real-ip'' = Some (trim_space ''7.7.7.7'') \<and>
     forwarded (rateLimiter sample_redis 60000000000 (\<lambda>_. []) ?e 0 60 (\<lambda>c s. (Some (respond (failure 200 []) c), s)))
       sample_ctx busy = (\<lambda>c s. (Some (respond (failure 200 []) c), s)) c' s'"
    by (rule fresh_forwarded_address_passes [OF sample_redis_counts, where others = "'' 9.9.9.9''"])
      (simp_all add: t sample_ctx_def busy_def)
  then show ?thesis by (auto simp: respond_def)
qed

end
