(* ===== verification/Password_Hash.thy ===== *)
theory Password_Hash
  imports Text_Numbers
begin

text \<open>
  \<^verbatim>\<open>internal/infrastructure/security/hashlib.go\<close>: Argon2id hashes of passwords in the reference text format, and
  \<^verbatim>\<open>internal/domain/services/user\_service.go\<close>, which the handlers call. The package \<^verbatim>\<open>golang.org/x/crypto/argon2\<close>
  is a parameter: its version constant, and \<open>IDKey\<close>, which gives \<open>None\<close> where it panics. \<open>rand\<close> is one read of
  \<^verbatim>\<open>crypto/rand\<close>. A function gives \<open>None\<close> when the call panics.
\<close>

record params =
  pMemory :: "32 word"
  pIterations :: "32 word"
  pParallelism :: "8 word"
  pSaltLength :: "32 word"
  pKeyLength :: "32 word"

definition DefaultParams :: "8 word \<Rightarrow> params" where
  "DefaultParams numCPU =
     \<lparr> pMemory = 64 * 1024, pIterations = 1, pParallelism = numCPU, pSaltLength = 16, pKeyLength = 32 \<rparr>"

datatype hash_error =
    ErrInvalidHash | ErrIncompatibleVariant | ErrIncompatibleVersion | ScanFailed | CorruptInput | RandFailed string

record argon2 =
  arVersion :: "64 word"
  arIDKey :: "string \<Rightarrow> string \<Rightarrow> 32 word \<Rightarrow> 32 word \<Rightarrow> 8 word \<Rightarrow> 32 word \<Rightarrow> string option"

definition generateRandomBytes :: "(nat \<Rightarrow> string + string) \<Rightarrow> 32 word \<Rightarrow> hash_error + string" where
  "generateRandomBytes rand n =
     (case rand (unat n) of Inl err \<Rightarrow> Inl (RandFailed err) | Inr b \<Rightarrow> Inr b)"

definition format_hash :: "64 word \<Rightarrow> params \<Rightarrow> string \<Rightarrow> string \<Rightarrow> string" where
  "format_hash version params b64Salt b64Key =
     ''$argon2id$'' @ ''v='' @ fmt_int (sint version) @ ''$'' @
     ''m='' @ fmt_int (uint (pMemory params)) @ '',t='' @ fmt_int (uint (pIterations params)) @
     '',p='' @ fmt_int (uint (pParallelism params)) @ ''$'' @ b64Salt @ ''$'' @ b64Key"

definition CreateHash ::
  "argon2 \<Rightarrow> (nat \<Rightarrow> string + string) \<Rightarrow> string \<Rightarrow> params \<Rightarrow> (hash_error + string) option" where
  "CreateHash a rand password params =
     (case generateRandomBytes rand (pSaltLength params) of
        Inl err \<Rightarrow> Some (Inl err)
      | Inr salt \<Rightarrow>
          (case arIDKey a password salt (pIterations params) (pMemory params) (pParallelism params) (pKeyLength params) of
             None \<Rightarrow> None
           | Some key \<Rightarrow>
               (let b64Salt = b64_encode salt; b64Key = b64_encode key
                in Some (Inr (format_hash (arVersion a) params b64Salt b64Key)))))"

text \<open>The three reads of the header: the variant, the version and the parameters, with what is left unread.\<close>

definition scan_params :: "string \<Rightarrow> (params \<times> string) option" where
  "scan_params s =
     (case scan_lit ''m='' s of None \<Rightarrow> None | Some s \<Rightarrow>
      case scan_uint 32 s of None \<Rightarrow> None | Some (m, s) \<Rightarrow>
      case scan_lit '',t='' s of None \<Rightarrow> None | Some s \<Rightarrow>
      case scan_uint 32 s of None \<Rightarrow> None | Some (t, s) \<Rightarrow>
      case scan_lit '',p='' s of None \<Rightarrow> None | Some s \<Rightarrow>
      case scan_uint 8 s of None \<Rightarrow> None | Some (p, s) \<Rightarrow>
      case scan_lit ''$'' s of None \<Rightarrow> None | Some s \<Rightarrow>
        Some (\<lparr> pMemory = of_nat m, pIterations = of_nat t, pParallelism = of_nat p, pSaltLength = 0, pKeyLength = 0 \<rparr>, s))"

definition scan_version :: "string \<Rightarrow> (int \<times> string) option" where
  "scan_version s =
     (case scan_lit ''v='' s of None \<Rightarrow> None | Some s \<Rightarrow>
      case scan_int s of None \<Rightarrow> None | Some (v, s) \<Rightarrow>
      case scan_lit ''$'' s of None \<Rightarrow> None | Some s \<Rightarrow> Some (v, s))"

definition DecodeHash :: "argon2 \<Rightarrow> string \<Rightarrow> hash_error + (params \<times> string \<times> string)" where
  "DecodeHash a hash =
     (case scan_lit ''$argon2id$'' hash of None \<Rightarrow> Inl ErrIncompatibleVariant | Some r \<Rightarrow>
      case scan_version r of None \<Rightarrow> Inl ScanFailed | Some (version, r) \<Rightarrow>
      if version \<noteq> sint (arVersion a) then Inl ErrIncompatibleVersion else
      case scan_params r of None \<Rightarrow> Inl ScanFailed | Some (params, rest) \<Rightarrow>
      if CHR 0x0D \<in> set rest \<or> CHR 0x0A \<in> set rest then Inl ErrInvalidHash else
      case index_of (\<lambda>c. c = CHR ''$'') rest of None \<Rightarrow> Inl ErrInvalidHash | Some i \<Rightarrow>
      case b64_decode (take i rest) of None \<Rightarrow> Inl CorruptInput | Some salt \<Rightarrow>
      case b64_decode (drop (i + 1) rest) of None \<Rightarrow> Inl CorruptInput | Some key \<Rightarrow>
        Inr (params\<lparr>pSaltLength := of_nat (length salt), pKeyLength := of_nat (length key)\<rparr>, salt, key))"

definition CheckHash ::
  "argon2 \<Rightarrow> string \<Rightarrow> string \<Rightarrow> (hash_error + (bool \<times> params)) option" where
  "CheckHash a password hash =
     (case DecodeHash a hash of
        Inl err \<Rightarrow> Some (Inl err)
      | Inr (params, salt, key) \<Rightarrow>
          (case arIDKey a password salt (pIterations params) (pMemory params) (pParallelism params) (pKeyLength params) of
             None \<Rightarrow> None
           | Some otherKey \<Rightarrow>
               if (of_nat (length key) :: 32 word) \<noteq> of_nat (length otherKey) then Some (Inr (False, params))
               else if key = otherKey then Some (Inr (True, params))
               else Some (Inr (False, params))))"

definition ComparePasswordAndHash :: "argon2 \<Rightarrow> string \<Rightarrow> string \<Rightarrow> (hash_error + bool) option" where
  "ComparePasswordAndHash a password hash =
     (case CheckHash a password hash of
        None \<Rightarrow> None | Some (Inl err) \<Rightarrow> Some (Inl err) | Some (Inr (match, _)) \<Rightarrow> Some (Inr match))"

subsection \<open>The calls of the user service\<close>

definition GetUserPasswordHash ::
  "argon2 \<Rightarrow> 8 word \<Rightarrow> (nat \<Rightarrow> string + string) \<Rightarrow> string \<Rightarrow> (hash_error + string) option" where
  "GetUserPasswordHash a numCPU rand rawPassword = CreateHash a rand rawPassword (DefaultParams numCPU)"

definition VerifyUserPasswordHash :: "argon2 \<Rightarrow> string \<Rightarrow> string \<Rightarrow> (hash_error + bool) option" where
  "VerifyUserPasswordHash a rawPassword passwordHash = ComparePasswordAndHash a rawPassword passwordHash"

text \<open>\<open>rnd i n\<close> is the \<open>i\<close>-th random number below \<open>n\<close> that \<^verbatim>\<open>rand.Int\<close> gives, \<open>None\<close> when it fails.\<close>

definition charset :: string where
  "charset = ''abcdefghijklmnopqrstuvwxyzABCDEFGHIJKLMNOPQRSTUVWXYZ0123456789''"

fun random_chars :: "(nat \<Rightarrow> nat \<Rightarrow> nat option) \<Rightarrow> nat \<Rightarrow> nat \<Rightarrow> string option" where
  "random_chars rnd i 0 = Some []"
| "random_chars rnd i (Suc k) =
     (case rnd i (length charset) of
        None \<Rightarrow> None
      | Some n \<Rightarrow> map_option (\<lambda>s. charset ! n # s) (random_chars rnd (Suc i) k))"

definition GenerateRandomString :: "(nat \<Rightarrow> nat \<Rightarrow> nat option) \<Rightarrow> nat \<Rightarrow> string" where
  "GenerateRandomString rnd n = (case random_chars rnd 0 n of None \<Rightarrow> [] | Some s \<Rightarrow> s)"

subsection \<open>What the libraries are documented to do\<close>

text \<open>\<^verbatim>\<open>rand.Read\<close> fills the whole slice, and a derived key has the length asked for.\<close>

definition rand_fills :: "(nat \<Rightarrow> string + string) \<Rightarrow> bool" where
  "rand_fills rand = (\<forall>n b. rand n = Inr b \<longrightarrow> length b = n)"

definition keys_sized :: "argon2 \<Rightarrow> bool" where
  "keys_sized a = (\<forall>pw salt t m p n key. arIDKey a pw salt t m p n = Some key \<longrightarrow> length key = unat n)"

subsection \<open>Lemmas\<close>

lemma fmt_int_uint: "fmt_int (uint w) = dec_digits (unat w)"
  by (simp add: fmt_int_def)

lemma scan_uint_word:
  assumes "s = [] \<or> \<not> is_digit (hd s)" and "n = LENGTH('a)"
  shows "scan_uint n (dec_digits (unat (w :: 'a::len word)) @ s) = Some (unat w, s)"
  unfolding assms(2) by (rule scan_uint_digits) (rule unsigned_less, rule assms(1))

lemma not_digit: "\<not> is_digit CHR ''$''" "\<not> is_digit CHR '',''"
  by (simp_all add: is_digit_def)

lemma scan_params_format:
  "scan_params (''m='' @ fmt_int (uint m) @ '',t='' @ fmt_int (uint t) @ '',p='' @ fmt_int (uint p) @ ''$'' @ s) =
     Some (\<lparr> pMemory = m, pIterations = t, pParallelism = p, pSaltLength = 0, pKeyLength = 0 \<rparr>, s)"
proof -
  have m: "scan_uint 32 (dec_digits (unat m) @ CHR '','' # r) = Some (unat m, CHR '','' # r)" for m :: "32 word" and r
    by (rule scan_uint_word) (simp_all add: not_digit)
  have p: "scan_uint 8 (dec_digits (unat p) @ CHR ''$'' # r) = Some (unat p, CHR ''$'' # r)" for r
    by (rule scan_uint_word) (simp_all add: not_digit)
  show ?thesis by (simp add: scan_params_def fmt_int_uint m p)
qed

lemma scan_version_format: "scan_version (''v='' @ fmt_int (sint (v :: 64 word)) @ ''$'' @ s) = Some (sint v, s)"
proof -
  have "scan_int (fmt_int (sint v) @ CHR ''$'' # s) = Some (sint v, CHR ''$'' # s)"
    using sint_ge [of v] sint_lt [of v] by (intro scan_int_fmt) (simp_all add: not_digit)
  then show ?thesis by (simp add: scan_version_def)
qed

lemma index_of_sep: "c \<notin> set s \<Longrightarrow> index_of (\<lambda>x. x = c) (s @ c # t) = Some (length s)"
  by (induction s) auto

lemma DecodeHash_format:
  "DecodeHash a (format_hash (arVersion a) params (b64_encode salt) (b64_encode key)) =
     Inr (params\<lparr>pSaltLength := of_nat (length salt), pKeyLength := of_nat (length key)\<rparr>, salt, key)"
proof -
  let ?rest = "b64_encode salt @ CHR ''$'' # b64_encode key"
  have clean: "CHR 0x0D \<notin> set ?rest" "CHR 0x0A \<notin> set ?rest" using b64_encode_set by auto
  have ix: "index_of (\<lambda>c. c = CHR ''$'') ?rest = Some (length (b64_encode salt))"
    using b64_encode_set by (intro index_of_sep) blast
  note v = scan_version_format [of "arVersion a", simplified]
  note p = scan_params_format [of "pMemory params" "pIterations params" "pParallelism params", simplified]
  have "scan_lit ''$argon2id$'' (format_hash (arVersion a) params (b64_encode salt) (b64_encode key)) =
    Some (''v='' @ fmt_int (sint (arVersion a)) @ ''$'' @ ''m='' @ fmt_int (uint (pMemory params)) @
      '',t='' @ fmt_int (uint (pIterations params)) @ '',p='' @ fmt_int (uint (pParallelism params)) @ ''$'' @ ?rest)"
    by (simp add: format_hash_def)
  then show ?thesis using clean ix by (simp add: DecodeHash_def v p)
qed

lemma CreateHash_decodes:
  assumes "CreateHash a rand password params = Some (Inr hash)"
    and "rand_fills rand" and "keys_sized a"
  obtains salt key where "rand (unat (pSaltLength params)) = Inr salt"
    "arIDKey a password salt (pIterations params) (pMemory params) (pParallelism params) (pKeyLength params) = Some key"
    "DecodeHash a hash = Inr (params, salt, key)"
proof -
  obtain salt key where s: "rand (unat (pSaltLength params)) = Inr salt"
    and k: "arIDKey a password salt (pIterations params) (pMemory params) (pParallelism params) (pKeyLength params) = Some key"
    and h: "hash = format_hash (arVersion a) params (b64_encode salt) (b64_encode key)"
    using assms(1) by (auto simp: CreateHash_def generateRandomBytes_def Let_def split: sum.splits option.splits)
  have "params\<lparr>pSaltLength := of_nat (length salt), pKeyLength := of_nat (length key)\<rparr> = params"
    using assms(2,3) s k by (simp add: rand_fills_def keys_sized_def)
  then have "DecodeHash a hash = Inr (params, salt, key)" by (simp add: h DecodeHash_format)
  then show ?thesis using that s k by blast
qed

lemma random_chars_Some: "random_chars rnd i n = Some s \<Longrightarrow> length s = n"
  by (induction rnd i n arbitrary: s rule: random_chars.induct) (auto split: option.splits)

lemma GenerateRandomString_length: "GenerateRandomString rnd n = [] \<or> length (GenerateRandomString rnd n) = n"
  using random_chars_Some by (auto simp: GenerateRandomString_def split: option.splits)

subsection \<open>Properties\<close>

text \<open>C25: A stored password hash loses nothing: decoding the text that \<^verbatim>\<open>CreateHash\<close> returned gives back the
  parameters it was called with, the salt it drew and the derived key, byte for byte, whatever these are; a
  library whose keys and random reads have the requested lengths is all this takes.\<close>

theorem password_hash_roundtrip:
  assumes "CreateHash a rand password params = Some (Inr hash)"
    and "rand_fills rand" and "keys_sized a"
  shows "\<exists>salt key. DecodeHash a hash = Inr (params, salt, key) \<and> rand (unat (pSaltLength params)) = Inr salt \<and>
     arIDKey a password salt (pIterations params) (pMemory params) (pParallelism params) (pKeyLength params) = Some key"
proof -
  from assms obtain salt key where "rand (unat (pSaltLength params)) = Inr salt"
    "arIDKey a password salt (pIterations params) (pMemory params) (pParallelism params) (pKeyLength params) = Some key"
    "DecodeHash a hash = Inr (params, salt, key)" by (rule CreateHash_decodes)
  then show ?thesis by blast
qed

definition sample_argon2 :: argon2 where
  "sample_argon2 = \<lparr> arVersion = 19,
     arIDKey = (\<lambda>pw salt t m p n. if t = 0 \<or> p = 0 then None
       else Some (take (unat n) (pw @ salt @ replicate (unat n) CHR ''k''))) \<rparr>"

definition sample_rand :: "nat \<Rightarrow> string + string" where
  "sample_rand n = Inr (replicate n CHR ''s'')"

lemma sample_laws:
  "rand_fills sample_rand" "keys_sized sample_argon2"
  by (auto simp: rand_fills_def keys_sized_def sample_rand_def sample_argon2_def split: if_splits)

lemma sample_created:
  "GetUserPasswordHash sample_argon2 4 sample_rand ''hunter2'' =
     Some (Inr (format_hash 19 (DefaultParams 4) (b64_encode (replicate 16 CHR ''s''))
       (b64_encode (''hunter2'' @ replicate 16 CHR ''s'' @ replicate 9 CHR ''k''))))"
  by (simp add: GetUserPasswordHash_def CreateHash_def generateRandomBytes_def sample_rand_def sample_argon2_def
      DefaultParams_def Let_def)

theorem password_hash_roundtrip_witness:
  "\<exists>hash salt key. GetUserPasswordHash sample_argon2 4 sample_rand ''hunter2'' = Some (Inr hash) \<and>
     DecodeHash sample_argon2 hash = Inr (DefaultParams 4, salt, key) \<and> length salt = 16 \<and> length key = 32"
proof -
  note created = sample_created [unfolded GetUserPasswordHash_def]
  from password_hash_roundtrip [OF created sample_laws]
  obtain salt key where
    "DecodeHash sample_argon2 (format_hash 19 (DefaultParams 4) (b64_encode (replicate 16 CHR ''s''))
       (b64_encode (''hunter2'' @ replicate 16 CHR ''s'' @ replicate 9 CHR ''k''))) = Inr (DefaultParams 4, salt, key)"
    "sample_rand (unat (pSaltLength (DefaultParams 4))) = Inr salt"
    "arIDKey sample_argon2 ''hunter2'' salt (pIterations (DefaultParams 4)) (pMemory (DefaultParams 4))
       (pParallelism (DefaultParams 4)) (pKeyLength (DefaultParams 4)) = Some key" by blast
  moreover from this have "length salt = 16" "length key = 32"
    using sample_laws by (simp_all add: rand_fills_def keys_sized_def DefaultParams_def)
  ultimately show ?thesis using sample_created by blast
qed

text \<open>C26: A hash accepts its own password and nothing weaker: a password verifies against the text that
  \<^verbatim>\<open>CreateHash\<close> returned exactly when Argon2id derives the same key from it under the stored salt and
  parameters; in particular the password that was hashed verifies.\<close>

theorem password_accepted_iff_same_key:
  assumes "CreateHash a rand password params = Some (Inr hash)"
    and "rand_fills rand" and "keys_sized a"
  shows "\<exists>salt. rand (unat (pSaltLength params)) = Inr salt \<and>
     ComparePasswordAndHash a password hash = Some (Inr True) \<and>
     (\<forall>pw. (ComparePasswordAndHash a pw hash = Some (Inr True)) =
       (arIDKey a pw salt (pIterations params) (pMemory params) (pParallelism params) (pKeyLength params) =
        arIDKey a password salt (pIterations params) (pMemory params) (pParallelism params) (pKeyLength params)))"
proof -
  from assms obtain salt key where r: "rand (unat (pSaltLength params)) = Inr salt"
    and k: "arIDKey a password salt (pIterations params) (pMemory params) (pParallelism params) (pKeyLength params) = Some key"
    and d: "DecodeHash a hash = Inr (params, salt, key)" by (rule CreateHash_decodes)
  have "(ComparePasswordAndHash a pw hash = Some (Inr True)) =
      (arIDKey a pw salt (pIterations params) (pMemory params) (pParallelism params) (pKeyLength params) = Some key)" for pw
    using d by (auto simp: ComparePasswordAndHash_def CheckHash_def split: option.splits if_splits)
  then show ?thesis using r k by simp
qed

theorem password_accepted_iff_same_key_witness:
  "\<exists>hash. GetUserPasswordHash sample_argon2 4 sample_rand ''hunter2'' = Some (Inr hash) \<and>
     VerifyUserPasswordHash sample_argon2 ''hunter2'' hash = Some (Inr True) \<and>
     VerifyUserPasswordHash sample_argon2 ''hunter3'' hash \<noteq> Some (Inr True)"
proof -
  note created = sample_created [unfolded GetUserPasswordHash_def]
  define hash where "hash = format_hash 19 (DefaultParams 4) (b64_encode (replicate 16 CHR ''s''))
       (b64_encode (''hunter2'' @ replicate 16 CHR ''s'' @ replicate 9 CHR ''k''))"
  from password_accepted_iff_same_key [OF created [folded hash_def] sample_laws]
  obtain salt where s: "sample_rand (unat (pSaltLength (DefaultParams 4))) = Inr salt"
    and own: "ComparePasswordAndHash sample_argon2 ''hunter2'' hash = Some (Inr True)"
    and iff: "\<forall>pw. (ComparePasswordAndHash sample_argon2 pw hash = Some (Inr True)) =
       (arIDKey sample_argon2 pw salt (pIterations (DefaultParams 4)) (pMemory (DefaultParams 4))
          (pParallelism (DefaultParams 4)) (pKeyLength (DefaultParams 4)) =
        arIDKey sample_argon2 ''hunter2'' salt (pIterations (DefaultParams 4)) (pMemory (DefaultParams 4))
          (pParallelism (DefaultParams 4)) (pKeyLength (DefaultParams 4)))" by blast
  have "salt = replicate 16 CHR ''s''" using s by (simp add: sample_rand_def DefaultParams_def)
  then have "ComparePasswordAndHash sample_argon2 ''hunter3'' hash \<noteq> Some (Inr True)"
    using iff by (simp add: sample_argon2_def DefaultParams_def)
  then show ?thesis using own sample_created hash_def by (auto simp: VerifyUserPasswordHash_def)
qed

end
