(* ===== verification/Order_Usecases.thy ===== *)
theory Order_Usecases
  imports Match_Engine
begin

text \<open>
  \<^verbatim>\<open>internal/usecases/order\<close> (submit.go, cancel\_limit.go) and the transaction of
  \<^verbatim>\<open>internal/adapter/repository/postgres/unit\_of\_work.go\<close>. A use case gives the effects on the broker, the
  database after the call, and its result: the error, if any, and the engine; the result is \<open>None\<close> when the
  call panics or does not return, and the transaction is then rolled back. The faults of the database and
  what \<^verbatim>\<open>Create\<close> answers to a nil entity are parameters.
\<close>

datatype uc_error =
    BadPairFormat | StoreError handler_error | EngineError engine_error | CommitError string

text \<open>The body's error rolls the transaction back, and so does a panic; otherwise it commits.\<close>

definition WithinTransaction ::
  "string option \<Rightarrow> ('db \<Rightarrow> 'e list \<times> 'db \<times> (uc_error option \<times> 'm) option) \<Rightarrow> 'db \<Rightarrow>
   'e list \<times> 'db \<times> (uc_error option \<times> 'm) option" where
  "WithinTransaction commitErr handler db =
     (case handler db of
        (out, db', None) \<Rightarrow> (out, db, None)
      | (out, db', Some (Some err, m)) \<Rightarrow> (out, db, Some (Some err, m))
      | (out, db', Some (None, m)) \<Rightarrow>
          (case commitErr of
             Some err \<Rightarrow> (out, db, Some (Some (CommitError err), m))
           | None \<Rightarrow> (out, db', Some (None, m))))"

definition normalizeOrder :: "string \<Rightarrow> string \<Rightarrow> string \<times> string" where
  "normalizeOrder orderType side = (to_lower orderType, to_lower side)"

definition uc_SubmitOrder ::
  "('d order_event \<Rightarrow> kafka_error option option) \<Rightarrow> string option \<Rightarrow> handler_error option \<Rightarrow> string option \<Rightarrow>
   'd::linordered_idom env \<Rightarrow> nat \<Rightarrow> string \<Rightarrow> string \<Rightarrow> string \<Rightarrow> string \<Rightarrow> 'd \<Rightarrow> 'd \<Rightarrow> time option \<Rightarrow>
   'd engine \<Rightarrow> 'd order_db \<Rightarrow> 'd effect list \<times> 'd order_db \<times> (uc_error option \<times> 'd engine) option" where
  "uc_SubmitOrder pub createErr createNil commitErr e n userID pair orderType side price quantity expiresAt me db =
     (case normalizeOrder orderType side of (orderType, side) \<Rightarrow>
        WithinTransaction commitErr (\<lambda>db.
          if contains_char CHR ''/'' pair \<or> contains_char CHR ''-'' pair
          then (case split_on CHR ''-'' pair of
             base # quote # _ \<Rightarrow>
               (case ent_NewOrder userID (base @ ''/'' @ quote) orderType side price quantity expiresAt (clock e n) of
                  None \<Rightarrow> (case createNil of
                     Some err \<Rightarrow> ([], db, Some (Some (StoreError err), me)) | None \<Rightarrow> ([], db, None))
                | Some orderEntity \<Rightarrow>
                    (case CreateOrder createErr (uuid e n) (clock e n) orderEntity db of
                       Inl err \<Rightarrow> ([], db, Some (Some (StoreError err), me))
                     | Inr (created, db') \<Rightarrow>
                         (let orderToProcess = (NewOrder e (n + 1) userID pair orderType side price quantity expiresAt)
                                \<lparr>oID := dID created\<rparr>
                          in case SubmitOrder pub e (n + 2) orderToProcess me of
                               (out, None) \<Rightarrow> (out, db', None)
                             | (out, Some (Some err, me')) \<Rightarrow> (out, db', Some (Some (EngineError err), me'))
                             | (out, Some (None, me')) \<Rightarrow> (out, db', Some (None, me')))))
           | _ \<Rightarrow> ([], db, None))
          else ([], db, Some (Some BadPairFormat, me))) db)"

definition uc_CancelLimitOrder ::
  "('d order_event \<Rightarrow> kafka_error option option) \<Rightarrow> string option \<Rightarrow>
   'd::linordered_idom env \<Rightarrow> nat \<Rightarrow> string \<Rightarrow> string \<Rightarrow> string \<Rightarrow> string \<Rightarrow> 'd \<Rightarrow> 'd \<Rightarrow> 'd engine \<Rightarrow>
   'd order_db \<Rightarrow> 'd effect list \<times> 'd order_db \<times> (uc_error option \<times> 'd engine) option" where
  "uc_CancelLimitOrder pub commitErr e n userID pair orderType side price quantity me db =
     (case normalizeOrder orderType side of (orderType, side) \<Rightarrow>
        WithinTransaction commitErr (\<lambda>db.
          let incomingCancelOrder = NewOrder e n userID pair orderType side price quantity None
          in case SubmitCancelOrder pub e (n + 1) incomingCancelOrder of
               (out, None) \<Rightarrow> (out, db, None)
             | (out, Some (Some err)) \<Rightarrow> (out, db, Some (Some (EngineError err), me))
             | (out, Some None) \<Rightarrow> (out, db, Some (None, me))) db)"

definition uc_UpdateOrderStatus ::
  "string option \<Rightarrow> string option \<Rightarrow> string \<Rightarrow> 'd \<Rightarrow> 'd order_db \<Rightarrow>
   'd effect list \<times> 'd order_db \<times> (uc_error option \<times> unit) option" where
  "uc_UpdateOrderStatus updateErr commitErr orderID filled db =
     WithinTransaction commitErr (\<lambda>db.
       case UpdateOrderStatus updateErr orderID ent_StatusCancelled filled db of
         (Some err, db') \<Rightarrow> ([], db', Some (Some (StoreError err), ()))
       | (None, db') \<Rightarrow> ([], db', Some (None, ()))) db"

subsection \<open>Lemmas\<close>

lemma SubmitOrder_cases:
  obtains (panic) "SubmitOrder pub e n o1 me = ([], None)"
    | (failed) err where "SubmitOrder pub e n o1 me = ([], Some (Some err, me))"
    | (stuck) ev where "SubmitOrder pub e n o1 me = ([PublishOrderEvent ev], None)" "pub ev = Some None"
        "eID ev = oID o1" "ePair ev = oPair o1" "eUserID ev = oUserID o1" "ePrice ev = oPrice o1" "eSide ev = oSide o1"
proof -
  let ?ev = "NewOrderEvent e n (oID o1) (oUserID o1) (oPair o1) (oType o1) kafka_StatusOpen EventOrderSubmitted
       (oSide o1) (oPrice o1) (oQuantity o1) (oFilled o1) (Remaining o1) (oBehavior o1) (oExpiresAt o1)"
  have ev: "eID ?ev = oID o1" "ePair ?ev = oPair o1" "eUserID ?ev = oUserID o1"
    "ePrice ?ev = oPrice o1" "eSide ?ev = oSide o1" by (simp_all add: NewOrderEvent_def Let_def)
  consider "pub ?ev = None" | err where "pub ?ev = Some (Some err)" | "pub ?ev = Some None"
    by (metis not_Some_eq)
  then show ?thesis
  proof cases
    case 1
    then show ?thesis using panic by (simp add: SubmitOrder_def Let_def)
  next
    case (2 err)
    then show ?thesis using failed by (simp add: SubmitOrder_def Let_def)
  next
    case 3
    then have "SubmitOrder pub e n o1 me = ([PublishOrderEvent ?ev], None)"
      by (simp add: SubmitOrder_def Let_def heap_calls_None)
    then show ?thesis using stuck 3 ev by blast
  qed
qed

text \<open>A submission fails without an effect, panics without one, or publishes one event of the caller and then
  does not return; the database is the one from before in every case.\<close>

lemma uc_SubmitOrder_result:
  assumes "uc_SubmitOrder pub createErr createNil commitErr e n userID pair orderType side price quantity expiresAt me db =
     (out, db', res)"
  shows "db' = db \<and> ((\<exists>err. out = [] \<and> res = Some (Some err, me)) \<or> (out = [] \<and> res = None) \<or>
     (\<exists>ev. out = [PublishOrderEvent ev] \<and> res = None \<and> eUserID ev = userID \<and> ePair ev = pair \<and>
        ePrice ev = price \<and> eSide ev = to_lower side))"
proof -
  define ok where "ok r \<longleftrightarrow> (\<exists>err. fst r = [] \<and> snd (snd r) = Some (Some err, me)) \<or> (fst r = [] \<and> snd (snd r) = None) \<or>
     (\<exists>ev. fst r = [PublishOrderEvent ev] \<and> snd (snd r) = None \<and> eUserID ev = userID \<and> ePair ev = pair \<and>
        ePrice ev = price \<and> eSide ev = to_lower side)"
    for r :: "'a effect list \<times> 'a order_db \<times> (uc_error option \<times> 'a engine) option"
  have tx: "ok (WithinTransaction commitErr h db) \<and> fst (snd (WithinTransaction commitErr h db)) = db" if "ok (h db)" for h
    using that by (auto simp: ok_def WithinTransaction_def split: prod.splits option.splits)
  obtain ot sd where ns: "normalizeOrder orderType side = (ot, sd)" and sd: "sd = to_lower side"
    by (simp add: normalizeOrder_def)
  have submit: "ok (case SubmitOrder pub e (n + 2) ((NewOrder e (n + 1) userID pair ot sd price quantity expiresAt)\<lparr>oID := i\<rparr>) me of
       (out, None) \<Rightarrow> (out, db1, None)
     | (out, Some (Some err, me')) \<Rightarrow> (out, db1, Some (Some (EngineError err), me'))
     | (out, Some (None, me')) \<Rightarrow> (out, db1, Some (None, me')))" for i db1
    by (cases rule: SubmitOrder_cases [of pub e "n + 2" "(NewOrder e (n + 1) userID pair ot sd price quantity expiresAt)\<lparr>oID := i\<rparr>" me])
      (auto simp: ok_def NewOrder_def Let_def sd)
  have triv: "ok ([], d, Some (Some err, me))" "ok ([], d, None)" for d err by (simp_all add: ok_def)
  have "ok (out, db', res) \<and> fst (snd (out, db', res)) = db"
    unfolding assms [symmetric] uc_SubmitOrder_def ns split
    by (rule tx) (use submit triv in \<open>simp add: Let_def split: list.split option.split sum.split prod.split\<close>)
  then show ?thesis by (auto simp: ok_def)
qed

lemma no_order_no_change:
  assumes "\<forall>r \<in> set (side_refs s). oID (st r) \<noteq> i" and "no_empty_level s"
  shows "remove_on_side st i p s = s"
proof -
  have "RemoveOrderInPriceLevelBasedOnOrderID st i pl = Inl ErrOrderNotFoundInPriceLevel"
    if "GetLevel p s = Some pl" for pl
  proof -
    have "pl \<in> set (sLevels s)" using GetLevel_SomeD [OF that] by blast
    then have "\<forall>r \<in> set (lvOrders pl). oID (st r) \<noteq> i" using assms(1) by (auto simp: side_refs_set)
    then show ?thesis by (simp add: RemoveOrderInPriceLevelBasedOnOrderID_def option.case_eq_if)
  qed
  then have "(case GetLevel p s of Some pl \<Rightarrow>
        (case RemoveOrderInPriceLevelBasedOnOrderID st i pl of
           Inr pl' \<Rightarrow> s\<lparr>sLevels := bt_update (side_less (sIsAsk s)) pl (\<lambda>_. pl') (sLevels s)\<rparr>
         | Inl _ \<Rightarrow> s) | None \<Rightarrow> s) = s" by (simp split: option.split)
  moreover have "filter (\<lambda>p. length (lvOrders p) = 0) (sLevels s) = []"
    using assms(2) by (simp add: no_empty_level_def filter_empty_conv)
  then have "RemoveEmptyLevel s = s" by (simp add: RemoveEmptyLevel_def)
  ultimately show ?thesis by (simp add: remove_on_side_def)
qed

lemma to_lower_cancel [simp]: "to_lower ''cancel'' = ''cancel''"
  by code_simp

subsection \<open>Properties\<close>

text \<open>A submission that returns an error has had no effect: nothing was published, the database is the one
  from before, and the engine has not changed; this covers every way to fail, from a malformed pair to the
  commit.\<close>

theorem failed_submission_has_no_effect:
  assumes "uc_SubmitOrder pub createErr createNil commitErr e n userID pair orderType side price quantity expiresAt me db =
     (out, db', Some (Some err, me'))"
  shows "out = [] \<and> db' = db \<and> me' = me"
  using uc_SubmitOrder_result [OF assms] by simp

theorem failed_submission_has_no_effect_witness:
  "\<exists>err. uc_SubmitOrder (\<lambda>_. Some None) None None None sample_env 0 ''erin'' ''BTCUSDT'' ''LIMIT'' ''BUY'' 10 2 None
     \<lparr> meBooks = Map.empty, meRouter = None, meReaper = [] \<rparr> \<lparr> dbOrders = [], dbTrades = [], dbProcessed = [] \<rparr> =
     ([], \<lparr> dbOrders = [], dbTrades = [], dbProcessed = [] \<rparr>,
       Some (Some err, \<lparr> meBooks = Map.empty, meRouter = None, meReaper = [] \<rparr>))"
proof -
  let ?me = "\<lparr> meBooks = Map.empty, meRouter = None, meReaper = [] \<rparr> :: int engine"
  let ?db = "\<lparr> dbOrders = [], dbTrades = [], dbProcessed = [] \<rparr> :: int order_db"
  obtain out db' err me' where r: "uc_SubmitOrder (\<lambda>_. Some None) None None None sample_env 0 ''erin'' ''BTCUSDT'' ''LIMIT'' ''BUY''
      10 2 None ?me ?db = (out, db', Some (Some err, me'))"
    by (simp add: uc_SubmitOrder_def normalizeOrder_def WithinTransaction_def contains_char_def)
  from failed_submission_has_no_effect [OF this] r show ?thesis by auto
qed

text \<open>A valid order whose event is published is announced but not recorded: the event carries the generated
  order ID, the call does not return, and the transaction that inserted the row is not committed, so the
  database never has the order the engine receives.\<close>

theorem published_order_is_not_stored:
  assumes "\<And>ev. pub ev = Some None"
    and "split_on CHR ''-'' pair = [base, quote]"
    and "ent_NewOrder userID (base @ ''/'' @ quote) (to_lower orderType) (to_lower side) price quantity expiresAt (clock e n) = Some d"
    and "dID d = []" and "uuid e n \<notin> dID ` set (dbOrders db)"
  shows "\<exists>ev. uc_SubmitOrder pub None createNil commitErr e n userID pair orderType side price quantity expiresAt me db =
       ([PublishOrderEvent ev], db, None) \<and> eID ev = uuid e n \<and> ePair ev = pair \<and>
     eID ev \<notin> dID ` set (dbOrders db)"
proof -
  have "pair = base @ CHR ''-'' # quote" using split_on_twoD [OF assms(2)] by blast
  then have dash: "contains_char CHR ''-'' pair" by (simp add: contains_char_def)
  have i: "dID (ent_BeforeCreate (uuid e n) (clock e n) d) = uuid e n"
    using assms(4) by (simp add: ent_BeforeCreate_def Let_def)
  obtain db1 where c: "CreateOrder None (uuid e n) (clock e n) d db =
      Inr (ent_BeforeCreate (uuid e n) (clock e n) d, db1)"
    using assms(5) by (simp add: CreateOrder_def i Let_def)
  let ?o = "(NewOrder e (n + 1) userID pair (to_lower orderType) (to_lower side) price quantity expiresAt)\<lparr>oID := uuid e n\<rparr>"
  obtain ev where s: "SubmitOrder pub e (n + 2) ?o me = ([PublishOrderEvent ev], None)"
    "eID ev = uuid e n" "ePair ev = pair"
    using assms(1) by (simp add: SubmitOrder_def Let_def heap_calls_None NewOrderEvent_def NewOrder_def)
  have "uc_SubmitOrder pub None createNil commitErr e n userID pair orderType side price quantity expiresAt me db =
      ([PublishOrderEvent ev], db, None)"
    using s(1) by (simp add: uc_SubmitOrder_def normalizeOrder_def WithinTransaction_def dash assms(2)
        assms(3) [simplified append_Cons append_Nil] c i Let_def)
  with s assms(5) show ?thesis by auto
qed

theorem published_order_is_not_stored_witness:
  "\<exists>ev. uc_SubmitOrder (\<lambda>_. Some None) None None None sample_env 0 ''erin'' ''BTC-USDT'' ''LIMIT'' ''BUY'' 10 2 None
     \<lparr> meBooks = Map.empty, meRouter = None, meReaper = [] \<rparr> \<lparr> dbOrders = [], dbTrades = [], dbProcessed = [] \<rparr> =
     ([PublishOrderEvent ev], \<lparr> dbOrders = [], dbTrades = [], dbProcessed = [] \<rparr>, None)"
proof -
  let ?me = "\<lparr> meBooks = Map.empty, meRouter = None, meReaper = [] \<rparr> :: int engine"
  let ?db = "\<lparr> dbOrders = [], dbTrades = [], dbProcessed = [] \<rparr> :: int order_db"
  have sp: "split_on CHR ''-'' ''BTC-USDT'' = [''BTC'', ''USDT'']" by simp
  have low: "to_lower ''LIMIT'' = ''limit''" "to_lower ''BUY'' = ''buy''" by code_simp+
  obtain d where d: "ent_NewOrder ''erin'' (''BTC'' @ ''/'' @ ''USDT'') (to_lower ''LIMIT'') (to_lower ''BUY'')
      (10 :: int) 2 None (clock sample_env 0) = Some d" "dID d = []"
    by (simp add: low ent_NewOrder_def validateNewOrderInputs_def contains_char_def)
  have "uuid sample_env 0 \<notin> dID ` set (dbOrders ?db)" by simp
  from published_order_is_not_stored [where pub = "\<lambda>_. Some None", OF refl sp d this, of None None ?me]
  show ?thesis by blast
qed

text \<open>A cancel request cancels nothing: it is published with an ID generated for it, and when the engine
  processes the order it makes of that event, every book on which no order has that fresh ID is left exactly
  as it was and the answer is that the order was not found.\<close>

theorem cancel_request_cancels_nothing:
  assumes "\<And>ev. pub ev = Some None" and "book_ok ob"
    and "\<forall>r \<in> set (book_refs ob). oID (obStore ob r) \<noteq> uuid e m"
  shows "\<exists>ev. uc_CancelLimitOrder pub None e n userID pair ent_OrderTypeCancel side price quantity me db =
       ([PublishOrderEvent ev], db, Some (None, me)) \<and>
     eID ev = uuid e n \<and> oType (order_of_event e m ev) = OrderTypeCancel \<and>
     Cancel None (order_of_event e m ev) ob = Some (Some ErrOrderNotFoundInOrderbook, ob, [])"
proof -
  obtain ev where s: "uc_CancelLimitOrder pub None e n userID pair ent_OrderTypeCancel side price quantity me db =
       ([PublishOrderEvent ev], db, Some (None, me))" "eID ev = uuid e n" "eType ev = ''cancel''"
    using assms(1) by (simp add: uc_CancelLimitOrder_def normalizeOrder_def WithinTransaction_def SubmitCancelOrder_def
        Let_def NewOrderEvent_def NewOrder_def)
  have "remove_on_side (obStore ob) (uuid e m) p (obBids ob) = obBids ob"
    "remove_on_side (obStore ob) (uuid e m) p (obAsks ob) = obAsks ob" for p
    using assms(2,3) by (auto intro!: no_order_no_change simp: book_ok_def side_ok_def book_refs_def)
  then have "Cancel None (order_of_event e m ev) ob = Some (Some ErrOrderNotFoundInOrderbook, ob, [])"
    by (simp add: Cancel_result RemoveOrderByOrderID_def Let_def)
  then show ?thesis using s by (intro exI [of _ ev]) simp
qed

theorem cancel_request_cancels_nothing_witness:
  "\<exists>ev. Cancel None (order_of_event sample_env 5 ev) sample_book = Some (Some ErrOrderNotFoundInOrderbook, sample_book, [])"
proof -
  have "\<forall>r \<in> set (book_refs sample_book). oID (obStore sample_book r) \<noteq> uuid sample_env 5" by code_simp
  from cancel_request_cancels_nothing [where pub = "\<lambda>_. Some None", OF refl sample_ok(1) this] show ?thesis by blast
qed

end
