(* ===== verification/Auth.thy ===== *)
theory Auth
  imports Http_Security Password_Hash Order_Usecases
begin

text \<open>
  Accounts: \<^verbatim>\<open>internal/adapter/handler/http/auth.go\<close>, the use cases of \<^verbatim>\<open>internal/usecases/user\_usecases\<close> and the
  task that mails a verification code (\<^verbatim>\<open>internal/adapter/tasks/send\_email\_verification.go\<close>). The state is the tables,
  the wallet sequence, the Redis server and the queued tasks; what the handlers call outside the
  repository, and the fault of each database call, are the fields of \<open>auth_env\<close>. A handler gives the context
  and its error, \<open>None\<close> when it panics or ends the process (\<^verbatim>\<open>Fatal\<close>), and the state after it.
\<close>

record email_payload =
  epRequestTime :: string
  epIP :: string
  epLocation :: string
  epDevice :: string
  epYear :: string
  epReceiverEmail :: string
  epUsername :: string

datatype auth_error =
    BadBody string | HashError hash_error | RegisterError uc_error | LookupError handler_error
  | Rejected string | RedisError string | EnqueueError string | TokenError string

record 's auth_env =
  aeRedis :: "'s redis"
  aeArgon :: argon2
  aeCPU :: "8 word"
  aeRand :: "nat \<Rightarrow> string + string"
  aeLedger :: "string \<Rightarrow> string + account"
  aeSign :: "string \<Rightarrow> claims \<Rightarrow> string + string"
  aeJWTSecret :: string
  aeNow1 :: time
  aeNow2 :: time
  aeNewID :: string
  aeIPInfo :: "string \<Rightarrow> string + string"
  aeIPInfoToken :: string
  aeEnv :: string
  aeRequestTime :: string
  aeYear :: string
  aeEnqueue :: "email_payload \<Rightarrow> string option"
  aeText :: "auth_error \<Rightarrow> string"
  aeDup :: string
  aeSeqDefault :: bool
  aeLookupFault :: "string option"
  aeCreateFault :: "string option"
  aeSeqFault :: "string option"
  aeWalletFault :: "string option"
  aeCommitFault :: "string option"
  aeUpdateFault1 :: "string option"
  aeUpdateFault2 :: "string option"

record 's auth_state =
  auDb :: user_db
  auSeq :: nat
  auRedis :: 's
  auQueue :: "email_payload list"

type_synonym 's auth_result = "(gctx \<times> auth_error option) option \<times> 's auth_state"

subsection \<open>Use cases (register.go, verify\_email.go)\<close>

text \<open>The user and its wallet are created in one transaction; with the error comes the user, whose ID
  \<^verbatim>\<open>Create\<close> has set, and the sequence.\<close>

definition uc_Register ::
  "'s auth_env \<Rightarrow> user \<Rightarrow> nat \<Rightarrow> user_db \<Rightarrow> unit list \<times> user_db \<times> (uc_error option \<times> (user \<times> nat)) option" where
  "uc_Register E user seq db =
     WithinTransaction (aeCommitFault E) (\<lambda>db.
       case user_Create (aeCreateFault E) (aeDup E) (aeNewID E) user db of
         Inl err \<Rightarrow> ([], db, Some (Some (StoreError err), (user, seq)))
       | Inr (user, db) \<Rightarrow>
           (case CreateNewWallet (aeSeqDefault E) (aeSeqFault E) (aeWalletFault E) (aeDup E) (aeLedger E) (usID user) seq db of
              (Some err, seq, db) \<Rightarrow> ([], db, Some (Some (StoreError err), (user, seq)))
            | (None, seq, db) \<Rightarrow> ([], db, Some (None, (user, seq))))) db"

definition LabelGmailVerificationStatus ::
  "'s auth_env \<Rightarrow> string \<Rightarrow> string \<Rightarrow> string \<Rightarrow> string \<Rightarrow> 's \<Rightarrow> user_db \<Rightarrow> string option \<times> user_db" where
  "LabelGmailVerificationStatus E gmail username verificationCode newVerificationStatus s db =
     (case GetGmailVerificationCodeTimeLeft (aeRedis E) gmail username s of
        Inl _ \<Rightarrow> (Some ''failed to check verification code TTL'', db)
      | Inr ttl \<Rightarrow>
          if ttl < 0 then (Some ''Verification code has expired. Please resend the code to get new verification code.'', db)
          else case GetGmailVerificationCode (aeRedis E) gmail username s of
            Inl _ \<Rightarrow> (Some ''invalid or expired verification code'', db)
          | Inr cachedCode \<Rightarrow>
              if cachedCode \<noteq> verificationCode then (Some ''invalid verification code'', db)
              else (case UpdateGmailVerificationStatus (aeUpdateFault1 E) (aeUpdateFault2 E) gmail
                           GmailVerificationStatusVerified db of
                      (Some _, db) \<Rightarrow> (Some ''failed to update gmail verification status'', db)
                    | (None, db) \<Rightarrow> (None, db)))"

subsection \<open>The mail task\<close>

definition NewEmailVerificationPayload ::
  "string \<Rightarrow> string \<Rightarrow> string \<Rightarrow> string \<Rightarrow> string \<Rightarrow> string \<Rightarrow> string \<Rightarrow> email_payload" where
  "NewEmailVerificationPayload requestTime ip location device year receiverEmail username =
     \<lparr> epRequestTime = requestTime, epIP = ip, epLocation = location, epDevice = device, epYear = year,
       epReceiverEmail = receiverEmail, epUsername = username \<rparr>"

definition EnqueueEmailVerificationCodeTask ::
  "'s auth_env \<Rightarrow> string \<Rightarrow> string \<Rightarrow> string \<Rightarrow> string \<Rightarrow> string \<Rightarrow> string \<Rightarrow> string \<Rightarrow> 's auth_state \<Rightarrow>
   string option \<times> 's auth_state" where
  "EnqueueEmailVerificationCodeTask E requestTime ip location device year receiverEmail username st =
     (let taskPayload = NewEmailVerificationPayload requestTime ip location device year receiverEmail username
      in case aeEnqueue E taskPayload of
           Some err \<Rightarrow> (Some err, st)
         | None \<Rightarrow> (None, st\<lparr>auQueue := auQueue st @ [taskPayload]\<rparr>))"

definition EMAIL_VERIFICATION_CODE_LENGTH :: nat where
  "EMAIL_VERIFICATION_CODE_LENGTH = 6"

definition EMAIL_VERIFICATION_CODE_LIFETIME_DURATION :: time where
  "EMAIL_VERIFICATION_CODE_LIFETIME_DURATION = 60000000000"

text \<open>The worker mails the code and then caches it: \<open>tmplErr\<close> and \<open>sendMail\<close> are the mail template and the
  dialer; the result is the error, the mails sent (receiver and code) and the Redis state.\<close>

definition HandleEmailVerificationCodeSendOp ::
  "'s redis \<Rightarrow> (nat \<Rightarrow> nat \<Rightarrow> nat option) \<Rightarrow> string option \<Rightarrow> (string \<Rightarrow> string \<Rightarrow> string option) \<Rightarrow> string + email_payload \<Rightarrow> 's \<Rightarrow>
   string option \<times> (string \<times> string) list \<times> 's" where
  "HandleEmailVerificationCodeSendOp rd rnd tmplErr sendMail payload s =
     (case payload of
        Inl err \<Rightarrow> (Some err, [], s)
      | Inr p \<Rightarrow>
          (case tmplErr of
             Some err \<Rightarrow> (Some err, [], s)
           | None \<Rightarrow>
               (let randomCode = GenerateRandomString rnd EMAIL_VERIFICATION_CODE_LENGTH
                in case sendMail (epReceiverEmail p) randomCode of
                     Some err \<Rightarrow> (Some err, [], s)
                   | None \<Rightarrow>
                       (case SetGmailVerificationCode rd EMAIL_VERIFICATION_CODE_LIFETIME_DURATION
                               EMAIL_VERIFICATION_CODE_LIFETIME_DURATION (epReceiverEmail p) (epUsername p) randomCode s of
                          (Some err, s') \<Rightarrow> (Some err, [(epReceiverEmail p, randomCode)], s')
                        | (None, s') \<Rightarrow> (None, [(epReceiverEmail p, randomCode)], s')))))"

subsection \<open>Handlers (auth.go)\<close>

text \<open>Asking the address service and queueing the mail, the end of two handlers; \<open>k\<close> is what follows.\<close>

definition send_code ::
  "'s auth_env \<Rightarrow> gctx \<Rightarrow> string \<Rightarrow> string \<Rightarrow> 's auth_state \<Rightarrow> ('s auth_state \<Rightarrow> 's auth_result) \<Rightarrow> 's auth_result" where
  "send_code E c gmail username st k =
     (if aeIPInfoToken E = [] then (None, st)
      else case aeIPInfo E (gcClientIP c) of
        Inl _ \<Rightarrow> (None, st)
      | Inr country \<Rightarrow>
          (case EnqueueEmailVerificationCodeTask E (aeRequestTime E) (gcClientIP c) country (gcHeaders c ''User-Agent'')
                  (aeYear E) gmail username st of
             (Some err, st) \<Rightarrow> (Some (c, Some (EnqueueError err)), st)
           | (None, st) \<Rightarrow> k st))"

definition issue_token :: "'s auth_env \<Rightarrow> string \<Rightarrow> string + string" where
  "issue_token E userID = GenerateToken (aeSign E) (aeJWTSecret E) (aeNow1 E) (aeNow2 E) userID"

definition RegisterUserHandler ::
  "'s auth_env \<Rightarrow> string + RegisterUserRequest \<Rightarrow> gctx \<Rightarrow> 's auth_state \<Rightarrow> 's auth_result" where
  "RegisterUserHandler E bound c st =
     (case bound of
        Inl err \<Rightarrow> (Some (respond InvalidRequestBody c, Some (BadBody err)), st)
      | Inr req \<Rightarrow>
     (case GetUserPasswordHash (aeArgon E) (aeCPU E) (aeRand E) (rgPassword req) of
        None \<Rightarrow> (None, st)
      | Some (Inl err) \<Rightarrow>
          (Some (respond (InternalServerErrorStandard (aeText E (HashError err))) c, Some (HashError err)), st)
      | Some (Inr hashedUserPassword) \<Rightarrow>
     (let user = NewUser (rgFirstname req) (rgLastname req) (rgUsername req) (rgGmail req) hashedUserPassword
                   GmailVerificationStatusPending StatusActive
      in case uc_Register E user (auSeq st) (auDb st) of
        (_, db', None) \<Rightarrow> (None, st\<lparr>auDb := db'\<rparr>)
      | (_, db', Some (Some err, user, seq')) \<Rightarrow>
          (let st = st\<lparr>auDb := db', auSeq := seq'\<rparr>
           in if err = StoreError DuplicateKey \<and> usGmailStatus user = GmailVerificationStatusPending
              then (Some (respond (BadRequestStandard ''user has already registered with pending gmail verification status'') c,
                      Some (RegisterError err)), st)
              else (Some (respond (InternalServerErrorStandard (aeText E (RegisterError err))) c, Some (RegisterError err)), st))
      | (_, db', Some (None, user, seq')) \<Rightarrow>
          send_code E c (rgGmail req) (rgUsername req) (st\<lparr>auDb := db', auSeq := seq'\<rparr>) (\<lambda>st.
            case (if aeEnv E = ''DEVELOPMENT'' then issue_token E (usID user) else Inr []) of
              Inl err \<Rightarrow> (Some (c, Some (TokenError err)), st)
            | Inr _ \<Rightarrow>
                (Some (respond (SuccessStandard (RegisterResponse (usID user) (rgUsername req)
                   (prFirstname (usProfile user)) (prLastname (usProfile user)) (rgGmail req))) c, None), st)))))"

definition same_name :: "string option \<Rightarrow> string \<Rightarrow> bool" where
  "same_name stored given = (case stored of None \<Rightarrow> False | Some u \<Rightarrow> trim_space u = trim_space given)"

definition VerifyGmailVerificationCode ::
  "'s auth_env \<Rightarrow> string + GmailVerificationCodeRequest \<Rightarrow> gctx \<Rightarrow> 's auth_state \<Rightarrow> 's auth_result" where
  "VerifyGmailVerificationCode E bound c st =
     (case bound of
        Inl err \<Rightarrow> (Some (respond InvalidRequestBody c, Some (BadBody err)), st)
      | Inr req \<Rightarrow>
     (case GetUserByGmail (aeLookupFault E) (gvGmail req) (auDb st) of
        Inl _ \<Rightarrow> (Some (respond (UnauthorizedStandard ''user not found'') c, Some (Rejected ''user not found'')), st)
      | Inr user \<Rightarrow>
     if \<not> same_name (usUsername user) (gvUsername req)
     then (Some (respond (UnauthorizedStandard ''username and gmail do not match'') c,
             Some (Rejected ''username and gmail do not match'')), st)
     else
     (case LabelGmailVerificationStatus E (gvGmail req) (gvUsername req) (gvVerificationCode req)
             GmailVerificationStatusVerified (auRedis st) (auDb st) of
        (Some err, db') \<Rightarrow> (Some (respond (UnauthorizedStandard err) c, Some (Rejected err)), st\<lparr>auDb := db'\<rparr>)
      | (None, db') \<Rightarrow>
          (case issue_token E (usID user) of
             Inl err \<Rightarrow> (Some (c, Some (TokenError err)), st\<lparr>auDb := db'\<rparr>)
           | Inr jwtToken \<Rightarrow>
               (Some (respond (SuccessStandard (VerificationResponse 200 ''user verified successfuly'' jwtToken)) c, None),
                st\<lparr>auDb := db'\<rparr>)))))"

definition ResendGmailVerificationCodeHandler ::
  "'s auth_env \<Rightarrow> string + GmailVerificationCodeResendRequest \<Rightarrow> gctx \<Rightarrow> 's auth_state \<Rightarrow> 's auth_result" where
  "ResendGmailVerificationCodeHandler E bound c st =
     (case bound of
        Inl err \<Rightarrow> (Some (respond InvalidRequestBody c, Some (BadBody err)), st)
      | Inr req \<Rightarrow>
     (case GetUserByGmail (aeLookupFault E) (grGmail req) (auDb st) of
        Inl _ \<Rightarrow> (Some (respond (UnauthorizedStandard ''user not found'') c, Some (Rejected ''user not found'')), st)
      | Inr user \<Rightarrow>
     if \<not> same_name (usUsername user) (grUsername req)
     then (Some (respond (UnauthorizedStandard ''username and gmail do not match'') c,
             Some (Rejected ''username and gmail do not match'')), st)
     else if usIsVerified user
     then (Some (respond (BadRequestStandard ''the user is already verified'') c,
             Some (Rejected ''the user is already verified'')), st)
     else
     (case GetGmailVerificationCodeTimeLeft (aeRedis E) (grGmail req) (grUsername req) (auRedis st) of
        Inl err \<Rightarrow> (Some (respond (InternalServerError [''failed to check verification code TTL'']) c, Some (RedisError err)), st)
      | Inr ttl \<Rightarrow>
          if ttl > 0
          then (Some (respond (ErrorStandard 425 ''Verification code has already sent. Please try again later.'') c,
                  Some (Rejected ''verification code for this user is still alive'')), st)
          else (case (usGmail user, usUsername user) of
             (Some gmail, Some username) \<Rightarrow>
               send_code E c gmail username st (\<lambda>st.
                 (Some (respond (SuccessStandard (CodeMessage 200 ''verification code resent successfully'')) c, None), st))
           | _ \<Rightarrow> (None, st)))))"

text \<open>The two log-ins differ in the look-up and the message.\<close>

definition log_in ::
  "'s auth_env \<Rightarrow> string \<Rightarrow> handler_error + user \<Rightarrow> string \<Rightarrow> gctx \<Rightarrow> 's auth_state \<Rightarrow> 's auth_result" where
  "log_in E msg found password c st =
     (case found of
        Inl err \<Rightarrow> (Some (respond (UnauthorizedStandard (aeText E (LookupError err))) c, Some (LookupError err)), st)
      | Inr user \<Rightarrow>
     (case usPassword user of
        None \<Rightarrow> (None, st)
      | Some stored \<Rightarrow>
     (case VerifyUserPasswordHash (aeArgon E) password stored of
        None \<Rightarrow> (None, st)
      | Some (Inl err) \<Rightarrow>
          (Some (respond (InternalServerErrorStandard ''Internal server error'') c, Some (HashError err)), st)
      | Some (Inr ok2) \<Rightarrow>
          if \<not> ok2 then (Some (respond (UnauthorizedStandard ''password is wrong'') c, Some (Rejected ''password is wrong'')), st)
          else (case issue_token E (usID user) of
             Inl err \<Rightarrow> (Some (c, Some (TokenError err)), st)
           | Inr jwtToken \<Rightarrow> (Some (respond (SuccessStandard (LoginResponse 200 msg jwtToken)) c, None), st)))))"

definition LoginUserWithUsernameHandler ::
  "'s auth_env \<Rightarrow> string + LoginUserWithUsernameRequest \<Rightarrow> gctx \<Rightarrow> 's auth_state \<Rightarrow> 's auth_result" where
  "LoginUserWithUsernameHandler E bound c st =
     (case bound of
        Inl err \<Rightarrow> (Some (respond InvalidRequestBody c, Some (BadBody err)), st)
      | Inr req \<Rightarrow> log_in E ''user logged in with username successfully''
          (GetUserByUsername (aeLookupFault E) (luUsername req) (auDb st)) (luPassword req) c st)"

definition LoginUserWithGmailHandler ::
  "'s auth_env \<Rightarrow> string + LoginWithGmailRequest \<Rightarrow> gctx \<Rightarrow> 's auth_state \<Rightarrow> 's auth_result" where
  "LoginUserWithGmailHandler E bound c st =
     (case bound of
        Inl err \<Rightarrow> (Some (respond InvalidRequestBody c, Some (BadBody err)), st)
      | Inr req \<Rightarrow> log_in E ''user logged in with gmail successfully''
          (GetUserByGmail (aeLookupFault E) (lgGmail req) (auDb st)) (lgPassword req) c st)"

text \<open>The development log-in: finds or creates the user, and asks for no password.\<close>

definition MockLoginHandler :: "'s auth_env \<Rightarrow> string + string \<Rightarrow> gctx \<Rightarrow> 's auth_state \<Rightarrow> 's auth_result" where
  "MockLoginHandler E bound c st =
     (let username = (case bound of Inr u \<Rightarrow> if u \<noteq> [] then u else ''simuser'' | Inl _ \<Rightarrow> ''simuser'');
          finish = (\<lambda>user st. case issue_token E (usID user) of
             Inl err \<Rightarrow> (Some (c, Some (TokenError err)), st)
           | Inr token \<Rightarrow> (Some (respond (SuccessStandard (LoginResponse 200 ''mock login successful'' token)) c, None), st))
      in case GetUserByUsername (aeLookupFault E) username (auDb st) of
           Inr user \<Rightarrow> finish user st
         | Inl _ \<Rightarrow>
             (case GetUserPasswordHash (aeArgon E) (aeCPU E) (aeRand E) ''SimPass123!'' of
                None \<Rightarrow> (None, st)
              | Some (Inl err) \<Rightarrow>
                  (Some (respond (InternalServerErrorStandard (aeText E (HashError err))) c, Some (HashError err)), st)
              | Some (Inr hashedPw) \<Rightarrow>
                  (let newUser = (NewUser ''Sim'' ''User'' username (username @ ''@coinhub.dev'') hashedPw
                                   GmailVerificationStatusVerified StatusActive)\<lparr>usIsVerified := True\<rparr>
                   in case uc_Register E newUser (auSeq st) (auDb st) of
                        (_, db', None) \<Rightarrow> (None, st\<lparr>auDb := db'\<rparr>)
                      | (_, db', Some (Some err, _, seq')) \<Rightarrow>
                          (Some (respond (InternalServerErrorStandard (aeText E (RegisterError err))) c, Some (RegisterError err)),
                           st\<lparr>auDb := db', auSeq := seq'\<rparr>)
                      | (_, db', Some (None, user, seq')) \<Rightarrow> finish user (st\<lparr>auDb := db', auSeq := seq'\<rparr>))))"

subsection \<open>Lemmas\<close>

text \<open>A new wallet, as the tables hold it.\<close>

definition wallet_row :: "bool \<Rightarrow> string \<Rightarrow> string \<Rightarrow> nat \<Rightarrow> wallet" where
  "wallet_row seqDefault userID address seq =
     (NewWalletAccount userID address seq SpotAccount ActiveWalletAccount [] [] True)
       \<lparr>waAddressIndex := (if seqDefault then Suc seq else 0)\<rparr>"

lemma CreateNewWallet_result:
  assumes "CreateNewWallet seqDefault seqErr createErr dup ledger userID seq db = (err, seq', db')"
  shows "(err \<noteq> None \<and> db' = db) \<or>
     (\<exists>a. err = None \<and> ledger (getBIP44Format (of_nat seq)) = Inr a \<and>
        userID \<notin> waUserID ` set (udWallets db) \<and> acAddress a \<notin> waAddress ` set (udWallets db) \<and>
        db' = db\<lparr>udWallets := udWallets db @ [wallet_row seqDefault userID (acAddress a) seq]\<rparr>)"
  using assms
  by (auto simp: CreateNewWallet_def NextAddressIndex_def GenerateWalletAddress_def generateNewPublicKey_def Let_def
      insert_wallet_def NewWalletAccount_def wallet_row_def split: option.splits sum.splits if_splits)

lemma user_Create_result:
  assumes "user_Create fault dup newID user db = Inr (u, db')"
  shows "u = user_defaults newID user \<and> db' = db\<lparr>udUsers := udUsers db @ [u]\<rparr> \<and>
     usID u \<notin> usID ` set (udUsers db) \<and> usUsername u \<notin> usUsername ` set (udUsers db) \<and>
     (usGmail u = None \<or> usGmail u \<notin> usGmail ` set (udUsers db))"
  using assms by (auto simp: user_Create_def Let_def split: option.splits if_splits)

lemma uc_Register_result:
  assumes "uc_Register E user seq db = (out, db', res)"
  shows "(\<exists>err u seq'. res = Some (Some err, u, seq') \<and> db' = db) \<or>
     (\<exists>u seq' a. res = Some (None, u, seq') \<and> u = user_defaults (aeNewID E) user \<and>
        aeLedger E (getBIP44Format (of_nat seq)) = Inr a \<and>
        usID u \<notin> usID ` set (udUsers db) \<and> usUsername u \<notin> usUsername ` set (udUsers db) \<and>
        (usGmail u = None \<or> usGmail u \<notin> usGmail ` set (udUsers db)) \<and>
        usID u \<notin> waUserID ` set (udWallets db) \<and> acAddress a \<notin> waAddress ` set (udWallets db) \<and>
        db' = db\<lparr>udUsers := udUsers db @ [u],
                 udWallets := udWallets db @ [wallet_row (aeSeqDefault E) (usID u) (acAddress a) seq]\<rparr>)"
proof (cases "user_Create (aeCreateFault E) (aeDup E) (aeNewID E) user db")
  case (Inl err)
  then show ?thesis using assms by (auto simp: uc_Register_def WithinTransaction_def)
next
  case (Inr p)
  obtain u db1 where p: "p = (u, db1)" by fastforce
  note c = user_Create_result [OF Inr [unfolded p]]
  obtain err seq' db2 where w: "CreateNewWallet (aeSeqDefault E) (aeSeqFault E) (aeWalletFault E) (aeDup E) (aeLedger E)
      (usID u) seq db1 = (err, seq', db2)" using prod_cases3 by blast
  note wr = CreateNewWallet_result [OF w]
  have r: "(out, db', res) = WithinTransaction (aeCommitFault E) (\<lambda>db. case err of
        Some er \<Rightarrow> ([], db2, Some (Some (StoreError er), (u, seq'))) | None \<Rightarrow> ([], db2, Some (None, (u, seq')))) db"
    unfolding assms [symmetric] uc_Register_def WithinTransaction_def Inr p by (simp add: w split: option.split)
  show ?thesis
  proof (cases err)
    case (Some er)
    then show ?thesis using r by (simp add: WithinTransaction_def)
  next
    case None
    then show ?thesis using r c wr by (auto simp: WithinTransaction_def split: option.splits)
  qed
qed

subsection \<open>The account tables\<close>

text \<open>Every account has one wallet, in the same order, and nothing that must be unique is shared.\<close>

definition accounts_ok :: "user_db \<Rightarrow> bool" where
  "accounts_ok db \<longleftrightarrow> map usID (udUsers db) = map waUserID (udWallets db) \<and> distinct (map usID (udUsers db)) \<and>
     distinct (map usUsername (udUsers db)) \<and> distinct (filter (\<lambda>g. g \<noteq> None) (map usGmail (udUsers db))) \<and>
     distinct (map waAddress (udWallets db))"

lemma uc_Register_ok:
  assumes "uc_Register E user seq db = (out, db', res)" and "accounts_ok db"
  shows "accounts_ok db'"
  using uc_Register_result [OF assms(1)] assms(2)
  by (auto simp: accounts_ok_def wallet_row_def NewWalletAccount_def)

lemma UpdateGmailVerificationStatus_ok:
  "UpdateGmailVerificationStatus f1 f2 g v db = (err, db') \<Longrightarrow> accounts_ok db \<Longrightarrow> accounts_ok db'"
proof -
  have u: "accounts_ok db \<Longrightarrow> accounts_ok (update_users P f db)"
    if "\<And>u. usID (f u) = usID u \<and> usUsername (f u) = usUsername u \<and> usGmail (f u) = usGmail u" for P f db
  proof -
    have "map usID (udUsers (update_users P f db)) = map usID (udUsers db)"
      "map usUsername (udUsers (update_users P f db)) = map usUsername (udUsers db)"
      "map usGmail (udUsers (update_users P f db)) = map usGmail (udUsers db)"
      "udWallets (update_users P f db) = udWallets db" using that by (simp_all add: update_users_def)
    then show "accounts_ok db \<Longrightarrow> accounts_ok (update_users P f db)" unfolding accounts_ok_def by metis
  qed
  assume "UpdateGmailVerificationStatus f1 f2 g v db = (err, db')" "accounts_ok db"
  then show ?thesis
    by (auto simp: UpdateGmailVerificationStatus_def Let_def split: option.splits intro!: u)
qed

lemma Label_ok:
  "LabelGmailVerificationStatus E g u v n s db = (err, db') \<Longrightarrow> accounts_ok db \<Longrightarrow> accounts_ok db'"
  by (auto simp: LabelGmailVerificationStatus_def split: sum.splits if_splits prod.splits option.splits
      dest: UpdateGmailVerificationStatus_ok)

lemma send_code_db:
  assumes "\<And>st1. auDb (snd (k st1)) = auDb st1"
  shows "auDb (snd (send_code E c g u st k)) = auDb st"
  using assms by (auto simp: send_code_def EnqueueEmailVerificationCodeTask_def Let_def split: sum.split option.split)

lemma send_code_redis:
  assumes "\<And>st1. auRedis (snd (k st1)) = auRedis st1"
  shows "auRedis (snd (send_code E c g u st k)) = auRedis st"
  using assms by (auto simp: send_code_def EnqueueEmailVerificationCodeTask_def Let_def split: sum.split option.split)

lemma RegisterUserHandler_ok:
  assumes "accounts_ok (auDb st)"
  shows "accounts_ok (auDb (snd (RegisterUserHandler E bound c st)))"
proof -
  have reg: "accounts_ok db'" if "uc_Register E user (auSeq st) (auDb st) = (out, db', res)" for user out db' res
    using uc_Register_ok [OF that assms] .
  show ?thesis
    using assms by (auto simp: RegisterUserHandler_def Let_def send_code_db
        split: sum.split option.split prod.split dest: reg)
qed

lemma MockLoginHandler_ok:
  assumes "accounts_ok (auDb st)"
  shows "accounts_ok (auDb (snd (MockLoginHandler E bound c st)))"
proof -
  have reg: "accounts_ok db'" if "uc_Register E user (auSeq st) (auDb st) = (out, db', res)" for user out db' res
    using uc_Register_ok [OF that assms] .
  have fin: "auDb (snd (case r of Inl err \<Rightarrow> (Some (c, Some (TokenError err)), st1)
      | Inr token \<Rightarrow> (Some (respond (SuccessStandard (LoginResponse 200 m token)) c, None), st1))) = auDb st1" for r st1 m
    by (simp split: sum.split)
  show ?thesis
    unfolding MockLoginHandler_def Let_def
    using assms by (auto simp: fin split: sum.split option.split prod.split dest: reg)
qed

lemma VerifyGmailVerificationCode_ok:
  assumes "accounts_ok (auDb st)"
  shows "accounts_ok (auDb (snd (VerifyGmailVerificationCode E bound c st)))"
proof -
  have lab: "accounts_ok db'" if "LabelGmailVerificationStatus E g u v n (auRedis st) (auDb st) = (err, db')" for g u v n err db'
    using Label_ok [OF that assms] .
  show ?thesis
    using assms by (auto simp: VerifyGmailVerificationCode_def split: sum.split option.split prod.split dest: lab)
qed

lemma ResendGmailVerificationCodeHandler_db: "auDb (snd (ResendGmailVerificationCodeHandler E bound c st)) = auDb st"
  by (auto simp: ResendGmailVerificationCodeHandler_def send_code_db split: sum.split option.split)

lemma log_in_state: "snd (log_in E msg found password c st) = st"
  by (auto simp: log_in_def split: sum.split option.split)

lemma Login_state:
  "snd (LoginUserWithUsernameHandler E bound1 c st) = st" "snd (LoginUserWithGmailHandler E bound2 c st) = st"
  by (auto simp: LoginUserWithUsernameHandler_def LoginUserWithGmailHandler_def log_in_state split: sum.split)

text \<open>The states the endpoints can lead to, from empty account tables.\<close>

inductive auth_reach :: "'s auth_state \<Rightarrow> bool" where
  start: "udUsers (auDb st) = [] \<Longrightarrow> udWallets (auDb st) = [] \<Longrightarrow> auth_reach st"
| register: "auth_reach st \<Longrightarrow> auth_reach (snd (RegisterUserHandler E b1 c st))"
| verify: "auth_reach st \<Longrightarrow> auth_reach (snd (VerifyGmailVerificationCode E b2 c st))"
| resend: "auth_reach st \<Longrightarrow> auth_reach (snd (ResendGmailVerificationCodeHandler E b3 c st))"
| login_username: "auth_reach st \<Longrightarrow> auth_reach (snd (LoginUserWithUsernameHandler E b4 c st))"
| login_gmail: "auth_reach st \<Longrightarrow> auth_reach (snd (LoginUserWithGmailHandler E b5 c st))"
| mock: "auth_reach st \<Longrightarrow> auth_reach (snd (MockLoginHandler E b6 c st))"
| mail: "auth_reach st \<Longrightarrow> auth_reach (st\<lparr>auRedis := snd (snd (HandleEmailVerificationCodeSendOp rd rnd t m p (auRedis st)))\<rparr>)"

lemma auth_reach_ok: "auth_reach st \<Longrightarrow> accounts_ok (auDb st)"
proof (induction rule: auth_reach.induct)
  case (start st)
  then show ?case by (simp add: accounts_ok_def)
next
  case (resend st E b3 c)
  then show ?case by (simp add: ResendGmailVerificationCodeHandler_db)
qed (simp_all add: RegisterUserHandler_ok VerifyGmailVerificationCode_ok MockLoginHandler_ok Login_state)

text \<open>A registration that is answered has appended one user, with the hash of the request's password.\<close>

lemma RegisterUserHandler_success:
  assumes "RegisterUserHandler E (Inr req) c st = (Some (c', None), st1)"
  obtains u hash where "CreateHash (aeArgon E) (aeRand E) (rgPassword req) (DefaultParams (aeCPU E)) = Some (Inr hash)"
    "usPassword u = Some hash" "usUsername u = Some (rgUsername req)" "usIsVerified u = False"
    "usGmail u = Some (rgGmail req)" "usStatus u = StatusActive"
    "usUsername u \<notin> usUsername ` set (udUsers (auDb st))" "udUsers (auDb st1) = udUsers (auDb st) @ [u]"
    "usGmail u \<notin> usGmail ` set (udUsers (auDb st))" "auRedis st1 = auRedis st"
proof -
  obtain hash where h: "GetUserPasswordHash (aeArgon E) (aeCPU E) (aeRand E) (rgPassword req) = Some (Inr hash)"
    using assms by (auto simp: RegisterUserHandler_def split: option.splits sum.splits)
  let ?user = "NewUser (rgFirstname req) (rgLastname req) (rgUsername req) (rgGmail req) hash
                   GmailVerificationStatusPending StatusActive"
  obtain out db' res where r: "uc_Register E ?user (auSeq st) (auDb st) = (out, db', res)" using prod_cases3 by blast
  have "\<exists>u seq'. res = Some (None, u, seq')"
    using assms h r by (auto simp: RegisterUserHandler_def Let_def split: option.splits if_splits prod.splits)
  then obtain u seq' where res: "res = Some (None, u, seq')" by blast
  define k where "k = (\<lambda>st. case (if aeEnv E = ''DEVELOPMENT'' then issue_token E (usID u) else Inr []) of
              Inl err \<Rightarrow> (Some (c, Some (TokenError err)), st)
            | Inr _ \<Rightarrow>
                (Some (respond (SuccessStandard (RegisterResponse (usID u) (rgUsername req)
                   (prFirstname (usProfile u)) (prLastname (usProfile u)) (rgGmail req))) c, None :: auth_error option), st :: 'a auth_state))"
  have k: "auDb (snd (k s)) = auDb s" "auRedis (snd (k s)) = auRedis s" for s
    by (simp_all add: k_def split: sum.split)
  have "send_code E c (rgGmail req) (rgUsername req) (st\<lparr>auDb := db', auSeq := seq'\<rparr>) k = (Some (c', None), st1)"
    using assms unfolding RegisterUserHandler_def sum.case h option.case Let_def r prod.case res k_def .
  then have st1: "auDb st1 = db' \<and> auRedis st1 = auRedis st"
    using send_code_db [OF k(1), of E c "rgGmail req" "rgUsername req" "st\<lparr>auDb := db', auSeq := seq'\<rparr>"]
      send_code_redis [OF k(2), of E c "rgGmail req" "rgUsername req" "st\<lparr>auDb := db', auSeq := seq'\<rparr>"] by simp
  have u: "u = user_defaults (aeNewID E) ?user" and fresh: "usUsername u \<notin> usUsername ` set (udUsers (auDb st))"
    "usGmail u = None \<or> usGmail u \<notin> usGmail ` set (udUsers (auDb st))"
    and app: "udUsers db' = udUsers (auDb st) @ [u]"
    using uc_Register_result [OF r] res by auto
  have f: "usPassword u = Some hash" "usUsername u = Some (rgUsername req)" "usIsVerified u = False"
    "usGmail u = Some (rgGmail req)" "usStatus u = StatusActive"
    by (simp_all add: u user_defaults_def NewUser_def StatusActive_def)
  show ?thesis
    by (rule that [OF h [unfolded GetUserPasswordHash_def] f fresh(1)]) (use st1 app fresh(2) f(4) in auto)
qed

text \<open>What Redis documents of a stored value: until it expires it is what \<^verbatim>\<open>GET\<close> gives, and its time left is not negative.\<close>

definition redis_stores :: "'s redis \<Rightarrow> bool" where
  "redis_stores rd = (\<forall>k v d s s'. 0 < d \<and> rdSet rd k v d s = (None, s') \<longrightarrow>
     rdGet rd k s' = Inr v \<and> (\<exists>t. rdTTL rd k s' = Inr t \<and> 0 \<le> t))"

lemma redis_storesD:
  "redis_stores rd \<Longrightarrow> 0 < d \<Longrightarrow> rdSet rd k v d s = (None, s') \<Longrightarrow>
     rdGet rd k s' = Inr v \<and> (\<exists>t. rdTTL rd k s' = Inr t \<and> 0 \<le> t)"
  unfolding redis_stores_def by iprover

subsection \<open>Properties\<close>


definition sample_auth :: "(string \<Rightarrow> string option) auth_env" where
  "sample_auth = \<lparr> aeRedis = \<lparr> rdSet = (\<lambda>k v d s. (None, s(k \<mapsto> v))),
       rdGet = (\<lambda>k s. case s k of None \<Rightarrow> Inl ''nil'' | Some v \<Rightarrow> Inr v), rdDel = (\<lambda>k s. (None, s(k := None))),
       rdTTL = (\<lambda>k s. case s k of None \<Rightarrow> Inr (- 2) | Some v \<Rightarrow> Inr 5), rdIncr = (\<lambda>k s. (Inl ''not used'', s)),
       rdExpire = (\<lambda>k d s. s) \<rparr>,
     aeArgon = sample_argon2, aeCPU = 4, aeRand = sample_rand,
     aeLedger = (\<lambda>path. Inr \<lparr> acAddress = ''0x'' @ path, acPath = path \<rparr>),
     aeSign = (\<lambda>secret cl. Inr (secret @ clUserID cl)), aeJWTSecret = ''k:'', aeNow1 = 0, aeNow2 = 1, aeNewID = ''u-1'',
     aeIPInfo = (\<lambda>_. Inr ''NL''), aeIPInfoToken = ''t'', aeEnv = ''PRODUCTION'', aeRequestTime = ''now'', aeYear = ''2026'',
     aeEnqueue = (\<lambda>_. None), aeText = (\<lambda>_. ''error''), aeDup = ''duplicate'', aeSeqDefault = False,
     aeLookupFault = None, aeCreateFault = None, aeSeqFault = None, aeWalletFault = None, aeCommitFault = None,
     aeUpdateFault1 = None, aeUpdateFault2 = None \<rparr>"

definition sample_register :: RegisterUserRequest where
  "sample_register = \<lparr> rgUsername = ''erin'', rgFirstname = ''Erin'', rgLastname = ''Doe'', rgGmail = ''erin@x.org'',
     rgPassword = ''hunter2'' \<rparr>"

definition no_accounts :: "(string \<Rightarrow> string option) auth_state" where
  "no_accounts = \<lparr> auDb = \<lparr> udRoles = [], udUsers = [], udWallets = [] \<rparr>, auSeq = 1, auRedis = Map.empty, auQueue = [] \<rparr>"

definition auth_ctx :: gctx where
  "auth_ctx = \<lparr> gcHeaders = (\<lambda>_. []), gcKeys = (\<lambda>_. None), gcClientIP = ''9.9.9.9'', gcOut = [], gcAnswer = None \<rparr>"

definition registered :: "(gctx \<times> auth_error option) option \<times> (string \<Rightarrow> string option) auth_state" where
  "registered = RegisterUserHandler sample_auth (Inr sample_register) auth_ctx no_accounts"

definition erin :: user where
  "erin = user_defaults ''u-1'' (NewUser ''Erin'' ''Doe'' ''erin'' ''erin@x.org''
     (format_hash 19 (DefaultParams 4) (b64_encode (replicate 16 CHR ''s''))
        (b64_encode (''hunter2'' @ replicate 16 CHR ''s'' @ replicate 9 CHR ''k'')))
     GmailVerificationStatusPending StatusActive)"

lemma sample_registered:
  "auDb (snd registered) = \<lparr> udRoles = [], udUsers = [erin],
     udWallets = [wallet_row False ''u-1'' (''0x'' @ getBIP44Format 1) 1] \<rparr>"
  "\<exists>c'. fst registered = Some (c', None)"
  by (simp_all add: registered_def RegisterUserHandler_def sample_auth_def sample_register_def sample_created no_accounts_def
      uc_Register_def WithinTransaction_def user_Create_def erin_def user_defaults_def NewUser_def CreateNewWallet_def
      NextAddressIndex_def GenerateWalletAddress_def generateNewPublicKey_def insert_wallet_def wallet_row_def
      NewWalletAccount_def send_code_def EnqueueEmailVerificationCodeTask_def Let_def)


text \<open>A verification hands out a token only against the code that is in the cache for that address and name:
  when the endpoint answers with success, a user with the address exists whose name matches up to
  spaces, the cached code has not expired and is the one sent, the token is that user's, and the only change is that the
  users with that address are marked as verified.\<close>

theorem verification_token_needs_cached_code:
  assumes "VerifyGmailVerificationCode E (Inr req) c st = (Some (c', None), st')"
  shows "\<exists>user ttl token. GetUserByGmail (aeLookupFault E) (gvGmail req) (auDb st) = Inr user \<and>
     same_name (usUsername user) (gvUsername req) \<and>
     rdTTL (aeRedis E) (gmail_key (gvGmail req) (gvUsername req)) (auRedis st) = Inr ttl \<and> 0 \<le> ttl \<and>
     rdGet (aeRedis E) (gmail_key (gvGmail req) (gvUsername req)) (auRedis st) = Inr (gvVerificationCode req) \<and>
     issue_token E (usID user) = Inr token \<and>
     gcAnswer c' = Some (SuccessStandard (VerificationResponse 200 ''user verified successfuly'' token)) \<and>
     st' = st\<lparr>auDb := update_users (\<lambda>u. usGmail u = Some (gvGmail req))
       (\<lambda>u. u\<lparr>usGmailStatus := GmailVerificationStatusVerified, usIsVerified := True\<rparr>) (auDb st)\<rparr>"
proof -
  obtain user where u: "GetUserByGmail (aeLookupFault E) (gvGmail req) (auDb st) = Inr user"
    and n: "same_name (usUsername user) (gvUsername req)"
    using assms by (auto simp: VerifyGmailVerificationCode_def split: sum.splits if_splits)
  obtain err db' where l: "LabelGmailVerificationStatus E (gvGmail req) (gvUsername req) (gvVerificationCode req)
      GmailVerificationStatusVerified (auRedis st) (auDb st) = (err, db')" by fastforce
  have r: "(case err of Some err \<Rightarrow> (Some (respond (UnauthorizedStandard err) c, Some (Rejected err)), st\<lparr>auDb := db'\<rparr>)
      | None \<Rightarrow> (case issue_token E (usID user) of
             Inl err \<Rightarrow> (Some (c, Some (TokenError err)), st\<lparr>auDb := db'\<rparr>)
           | Inr jwtToken \<Rightarrow>
               (Some (respond (SuccessStandard (VerificationResponse 200 ''user verified successfuly'' jwtToken)) c, None),
                st\<lparr>auDb := db'\<rparr>))) = (Some (c', None), st')"
    using assms u n l by (simp add: VerifyGmailVerificationCode_def split: option.splits)
  then have e: "err = None" by (auto split: option.splits)
  then obtain token where t: "issue_token E (usID user) = Inr token"
    "c' = respond (SuccessStandard (VerificationResponse 200 ''user verified successfuly'' token)) c" "st' = st\<lparr>auDb := db'\<rparr>"
    using r by (auto split: sum.splits)
  have "\<exists>ttl. rdTTL (aeRedis E) (gmail_key (gvGmail req) (gvUsername req)) (auRedis st) = Inr ttl \<and> 0 \<le> ttl \<and>
     rdGet (aeRedis E) (gmail_key (gvGmail req) (gvUsername req)) (auRedis st) = Inr (gvVerificationCode req) \<and>
     UpdateGmailVerificationStatus (aeUpdateFault1 E) (aeUpdateFault2 E) (gvGmail req) GmailVerificationStatusVerified (auDb st) = (None, db')"
    using l e by (auto simp: LabelGmailVerificationStatus_def GetGmailVerificationCodeTimeLeft_def GetGmailVerificationCode_def
        split: sum.splits if_splits prod.splits option.splits)
  moreover have "db' = update_users (\<lambda>u. usGmail u = Some g)
       (\<lambda>u. u\<lparr>usGmailStatus := GmailVerificationStatusVerified, usIsVerified := True\<rparr>) (auDb st)"
    if "UpdateGmailVerificationStatus f1 f2 g GmailVerificationStatusVerified (auDb st) = (None, db')" for f1 f2 g
    using that by (auto simp: UpdateGmailVerificationStatus_def update_users_def Let_def split: option.splits)
  ultimately show ?thesis using u n t by (auto simp: respond_def)
qed

definition verify_state :: "(string \<Rightarrow> string option) auth_state" where
  "verify_state = \<lparr> auDb = \<lparr> udRoles = [], udUsers = [erin], udWallets = [] \<rparr>, auSeq = 2,
     auRedis = [gmail_key ''erin@x.org'' ''erin'' \<mapsto> ''Ab3xYz''], auQueue = [] \<rparr>"

definition sample_code :: GmailVerificationCodeRequest where
  "sample_code = \<lparr> gvGmail = ''erin@x.org'', gvUsername = ''erin'', gvVerificationCode = ''Ab3xYz'' \<rparr>"

lemma erin_fields [simp]:
  "usID erin = ''u-1''" "usUsername erin = Some ''erin''" "usGmail erin = Some ''erin@x.org''"
  by (simp_all add: erin_def user_defaults_def NewUser_def)

lemma sample_verified:
  "\<exists>c' st'. VerifyGmailVerificationCode sample_auth (Inr sample_code) auth_ctx verify_state = (Some (c', None), st')"
  by (simp add: VerifyGmailVerificationCode_def sample_auth_def sample_code_def verify_state_def GetUserByGmail_def
      first_user_def same_name_def LabelGmailVerificationStatus_def GetGmailVerificationCodeTimeLeft_def
      GetGmailVerificationCode_def UpdateGmailVerificationStatus_def issue_token_def GenerateToken_def Let_def)

theorem verification_token_needs_cached_code_witness:
  "\<exists>c' st'. VerifyGmailVerificationCode sample_auth (Inr sample_code) auth_ctx verify_state = (Some (c', None), st') \<and>
     auRedis verify_state (gmail_key ''erin@x.org'' ''erin'') = Some ''Ab3xYz'' \<and> map usIsVerified (udUsers (auDb st')) = [True]"
proof -
  obtain c' st' where v: "VerifyGmailVerificationCode sample_auth (Inr sample_code) auth_ctx verify_state = (Some (c', None), st')"
    using sample_verified by blast
  have "auRedis verify_state (gmail_key ''erin@x.org'' ''erin'') = Some ''Ab3xYz''" by (simp add: verify_state_def)
  moreover have "map usIsVerified (udUsers (auDb st')) = [True]"
    using verification_token_needs_cached_code [OF v]
    by (auto simp: sample_code_def verify_state_def update_users_def)
  ultimately show ?thesis using v by (intro exI conjI)
qed

text \<open>C24: Who has registered can log in with the name and password of the registration, whether or not the
  address has been verified: the log-in finds the account just made, accepts the password, and all that can
  still fail is signing the token.\<close>

theorem registered_user_can_log_in:
  assumes "RegisterUserHandler E (Inr req) c st = (Some (c', None), st1)"
    and "rand_fills (aeRand E)" and "keys_sized (aeArgon E)"
    and "aeArgon E2 = aeArgon E" and "aeLookupFault E2 = None"
  shows "\<exists>u. udUsers (auDb st1) = udUsers (auDb st) @ [u] \<and> \<not> usIsVerified u \<and>
     LoginUserWithUsernameHandler E2 (Inr \<lparr> luUsername = rgUsername req, luPassword = rgPassword req \<rparr>) c2 st1 =
       ((case issue_token E2 (usID u) of
           Inl err \<Rightarrow> Some (c2, Some (TokenError err))
         | Inr token \<Rightarrow>
             Some (respond (SuccessStandard (LoginResponse 200 ''user logged in with username successfully'' token)) c2, None)), st1)"
proof -
  from assms(1) obtain u hash where h: "CreateHash (aeArgon E) (aeRand E) (rgPassword req) (DefaultParams (aeCPU E)) = Some (Inr hash)"
    and u: "usPassword u = Some hash" "usUsername u = Some (rgUsername req)" "usIsVerified u = False"
    and fresh: "usUsername u \<notin> usUsername ` set (udUsers (auDb st))"
    and app: "udUsers (auDb st1) = udUsers (auDb st) @ [u]" by (rule RegisterUserHandler_success)
  from h assms(2,3) obtain salt key where
    "arIDKey (aeArgon E) (rgPassword req) salt (pIterations (DefaultParams (aeCPU E))) (pMemory (DefaultParams (aeCPU E)))
       (pParallelism (DefaultParams (aeCPU E))) (pKeyLength (DefaultParams (aeCPU E))) = Some key"
    "DecodeHash (aeArgon E) hash = Inr (DefaultParams (aeCPU E), salt, key)" by (rule CreateHash_decodes)
  then have ok: "VerifyUserPasswordHash (aeArgon E2) (rgPassword req) hash = Some (Inr True)"
    by (simp add: VerifyUserPasswordHash_def ComparePasswordAndHash_def CheckHash_def assms(4))
  have "find (\<lambda>v. usUsername v = Some (rgUsername req)) (udUsers (auDb st)) = None"
    using fresh u(2) by (auto simp: find_None image_iff)
  then have "GetUserByUsername None (rgUsername req) (auDb st1) = Inr (u\<lparr>usWallet := wallet_of (auDb st1) (usID u)\<rparr>)"
    by (simp add: GetUserByUsername_def first_user_def app find_append u(2))
  then show ?thesis
    using app u ok assms(5) by (auto simp: LoginUserWithUsernameHandler_def log_in_def split: sum.split)
qed

theorem registered_user_can_log_in_witness:
  "\<exists>c'. LoginUserWithUsernameHandler sample_auth (Inr \<lparr> luUsername = ''erin'', luPassword = ''hunter2'' \<rparr>) auth_ctx (snd registered) =
     (Some (c', None), snd registered) \<and>
     gcAnswer c' = Some (SuccessStandard (LoginResponse 200 ''user logged in with username successfully'' ''k:u-1''))"
proof -
  obtain c' where "RegisterUserHandler sample_auth (Inr sample_register) auth_ctx no_accounts = (Some (c', None), snd registered)"
    using sample_registered(2) by (metis prod.collapse registered_def)
  note login = registered_user_can_log_in [OF this, of sample_auth auth_ctx]
  have e: "aeRand sample_auth = sample_rand" "aeArgon sample_auth = sample_argon2" "aeLookupFault sample_auth = None"
    by (simp_all add: sample_auth_def)
  obtain u where u: "udUsers (auDb (snd registered)) = udUsers (auDb no_accounts) @ [u]"
    "LoginUserWithUsernameHandler sample_auth (Inr \<lparr> luUsername = rgUsername sample_register, luPassword = rgPassword sample_register \<rparr>)
       auth_ctx (snd registered) = ((case issue_token sample_auth (usID u) of
           Inl err \<Rightarrow> Some (auth_ctx, Some (TokenError err))
         | Inr token \<Rightarrow>
             Some (respond (SuccessStandard (LoginResponse 200 ''user logged in with username successfully'' token)) auth_ctx, None)),
        snd registered)"
    using login sample_laws e by auto
  have "u = erin" using u(1) by (simp add: sample_registered(1) no_accounts_def)
  moreover have "issue_token sample_auth ''u-1'' = Inr ''k:u-1''"
    by (simp add: issue_token_def GenerateToken_def sample_auth_def)
  ultimately show ?thesis using u(2) by (simp add: sample_register_def respond_def)
qed

text \<open>The code that was mailed verifies, and more than once: after the worker has mailed a code and cached it, a
  request with that code, address and name is answered with a token for the account, and as nothing removes
  the code, the same request gets one again from the state that leaves.\<close>

theorem mailed_code_verifies_repeatedly:
  assumes "HandleEmailVerificationCodeSendOp (aeRedis E) rnd tmplErr sendMail (Inr p) s = (None, [(receiver, code)], s')"
    and "redis_stores (aeRedis E)" and "auRedis st = s'"
    and "GetUserByGmail None (epReceiverEmail p) (auDb st) = Inr user" and "usUsername user = Some (epUsername p)"
    and "aeLookupFault E = None" and "aeUpdateFault1 E = None" and "aeUpdateFault2 E = None"
    and "issue_token E (usID user) = Inr token"
  shows "receiver = epReceiverEmail p \<and>
     (\<exists>st1. VerifyGmailVerificationCode E (Inr \<lparr> gvGmail = receiver, gvUsername = epUsername p, gvVerificationCode = code \<rparr>) c st =
       (Some (respond (SuccessStandard (VerificationResponse 200 ''user verified successfuly'' token)) c, None), st1) \<and>
      VerifyGmailVerificationCode E (Inr \<lparr> gvGmail = receiver, gvUsername = epUsername p, gvVerificationCode = code \<rparr>) c st1 =
       (Some (respond (SuccessStandard (VerificationResponse 200 ''user verified successfuly'' token)) c, None), st1))"
proof -
  have r: "receiver = epReceiverEmail p"
    and set: "rdSet (aeRedis E) (gmail_key receiver (epUsername p)) code EMAIL_VERIFICATION_CODE_LIFETIME_DURATION s = (None, s')"
    using assms(1) by (auto simp: HandleEmailVerificationCodeSendOp_def SetGmailVerificationCode_def Let_def
        split: option.splits prod.splits)
  obtain ttl where g: "rdGet (aeRedis E) (gmail_key receiver (epUsername p)) s' = Inr code"
    "rdTTL (aeRedis E) (gmail_key receiver (epUsername p)) s' = Inr ttl" "0 \<le> ttl"
    using redis_storesD [OF assms(2) _ set] by (auto simp: EMAIL_VERIFICATION_CODE_LIFETIME_DURATION_def)
  let ?P = "\<lambda>u. usGmail u = Some receiver"
  let ?f = "\<lambda>u. u\<lparr>usGmailStatus := GmailVerificationStatusVerified, usIsVerified := True\<rparr>"
  define db1 where "db1 = update_users ?P ?f (auDb st)"
  have answer: "VerifyGmailVerificationCode E (Inr \<lparr> gvGmail = receiver, gvUsername = epUsername p, gvVerificationCode = code \<rparr>) c s1 =
       (Some (respond (SuccessStandard (VerificationResponse 200 ''user verified successfuly'' token)) c, None),
        s1\<lparr>auDb := update_users ?P ?f (auDb s1)\<rparr>)"
    if "GetUserByGmail None receiver (auDb s1) = Inr v" "usUsername v = Some (epUsername p)" "usID v = usID user" "auRedis s1 = s'" for s1 v
    using that g assms(6-9)
    by (simp add: VerifyGmailVerificationCode_def same_name_def LabelGmailVerificationStatus_def update_users_def
        GetGmailVerificationCodeTimeLeft_def GetGmailVerificationCode_def UpdateGmailVerificationStatus_def Let_def comp_def
        cong: if_cong)
  have find_map: "find Q (map h xs) = map_option h (find Q xs)" if "\<And>x. Q (h x) = Q x" for Q h and xs :: "user list"
    using that by (induction xs) auto
  obtain w where w: "find ?P (udUsers (auDb st)) = Some w" "usUsername w = Some (epUsername p)" "usID w = usID user"
    using assms(4,5) by (auto simp: GetUserByGmail_def first_user_def r split: option.splits)
  then have "find ?P (udUsers db1) = Some (if ?P w then ?f w else w)"
    unfolding db1_def update_users_def by (simp add: find_map)
  then obtain v where "GetUserByGmail None receiver db1 = Inr v" "usUsername v = Some (epUsername p)" "usID v = usID user"
    using w by (auto simp: GetUserByGmail_def first_user_def)
  note second = answer [of "st\<lparr>auDb := db1\<rparr>" v]
  have idem: "update_users ?P ?f db1 = db1" by (auto simp: db1_def update_users_def)
  have "VerifyGmailVerificationCode E (Inr \<lparr> gvGmail = receiver, gvUsername = epUsername p, gvVerificationCode = code \<rparr>) c st =
       (Some (respond (SuccessStandard (VerificationResponse 200 ''user verified successfuly'' token)) c, None), st\<lparr>auDb := db1\<rparr>)"
    unfolding db1_def using assms(3-5) by (intro answer) (simp_all add: r)
  then show ?thesis using second r idem assms(3) \<open>GetUserByGmail None receiver db1 = Inr v\<close>
      \<open>usUsername v = Some (epUsername p)\<close> \<open>usID v = usID user\<close> by (intro conjI exI [of _ "st\<lparr>auDb := db1\<rparr>"]) simp_all
qed

definition sample_payload :: email_payload where
  "sample_payload = NewEmailVerificationPayload ''now'' ''9.9.9.9'' ''NL'' [] ''2026'' ''erin@x.org'' ''erin''"

theorem mailed_code_verifies_repeatedly_witness:
  "\<exists>st1. VerifyGmailVerificationCode sample_auth (Inr \<lparr> gvGmail = ''erin@x.org'', gvUsername = ''erin'', gvVerificationCode = ''aaaaaa'' \<rparr>)
       auth_ctx (verify_state\<lparr>auRedis := [gmail_key ''erin@x.org'' ''erin'' \<mapsto> ''aaaaaa'']\<rparr>) =
     (Some (respond (SuccessStandard (VerificationResponse 200 ''user verified successfuly'' ''k:u-1'')) auth_ctx, None), st1)"
proof -
  have code: "GenerateRandomString (\<lambda>_ _. Some 0) EMAIL_VERIFICATION_CODE_LENGTH = ''aaaaaa''" by code_simp
  have h: "HandleEmailVerificationCodeSendOp (aeRedis sample_auth) (\<lambda>_ _. Some 0) None (\<lambda>_ _. None) (Inr sample_payload) Map.empty =
      (None, [(''erin@x.org'', ''aaaaaa'')], [gmail_key ''erin@x.org'' ''erin'' \<mapsto> ''aaaaaa''])"
    by (simp add: HandleEmailVerificationCodeSendOp_def code SetGmailVerificationCode_def sample_auth_def sample_payload_def
        NewEmailVerificationPayload_def Let_def)
  have stores: "redis_stores (aeRedis sample_auth)" by (auto simp: redis_stores_def sample_auth_def)
  have p: "epReceiverEmail sample_payload = ''erin@x.org''" "epUsername sample_payload = ''erin''"
    by (simp_all add: sample_payload_def NewEmailVerificationPayload_def)
  have u: "GetUserByGmail None (epReceiverEmail sample_payload)
      (auDb (verify_state\<lparr>auRedis := [gmail_key ''erin@x.org'' ''erin'' \<mapsto> ''aaaaaa'']\<rparr>)) = Inr (erin\<lparr>usWallet := zero_wallet\<rparr>)"
    by (simp add: GetUserByGmail_def first_user_def verify_state_def p wallet_of_def)
  have tok: "issue_token sample_auth (usID (erin\<lparr>usWallet := zero_wallet\<rparr>)) = Inr ''k:u-1''"
    by (simp add: issue_token_def GenerateToken_def sample_auth_def)
  have e: "aeLookupFault sample_auth = None" "aeUpdateFault1 sample_auth = None" "aeUpdateFault2 sample_auth = None"
    by (simp_all add: sample_auth_def)
  have "auRedis (verify_state\<lparr>auRedis := [gmail_key ''erin@x.org'' ''erin'' \<mapsto> ''aaaaaa'']\<rparr>) =
      [gmail_key ''erin@x.org'' ''erin'' \<mapsto> ''aaaaaa'']" by simp
  from mailed_code_verifies_repeatedly [OF h stores this u _ e tok, of auth_ctx] p show ?thesis by auto
qed

end
