(* ===== verification/Wallet_Flow.thy ===== *)
theory Wallet_Flow
  imports Auth
begin

text \<open>
  Withdrawals and what the chain says of them: the entities evm\_transaction.go and transfer\_event.go with their
  repositories, \<^verbatim>\<open>internal/domain/services/wallet\_service.go\<close>, \<^verbatim>\<open>internal/usecases/wallet\_usecases/transfer.go\<close>,
  \<^verbatim>\<open>internal/adapter/handler/http/transaction.go\<close>, the tasks update\_onchain\_balance.go and check\_transaction\_status.go,
  and the filter of token\_listener.go that queues the first of them. The Ethereum client, the key ledger, the task
  queue and the fault of each call are the fields of \<open>chain_env\<close>; a \<^verbatim>\<open>*big.Int\<close> is an option, \<open>None\<close> when nil.
  Two readings of the pending nonce are two fields. A result is \<open>None\<close> when the call panics.
\<close>

subsection \<open>Entities\<close>

definition EIP1559 :: string where [go_enum]: "EIP1559 = ''eip1559''"
definition PendingStatus :: string where [go_enum]: "PendingStatus = ''PENDING''"
definition ConfirmedStatus :: string where [go_enum]: "ConfirmedStatus = ''CONFIRMED''"
definition FailedStatus :: string where [go_enum]: "FailedStatus = ''FAILED''"
definition RevertedStatus :: string where [go_enum]: "RevertedStatus = ''REVERTED''"

record evm_tx =
  etUserID :: string
  etHash :: "string option"
  etChainID :: int
  etNonce :: int
  etFrom :: "string option"
  etTo :: "string option"
  etValue :: int
  etCallData :: "string option"
  etType :: string
  etStatus :: string
  etNote :: "string option"

definition NewEVMTransaction ::
  "string \<Rightarrow> string option \<Rightarrow> int \<Rightarrow> int \<Rightarrow> string \<Rightarrow> string option \<Rightarrow> int \<Rightarrow> string option \<Rightarrow> string \<Rightarrow> string \<Rightarrow> string \<Rightarrow> evm_tx" where
  "NewEVMTransaction userId hash chainID nonce fromAddress toAddress value callData txType status note =
     \<lparr> etUserID = userId, etHash = hash, etChainID = chainID, etNonce = nonce, etFrom = Some fromAddress,
       etTo = toAddress, etValue = value, etCallData = callData, etType = txType, etStatus = status, etNote = Some note \<rparr>"

record transfer_event =
  tfTxHash :: string
  tfBlockNumber :: nat
  tfFrom :: string
  tfTo :: string
  tfAmount :: string
  tfAssetID :: string
  tfStatus :: string
  tfReceivedAt :: time

definition NewTransferEvent ::
  "string \<Rightarrow> nat \<Rightarrow> string \<Rightarrow> string \<Rightarrow> string \<Rightarrow> string \<Rightarrow> string \<Rightarrow> string \<Rightarrow> time \<Rightarrow> transfer_event" where
  "NewTransferEvent txHash blockNumber assetID fromAddr toAddr amount tokenSymbol transferStatus receivedAt =
     \<lparr> tfTxHash = txHash, tfBlockNumber = blockNumber, tfFrom = fromAddr, tfTo = toAddr, tfAmount = amount,
       tfAssetID = assetID, tfStatus = transferStatus, tfReceivedAt = receivedAt \<rparr>"

subsection \<open>Repositories\<close>

definition CreateTransaction ::
  "string option \<Rightarrow> string \<Rightarrow> user_db \<Rightarrow> evm_tx option \<Rightarrow> evm_tx list \<Rightarrow> handler_error option \<times> evm_tx list" where
  "CreateTransaction fault dup udb evmTx txs =
     (case evmTx of
        None \<Rightarrow> (None, txs)
      | Some t \<Rightarrow>
          (case fault of
             Some err \<Rightarrow> (Some (DBError err), txs)
           | None \<Rightarrow>
               if etUserID t \<notin> usID ` set (udUsers udb) then (Some RecordNotFound, txs)
               else if etHash t \<noteq> None \<and> etHash t \<in> etHash ` set txs then (Some (duplicate_error dup), txs)
               else (None, txs @ [t\<lparr>etStatus := (if etStatus t = [] then PendingStatus else etStatus t)\<rparr>])))"

definition GetTransactionByHash :: "string option \<Rightarrow> string \<Rightarrow> evm_tx list \<Rightarrow> handler_error + evm_tx" where
  "GetTransactionByHash fault hash txs =
     (if hash = [] then Inl RecordNotFound
      else case fault of
        Some err \<Rightarrow> Inl (DBError err)
      | None \<Rightarrow> (case find (\<lambda>t. etHash t = Some hash) txs of None \<Rightarrow> Inl RecordNotFound | Some t \<Rightarrow> Inr t))"

definition UpdateTransactionStatus :: "string option \<Rightarrow> string \<Rightarrow> string \<Rightarrow> evm_tx list \<Rightarrow> handler_error option \<times> evm_tx list" where
  "UpdateTransactionStatus fault trxHash newStatus txs =
     (case fault of
        Some err \<Rightarrow> (Some (DBError err), txs)
      | None \<Rightarrow> (None, map (\<lambda>t. if etHash t = Some trxHash then t\<lparr>etStatus := newStatus\<rparr> else t) txs))"

definition transfer_Create ::
  "string option \<Rightarrow> string \<Rightarrow> transfer_event option \<Rightarrow> transfer_event list \<Rightarrow> handler_error option \<times> transfer_event list" where
  "transfer_Create fault dup evmTransfer tfs =
     (case evmTransfer of
        None \<Rightarrow> (None, tfs)
      | Some t \<Rightarrow>
          (case fault of
             Some err \<Rightarrow> (Some (DBError err), tfs)
           | None \<Rightarrow> if tfTxHash t \<in> tfTxHash ` set tfs then (Some (duplicate_error dup), tfs) else (None, tfs @ [t])))"

definition GetAssetByCotnractAddress :: "string option \<Rightarrow> string \<Rightarrow> asset list \<Rightarrow> string + asset" where
  "GetAssetByCotnractAddress fault ca assets =
     (case fault of
        Some err \<Rightarrow> Inl err
      | None \<Rightarrow>
          (let allAssets = filter (\<lambda>a. asAddress a = Some ca) assets
           in if length allAssets = 0 then Inl ''asset not found'' else Inr (allAssets ! 0)))"

subsection \<open>The wallet service\<close>

record raw_tx =
  rtNonce :: nat
  rtTo :: string
  rtAmount :: "int option"
  rtGas :: nat
  rtGasPrice :: "int option"

record signed_tx =
  sgRaw :: raw_tx
  sgKey :: string
  sgChain :: int

record 's chain_env =
  ceRedis :: "'s redis"
  cePendingTTL :: time
  ceLedger :: "string \<Rightarrow> string + account"
  ceKey :: "account \<Rightarrow> string + string"
  ceHexToAddress :: "string \<Rightarrow> string"
  ceNonce1 :: "string \<Rightarrow> string + nat"
  ceNonce2 :: "string \<Rightarrow> string + nat"
  ceNetworkID :: "string + int"
  ceSignErr :: "string option"
  ceSendErr :: "signed_tx \<Rightarrow> string option"
  ceHash :: "signed_tx \<Rightarrow> string"
  ceEnqueueErr :: "string \<Rightarrow> int \<Rightarrow> string option"
  ceText :: "handler_error \<Rightarrow> string"
  ceDup :: string
  ceUserFault :: "string option"
  ceWalletFault :: "string option"
  ceTxFault :: "string option"

record 's chain_state =
  csUsers :: user_db
  csTxs :: "evm_tx list"
  csSent :: "signed_tx list"
  csRedis :: 's
  csQueue :: "(string \<times> int) list"

text \<open>The comparison of the gas price with zero compares pointers, and is never true; the nonce read is
  only logged.\<close>

definition CreateNativeTransferTx ::
  "'s chain_env \<Rightarrow> string \<Rightarrow> string \<Rightarrow> int option \<Rightarrow> nat \<Rightarrow> int option \<Rightarrow> string + raw_tx" where
  "CreateNativeTransferTx E fromPk toPk amountWei gasLimitUnit gasPriceWei =
     (let fromAddress = ceHexToAddress E fromPk; toAddress = ceHexToAddress E toPk
      in case ceNonce1 E fromAddress of
           Inl err \<Rightarrow> Inl err
         | Inr nonce \<Rightarrow> Inr \<lparr> rtNonce = 15, rtTo = toAddress, rtAmount = amountWei, rtGas = gasLimitUnit, rtGasPrice = gasPriceWei \<rparr>)"

definition EthSignTransaction :: "'s chain_env \<Rightarrow> raw_tx \<Rightarrow> account \<Rightarrow> string + signed_tx" where
  "EthSignTransaction E tx acct =
     (case ceNetworkID E of
        Inl err \<Rightarrow> Inl err
      | Inr chainId \<Rightarrow>
          (case ceKey E acct of
             Inl err \<Rightarrow> Inl err
           | Inr rawPrivateKey \<Rightarrow>
               (case ceSignErr E of
                  Some err \<Rightarrow> Inl err
                | None \<Rightarrow> Inr \<lparr> sgRaw = tx, sgKey = rawPrivateKey, sgChain = chainId \<rparr>)))"

definition SendSignedTransaction :: "'s chain_env \<Rightarrow> signed_tx \<Rightarrow> 's chain_state \<Rightarrow> (string + string) \<times> 's chain_state" where
  "SendSignedTransaction E signedTx st =
     (case ceSendErr E signedTx of
        Some err \<Rightarrow> (Inl err, st)
      | None \<Rightarrow> (Inr (ceHash E signedTx), st\<lparr>csSent := csSent st @ [signedTx]\<rparr>))"

subsection \<open>Withdrawing (transfer.go, transaction.go)\<close>

definition EnqueuPendingTransactions :: "'s chain_env \<Rightarrow> string \<Rightarrow> int \<Rightarrow> 's chain_state \<Rightarrow> string option \<times> 's chain_state" where
  "EnqueuPendingTransactions E trxHash chainId st =
     (case ceEnqueueErr E trxHash chainId of
        Some err \<Rightarrow> (Some err, st)
      | None \<Rightarrow> (None, st\<lparr>csQueue := csQueue st @ [(trxHash, chainId)]\<rparr>))"

definition int64 :: "int \<Rightarrow> int" where
  "int64 n = sint (word_of_int n :: 64 word)"

text \<open>The row of a withdrawal: its value is the gas price, whose \<^verbatim>\<open>Int64\<close> on a nil pointer panics.\<close>

definition withdrawal_row ::
  "string \<Rightarrow> string option \<Rightarrow> 32 word \<Rightarrow> nat \<Rightarrow> string \<Rightarrow> string \<Rightarrow> int option \<Rightarrow> string \<Rightarrow> string \<Rightarrow> string \<Rightarrow> evm_tx option" where
  "withdrawal_row callerUserID hash chainId nonce fromAddr toPk gasPriceWei calldata status note =
     (case gasPriceWei of
        None \<Rightarrow> None
      | Some g \<Rightarrow> Some (NewEVMTransaction callerUserID hash (uint chainId) (int64 (int nonce)) fromAddr (Some toPk)
                    (int64 g) (Some calldata) EIP1559 status note))"

definition WithdrawAsset ::
  "'s chain_env \<Rightarrow> string \<Rightarrow> account \<Rightarrow> string \<Rightarrow> int option \<Rightarrow> nat \<Rightarrow> int option \<Rightarrow> 32 word \<Rightarrow> string \<Rightarrow> 's chain_state \<Rightarrow>
   (string + string) option \<times> 's chain_state" where
  "WithdrawAsset E callerUserID fromAccount toPk amountInWei gasLimitUnit gasPriceWei chainId calldata st =
     (case CreateNativeTransferTx E (acAddress fromAccount) toPk amountInWei gasLimitUnit gasPriceWei of
        Inl err \<Rightarrow> (Some (Inl err), st)
      | Inr rawTx \<Rightarrow>
     (let fromAccountNonce = (case ceNonce2 E (ceHexToAddress E (acAddress fromAccount)) of Inl _ \<Rightarrow> 0 | Inr n \<Rightarrow> n)
      in case EthSignTransaction E rawTx fromAccount of
        Inl err \<Rightarrow> (Some (Inl err), st)
      | Inr signedTx \<Rightarrow>
     (case SendSignedTransaction E signedTx st of
        (Inl err, st) \<Rightarrow>
          (case withdrawal_row callerUserID None chainId fromAccountNonce (acAddress fromAccount) toPk gasPriceWei calldata
                  FailedStatus err of
             None \<Rightarrow> (None, st)
           | Some t \<Rightarrow>
               (case CreateTransaction (ceTxFault E) (ceDup E) (csUsers st) (Some t) (csTxs st) of
                  (Some er, txs) \<Rightarrow> (Some (Inl (ceText E er)), st\<lparr>csTxs := txs\<rparr>)
                | (None, txs) \<Rightarrow> (Some (Inl err), st\<lparr>csTxs := txs\<rparr>)))
      | (Inr trxHash, st) \<Rightarrow>
          (case withdrawal_row callerUserID (Some trxHash) chainId fromAccountNonce (acAddress fromAccount) toPk gasPriceWei
                  calldata PendingStatus [] of
             None \<Rightarrow> (None, st)
           | Some t \<Rightarrow>
               (case CreateTransaction (ceTxFault E) (ceDup E) (csUsers st) (Some t) (csTxs st) of
                  (Some er, txs) \<Rightarrow> (Some (Inl (ceText E er)), st\<lparr>csTxs := txs\<rparr>)
                | (None, txs) \<Rightarrow>
                    (case SetPendingTransaction (ceRedis E) (cePendingTTL E) trxHash (csRedis st) of
                       (Some er, r) \<Rightarrow> (Some (Inl er), st\<lparr>csTxs := txs, csRedis := r\<rparr>)
                     | (None, r) \<Rightarrow>
                         (case EnqueuPendingTransactions E trxHash (uint chainId) (st\<lparr>csTxs := txs, csRedis := r\<rparr>) of
                            (Some er, st) \<Rightarrow> (Some (Inl er), st)
                          | (None, st) \<Rightarrow> (Some (Inr trxHash), st))))))))"

definition WithdrawHandler ::
  "'s chain_env \<Rightarrow> (string \<Rightarrow> string option) \<Rightarrow> string + WithdrawNativeRequest \<Rightarrow> gctx \<Rightarrow> 's chain_state \<Rightarrow>
   (gctx \<times> bool) option \<times> 's chain_state" where
  "WithdrawHandler E uuidParse bound c st =
     (case bound of
        Inl err \<Rightarrow> (Some (respond InvalidRequestBody c, False), st)
      | Inr req \<Rightarrow>
     (case gcKeys c ''userID'' of
        None \<Rightarrow> (None, st)
      | Some userID \<Rightarrow>
     (case uuidParse userID of
        None \<Rightarrow> (Some (respond (UnauthorizedStandard ''invalid user ID in token'') c, False), st)
      | Some parsedUserID \<Rightarrow>
     (case GetUserByID (ceUserFault E) parsedUserID (csUsers st) of
        Inl RecordNotFound \<Rightarrow> (Some (respond (NotFoundStandard ''user not found'') c, False), st)
      | Inl _ \<Rightarrow> (Some (respond (InternalServerErrorStandard ''Internal server error'') c, False), st)
      | Inr user \<Rightarrow>
     if wdAssetOwnerAddress req \<noteq> waAddress (usWallet user)
     then (Some (respond (UnauthorizedStandard ''the caller is not the asset owner or origin address'') c, False), st)
     else
     (case GetByUserID (ceWalletFault E) (usID user) (csUsers st) of
        Inl _ \<Rightarrow> (Some (respond (NotFoundStandard ''user's wallet not found'') c, False), st)
      | Inr walletAccount \<Rightarrow>
     (case GetWalletAccountByUserID (ceLedger E) (of_nat (waAddressIndex walletAccount)) of
        Inl _ \<Rightarrow> (Some (respond (InternalServerErrorStandard ''Internal server error'') c, False), st)
      | Inr acct \<Rightarrow>
     (let amountInWeiBigint = SetString10 (wdAmountWei req);
          gasPriceWeiBigInt = SetString10 (wdGasPriceWei req)
      in case WithdrawAsset E (usID user) acct (wdDestinationAddress req) amountInWeiBigint
             (unat (word_of_int (wdGasLimitUnit req) :: 64 word)) gasPriceWeiBigInt (word_of_int (wdChainId req))
             (wdCalldata req) st of
        (None, st) \<Rightarrow> (None, st)
      | (Some (Inl err), st) \<Rightarrow> (Some (respond (InternalServerErrorStandard err) c, False), st)
      | (Some (Inr txHash), st) \<Rightarrow>
          (Some (respond (SuccessStandard (WithdrawResponse 200 PendingStatus)) c, True), st))))))))"

subsection \<open>Transfers seen on the chain (token\_listener.go, update\_onchain\_balance.go)\<close>

record transfer_payload =
  tpTrxHash :: string
  tpBlockNumber :: nat
  tpFrom :: string
  tpTo :: string
  tpIsRemoved :: bool
  tpValue :: string
  tpTokenCA :: string
  tpTime :: time

text \<open>\<^verbatim>\<open>encoding/json\<close> leaves out a field whose name is not exported: the amount is empty when the task is read.\<close>

definition json_exported :: "transfer_payload \<Rightarrow> transfer_payload" where
  "json_exported p = p\<lparr>tpValue := []\<rparr>"

definition RegisterTransferEventTask ::
  "time \<Rightarrow> string \<Rightarrow> string \<Rightarrow> string \<Rightarrow> string \<Rightarrow> string \<Rightarrow> nat \<Rightarrow> bool \<Rightarrow> transfer_payload" where
  "RegisterTransferEventTask now trxHash fromAddr toAddr v tokenCA blockNumner isRemoved =
     json_exported \<lparr> tpTrxHash = trxHash, tpBlockNumber = blockNumner, tpFrom = fromAddr, tpTo = toAddr,
       tpIsRemoved = isRemoved, tpValue = v, tpTokenCA = tokenCA, tpTime = now - now mod 1000000000 \<rparr>"

text \<open>A log is followed only when its hash is one of a withdrawal that waits; \<open>enqueueErr\<close> is the queue's fault.\<close>

definition handleTransferHunt ::
  "'s redis \<Rightarrow> (transfer_payload \<Rightarrow> string option) \<Rightarrow> time \<Rightarrow> string \<Rightarrow> string \<Rightarrow> string \<Rightarrow> string \<Rightarrow> string \<Rightarrow> nat \<Rightarrow> bool \<Rightarrow> 's \<Rightarrow>
   string option \<times> transfer_payload list" where
  "handleTransferHunt rd enqueueErr now trxHash fromAddr toAddr v tokenCA blockNumner isRemoved s =
     (case GetPendingTransaction rd trxHash s of
        Inl _ \<Rightarrow> (Some ''transaction is not pending'', [])
      | Inr _ \<Rightarrow>
          (let task = RegisterTransferEventTask now trxHash fromAddr toAddr v tokenCA blockNumner isRemoved
           in case enqueueErr task of Some err \<Rightarrow> (Some err, []) | None \<Rightarrow> (None, [task])))"

datatype transfer_error =
    BadPayload string | BothKnown | SyncFailed handler_error | AssetNotFound | ReceiptMissing string
  | CreateFailed handler_error | CacheFailed string

record 's transfer_env =
  teRedis :: "'s redis"
  teAssets :: "asset list"
  teReceipt :: "string \<Rightarrow> string + nat"
  teDup :: string
  teToFault :: "string option"
  teFromFault :: "string option"
  teSyncFault :: "string option"
  teAssetFault :: "string option"
  teCreateFault :: "string option"

record 's transfer_state =
  tsUsers :: user_db
  tsTransfers :: "transfer_event list"
  tsRedis :: 's

definition HandleTransferEventTask ::
  "'s transfer_env \<Rightarrow> string + transfer_payload \<Rightarrow> 's transfer_state \<Rightarrow> transfer_error option option \<times> 's transfer_state" where
  "HandleTransferEventTask E bound st =
     (case bound of
        Inl err \<Rightarrow> (Some (Some (BadPayload err)), st)
      | Inr payload \<Rightarrow>
     (case (case GetByWalletAddress (teToFault E) (tpTo payload) (tsUsers st) of
              Inl _ \<Rightarrow> Some True
            | Inr _ \<Rightarrow> (case GetByWalletAddress (teFromFault E) (tpFrom payload) (tsUsers st) of
                          Inl _ \<Rightarrow> Some False | Inr _ \<Rightarrow> None)) of
        None \<Rightarrow> (Some (Some BothKnown), st)
      | Some isReceiver \<Rightarrow>
     (let infectedAddress = (if \<not> isReceiver then tpFrom payload else tpTo payload)
      in case UpdateTheBalanceSync (teSyncFault E) infectedAddress isReceiver (tpTime payload) (tsUsers st) of
        (Some err, udb) \<Rightarrow> (Some (Some (SyncFailed err)), st\<lparr>tsUsers := udb\<rparr>)
      | (None, udb) \<Rightarrow>
     (let st = st\<lparr>tsUsers := udb\<rparr>
      in case GetAssetByCotnractAddress (teAssetFault E) (tpTokenCA payload) (teAssets E) of
        Inl _ \<Rightarrow> (Some (Some AssetNotFound), st)
      | Inr asset \<Rightarrow>
     (case teReceipt E (tpTrxHash payload) of
        Inl err \<Rightarrow> (Some (Some (ReceiptMissing err)), st)
      | Inr receiptStatus \<Rightarrow>
     (let transferStatus =
            (if tpIsRemoved payload then RevertedStatus
             else if receiptStatus = 0 then RevertedStatus else ConfirmedStatus)
      in case asSymbol asset of
        None \<Rightarrow> (None, st)
      | Some symbol \<Rightarrow>
     (let transferEvent = NewTransferEvent (tpTrxHash payload) (tpBlockNumber payload) (asID asset) (tpFrom payload)
            (tpTo payload) (tpValue payload) symbol transferStatus (tpTime payload)
      in case transfer_Create (teCreateFault E) (teDup E) (Some transferEvent) (tsTransfers st) of
        (Some err, tfs) \<Rightarrow> (Some (Some (CreateFailed err)), st\<lparr>tsTransfers := tfs\<rparr>)
      | (None, tfs) \<Rightarrow>
          (case DeletePendingTransaction (teRedis E) (tpTrxHash payload) (tsRedis st) of
             (Some err, r) \<Rightarrow> (Some (Some (CacheFailed err)), st\<lparr>tsTransfers := tfs, tsRedis := r\<rparr>)
           | (None, r) \<Rightarrow> (Some None, st\<lparr>tsTransfers := tfs, tsRedis := r\<rparr>)))))))))"

subsection \<open>The status of a withdrawal (check\_transaction\_status.go)\<close>

datatype status_error =
    BadTask string | TxLookup handler_error | NodeError string | RequeueFailed string | StillPending | UpdateFailed handler_error

text \<open>The look-up fills a local pointer and the caller's stays nil: the chain ID read from it when the
  transaction is still pending is a panic. \<open>onChain\<close> gives whether the transaction is pending.\<close>

definition HandleTransactionStatus ::
  "string option \<Rightarrow> string option \<Rightarrow> (string \<Rightarrow> string) \<Rightarrow> (string \<Rightarrow> string + bool) \<Rightarrow> (string \<Rightarrow> string + nat) \<Rightarrow>
   string + string \<times> int \<Rightarrow> evm_tx list \<Rightarrow> status_error option option \<times> evm_tx list" where
  "HandleTransactionStatus lookupFault updateFault hexToHash onChain receipt bound txs =
     (case bound of
        Inl err \<Rightarrow> (Some (Some (BadTask err)), txs)
      | Inr (payloadHash, _) \<Rightarrow>
     (let txHash = hexToHash payloadHash
      in case GetTransactionByHash lookupFault txHash txs of
        Inl err \<Rightarrow> (Some (Some (TxLookup err)), txs)
      | Inr _ \<Rightarrow>
     (case onChain txHash of
        Inl err \<Rightarrow> (Some (Some (NodeError err)), txs)
      | Inr isPending \<Rightarrow>
     (case receipt txHash of
        Inl err \<Rightarrow> (Some (Some (NodeError err)), txs)
      | Inr status \<Rightarrow>
          if isPending then (None, txs)
          else if status = 1 then
            (case UpdateTransactionStatus updateFault txHash ConfirmedStatus txs of
               (Some err, txs) \<Rightarrow> (Some (Some (UpdateFailed err)), txs) | (None, txs) \<Rightarrow> (Some None, txs))
          else if status = 0 then
            (case UpdateTransactionStatus updateFault txHash FailedStatus txs of
               (Some err, txs) \<Rightarrow> (Some (Some (UpdateFailed err)), txs) | (None, txs) \<Rightarrow> (Some None, txs))
          else (Some None, txs)))))"

subsection \<open>Lemmas\<close>

lemma WithdrawAsset_cases:
  assumes "WithdrawAsset E userID acct toPk amount gas gasPrice chainId calldata st = (r, st')"
  shows "csSent st' = csSent st \<or>
     (\<exists>tx. csSent st' = csSent st @ [tx] \<and> ceKey E acct = Inr (sgKey tx) \<and>
        sgRaw tx = \<lparr> rtNonce = 15, rtTo = ceHexToAddress E toPk, rtAmount = amount, rtGas = gas, rtGasPrice = gasPrice \<rparr> \<and>
        (if gasPrice = None then r = None \<and> csTxs st' = csTxs st \<and> csRedis st' = csRedis st \<and> csQueue st' = csQueue st
         else r \<noteq> None))"
proof -
  consider (early) "csSent st' = csSent st"
    | (sent) raw tx where "CreateNativeTransferTx E (acAddress acct) toPk amount gas gasPrice = Inr raw"
        "EthSignTransaction E raw acct = Inr tx" "ceSendErr E tx = None"
  proof (cases "CreateNativeTransferTx E (acAddress acct) toPk amount gas gasPrice")
    case (Inl err)
    then show ?thesis using assms early by (simp add: WithdrawAsset_def)
  next
    case raw: (Inr raw)
    show ?thesis
    proof (cases "EthSignTransaction E raw acct")
      case (Inl err)
      then show ?thesis using assms early raw by (simp add: WithdrawAsset_def Let_def)
    next
      case tx: (Inr tx)
      show ?thesis
      proof (cases "ceSendErr E tx")
        case (Some err)
        then have "csSent st' = csSent st" using assms raw tx
          by (auto simp: WithdrawAsset_def Let_def SendSignedTransaction_def split: option.splits prod.splits)
        then show ?thesis by (rule early)
      qed (use sent raw tx in blast)
    qed
  qed
  then show ?thesis
  proof cases
    case sent
    have tx: "ceKey E acct = Inr (sgKey tx)" "sgRaw tx = raw"
      using sent(2) by (auto simp: EthSignTransaction_def split: sum.splits option.splits)
    have raw: "raw = \<lparr> rtNonce = 15, rtTo = ceHexToAddress E toPk, rtAmount = amount, rtGas = gas, rtGasPrice = gasPrice \<rparr>"
      using sent(1) by (auto simp: CreateNativeTransferTx_def Let_def split: sum.splits)
    have "csSent st' = csSent st @ [tx] \<and>
        (if gasPrice = None then r = None \<and> csTxs st' = csTxs st \<and> csRedis st' = csRedis st \<and> csQueue st' = csQueue st
         else r \<noteq> None)"
      using assms sent
      by (cases gasPrice) (auto simp: WithdrawAsset_def Let_def SendSignedTransaction_def EnqueuPendingTransactions_def
          withdrawal_row_def split: option.splits prod.splits)
    then show ?thesis using tx raw by blast
  qed simp
qed

text \<open>A withdrawal request that passed every check, and any other.\<close>

lemma WithdrawHandler_cases:
  assumes "WithdrawHandler E uuidParse (Inr req) c st = (r, st')"
  obtains (refused) "st' = st"
    | (passed) raw userID user w acct res where "gcKeys c ''userID'' = Some raw" "uuidParse raw = Some userID"
        "GetUserByID (ceUserFault E) userID (csUsers st) = Inr user"
        "wdAssetOwnerAddress req = waAddress (usWallet user)"
        "GetByUserID (ceWalletFault E) (usID user) (csUsers st) = Inr w"
        "ceLedger E (getBIP44Format (of_nat (waAddressIndex w))) = Inr acct"
        "WithdrawAsset E (usID user) acct (wdDestinationAddress req) (SetString10 (wdAmountWei req))
             (unat (word_of_int (wdGasLimitUnit req) :: 64 word)) (SetString10 (wdGasPriceWei req))
             (word_of_int (wdChainId req)) (wdCalldata req) st = (res, st')" "r = None \<longleftrightarrow> res = None"
proof -
  note d = WithdrawHandler_def [of E uuidParse "Inr req" c st] assms
  show ?thesis
  proof (cases "gcKeys c ''userID''")
    case None
    then show ?thesis using d refused by simp
  next
    case raw: (Some raw)
    show ?thesis
    proof (cases "uuidParse raw")
      case None
      then show ?thesis using d raw refused by simp
    next
      case id: (Some userID)
      show ?thesis
      proof (cases "GetUserByID (ceUserFault E) userID (csUsers st)")
        case (Inl err)
        then show ?thesis using d raw id refused by (cases err) simp_all
      next
        case user: (Inr user)
        show ?thesis
        proof (cases "wdAssetOwnerAddress req = waAddress (usWallet user)")
          case False
          then show ?thesis using d raw id user refused by simp
        next
          case own: True
          show ?thesis
          proof (cases "GetByUserID (ceWalletFault E) (usID user) (csUsers st)")
            case (Inl err)
            then show ?thesis using d raw id user own refused by simp
          next
            case w: (Inr w)
            show ?thesis
            proof (cases "ceLedger E (getBIP44Format (of_nat (waAddressIndex w)))")
              case (Inl err)
              then show ?thesis using d raw id user own w refused by (simp add: GetWalletAccountByUserID_def Let_def)
            next
              case acct: (Inr acct)
              obtain res st1 where wa: "WithdrawAsset E (usID user) acct (wdDestinationAddress req) (SetString10 (wdAmountWei req))
                 (unat (word_of_int (wdGasLimitUnit req) :: 64 word)) (SetString10 (wdGasPriceWei req))
                 (word_of_int (wdChainId req)) (wdCalldata req) st = (res, st1)" by fastforce
              then have "st' = st1 \<and> (r = None \<longleftrightarrow> res = None)"
                using d raw id user own w acct
                by (auto simp: GetWalletAccountByUserID_def Let_def split: option.splits sum.splits)
              then show ?thesis using passed raw id user own w acct wa by blast
            qed
          qed
        qed
      qed
    qed
  qed
qed

lemma getBIP44Format_inj [simp]: "getBIP44Format i = getBIP44Format j \<longleftrightarrow> i = j"
  by (simp add: getBIP44Format_def word_uint_eq_iff)

subsection \<open>Properties\<close>

text \<open>C27: A withdrawal leaves only for the caller's own address: when a request makes a transaction be sent, it is one,
  the caller named by the token exists and gave the address of their own wallet as owner, and the transaction
  pays the requested amount to the requested destination; it is signed with the account at the wallet's stored
  index and carries the nonce 15, whatever the account's pending nonce.\<close>

theorem withdrawal_only_for_own_address:
  assumes "WithdrawHandler E uuidParse (Inr req) c st = (r, st')" and "csSent st' \<noteq> csSent st"
  shows "\<exists>raw userID user w acct tx. gcKeys c ''userID'' = Some raw \<and> uuidParse raw = Some userID \<and>
     GetUserByID (ceUserFault E) userID (csUsers st) = Inr user \<and> wdAssetOwnerAddress req = waAddress (usWallet user) \<and>
     GetByUserID (ceWalletFault E) (usID user) (csUsers st) = Inr w \<and>
     ceLedger E (getBIP44Format (of_nat (waAddressIndex w))) = Inr acct \<and> ceKey E acct = Inr (sgKey tx) \<and>
     csSent st' = csSent st @ [tx] \<and> rtNonce (sgRaw tx) = 15 \<and>
     rtTo (sgRaw tx) = ceHexToAddress E (wdDestinationAddress req) \<and> rtAmount (sgRaw tx) = SetString10 (wdAmountWei req)"
proof (cases rule: WithdrawHandler_cases [OF assms(1)])
  case 1
  then show ?thesis using assms(2) by simp
next
  case (2 raw userID user w acct res)
  from WithdrawAsset_cases [OF 2(7)] assms(2) obtain tx where "csSent st' = csSent st @ [tx]" "ceKey E acct = Inr (sgKey tx)"
    "sgRaw tx = \<lparr> rtNonce = 15, rtTo = ceHexToAddress E (wdDestinationAddress req), rtAmount = SetString10 (wdAmountWei req),
      rtGas = unat (word_of_int (wdGasLimitUnit req) :: 64 word), rtGasPrice = SetString10 (wdGasPriceWei req) \<rparr>" by blast
  then have "csSent st' = csSent st @ [tx]" "ceKey E acct = Inr (sgKey tx)" "rtNonce (sgRaw tx) = 15"
    "rtTo (sgRaw tx) = ceHexToAddress E (wdDestinationAddress req)" "rtAmount (sgRaw tx) = SetString10 (wdAmountWei req)"
    by simp_all
  with 2 show ?thesis by (intro exI conjI)
qed

definition sample_chain :: "(string \<Rightarrow> string option) chain_env" where
  "sample_chain = \<lparr> ceRedis = aeRedis sample_auth, cePendingTTL = 5,
     ceLedger = (\<lambda>path. Inr \<lparr> acAddress = ''0x'' @ path, acPath = path \<rparr>), ceKey = (\<lambda>a. Inr (''key:'' @ acPath a)),
     ceHexToAddress = (\<lambda>s. s), ceNonce1 = (\<lambda>_. Inr 3), ceNonce2 = (\<lambda>_. Inr 3), ceNetworkID = Inr 11155111, ceSignErr = None,
     ceSendErr = (\<lambda>_. None), ceHash = (\<lambda>_. ''0xabc''), ceEnqueueErr = (\<lambda>_ _. None), ceText = (\<lambda>_. ''error''), ceDup = ''dup'',
     ceUserFault = None, ceWalletFault = None, ceTxFault = None \<rparr>"

definition chain_start :: "(string \<Rightarrow> string option) chain_state" where
  "chain_start = \<lparr> csUsers = auDb (snd registered), csTxs = [], csSent = [], csRedis = Map.empty, csQueue = [] \<rparr>"

definition sample_withdraw :: "string \<Rightarrow> WithdrawNativeRequest" where
  "sample_withdraw gasPrice = \<lparr> wdAssetOwnerAddress = ''0x'' @ getBIP44Format 1, wdDestinationAddress = ''0xdest'',
     wdTokenAddress = ''0xtoken'', wdTokenSymbol = ''ETH'', wdAmountWei = ''100'', wdGasLimitUnit = 21000,
     wdGasPriceWei = gasPrice, wdChainId = 11155111, wdCalldata = ''0x'' \<rparr>"

definition own_ctx :: gctx where
  "own_ctx = set_key ''userID'' ''u-1'' auth_ctx"

lemma chain_fields:
  "ceUserFault sample_chain = None" "ceWalletFault sample_chain = None"
  "ceLedger sample_chain path = Inr \<lparr> acAddress = ''0x'' @ path, acPath = path \<rparr>"
  "csUsers chain_start = auDb (snd registered)" "csSent chain_start = []" "csTxs chain_start = []"
  "gcKeys own_ctx ''userID'' = Some ''u-1''"
  by (simp_all add: sample_chain_def chain_start_def own_ctx_def set_key_def)

lemma sample_withdraw_passes:
  "WithdrawHandler sample_chain Some (Inr (sample_withdraw g)) own_ctx chain_start =
     (case WithdrawAsset sample_chain ''u-1'' \<lparr> acAddress = ''0x'' @ getBIP44Format 0, acPath = getBIP44Format 0 \<rparr>
        ''0xdest'' (SetString10 ''100'') (unat (word_of_int 21000 :: 64 word)) (SetString10 g) (word_of_int 11155111)
        ''0x'' chain_start of
        (None, st) \<Rightarrow> (None, st)
      | (Some (Inl err), st) \<Rightarrow> (Some (respond (InternalServerErrorStandard err) own_ctx, False), st)
      | (Some (Inr txHash), st) \<Rightarrow>
          (Some (respond (SuccessStandard (WithdrawResponse 200 PendingStatus)) own_ctx, True), st))"
  by (simp add: WithdrawHandler_def chain_fields sample_registered GetUserByID_def first_user_def
      wallet_of_def wallet_row_def NewWalletAccount_def sample_withdraw_def GetByUserID_def first_wallet_def
      GetWalletAccountByUserID_def Let_def)

lemma sample_sent:
  "WithdrawAsset sample_chain u a to amt gas None ch cd st =
     (None, st\<lparr>csSent := csSent st @ [\<lparr> sgRaw = \<lparr> rtNonce = 15, rtTo = to, rtAmount = amt, rtGas = gas, rtGasPrice = None \<rparr>,
                 sgKey = ''key:'' @ acPath a, sgChain = 11155111 \<rparr>]\<rparr>)"
  by (simp add: WithdrawAsset_def CreateNativeTransferTx_def EthSignTransaction_def SendSignedTransaction_def sample_chain_def
      withdrawal_row_def Let_def)

lemma unread_gas_price: "WeiAmountCheck '' 5''" "SetString10 '' 5'' = None"
  by (code_simp, code_simp)

theorem withdrawal_only_for_own_address_witness:
  "\<exists>tx. csSent (snd (WithdrawHandler sample_chain Some (Inr (sample_withdraw '' 5'')) own_ctx chain_start)) = [tx] \<and>
     rtNonce (sgRaw tx) = 15 \<and> rtTo (sgRaw tx) = ''0xdest'' \<and> sgKey tx = ''key:'' @ getBIP44Format 0"
proof -
  obtain r st' where h: "WithdrawHandler sample_chain Some (Inr (sample_withdraw '' 5'')) own_ctx chain_start = (r, st')" by fastforce
  have st': "st' = snd (WithdrawAsset sample_chain ''u-1'' \<lparr> acAddress = ''0x'' @ getBIP44Format 0, acPath = getBIP44Format 0 \<rparr>
        ''0xdest'' (SetString10 ''100'') (unat (word_of_int 21000 :: 64 word)) None (word_of_int 11155111) ''0x'' chain_start)"
    using h by (simp add: sample_withdraw_passes unread_gas_price sample_sent)
  then have sent: "csSent st' = csSent chain_start @ [\<lparr> sgRaw = \<lparr> rtNonce = 15, rtTo = ''0xdest'', rtAmount = SetString10 ''100'',
      rtGas = unat (word_of_int 21000 :: 64 word), rtGasPrice = None \<rparr>, sgKey = ''key:'' @ getBIP44Format 0, sgChain = 11155111 \<rparr>]"
    by (simp add: sample_sent)
  then have "csSent st' \<noteq> csSent chain_start" by simp
  from withdrawal_only_for_own_address [OF h this] sent h show ?thesis by (auto simp: chain_start_def)
qed

text \<open>A withdrawal can leave no record: when the gas price passes its check only because the check trims it, the
  handler hands a nil number on; the transaction is sent, the call then panics, and neither the table,
  the cache nor the queue knows of it.\<close>

theorem untrimmed_gas_price_is_sent_unrecorded:
  assumes "WithdrawHandler E uuidParse (Inr req) c st = (r, st')" and "csSent st' \<noteq> csSent st"
    and "SetString10 (wdGasPriceWei req) = None"
  shows "r = None \<and> csTxs st' = csTxs st \<and> csRedis st' = csRedis st \<and> csQueue st' = csQueue st"
proof (cases rule: WithdrawHandler_cases [OF assms(1)])
  case 1
  then show ?thesis using assms(2) by simp
next
  case (2 raw userID user w acct res)
  from WithdrawAsset_cases [OF 2(7)] assms(2,3) 2(8) show ?thesis by auto
qed

theorem untrimmed_gas_price_is_sent_unrecorded_witness:
  "WeiAmountCheck '' 5'' \<and>
     csTxs (snd (WithdrawHandler sample_chain Some (Inr (sample_withdraw '' 5'')) own_ctx chain_start)) = [] \<and>
     length (csSent (snd (WithdrawHandler sample_chain Some (Inr (sample_withdraw '' 5'')) own_ctx chain_start))) = 1"
proof -
  obtain r st' where h: "WithdrawHandler sample_chain Some (Inr (sample_withdraw '' 5'')) own_ctx chain_start = (r, st')" by fastforce
  then have "length (csSent st') = Suc (length (csSent chain_start))"
    by (auto simp: sample_withdraw_passes unread_gas_price sample_sent)
  then have sent: "length (csSent st') = 1" "csSent st' \<noteq> csSent chain_start" by (auto simp: chain_start_def)
  have "SetString10 (wdGasPriceWei (sample_withdraw '' 5'')) = None" by (simp add: sample_withdraw_def unread_gas_price)
  from untrimmed_gas_price_is_sent_unrecorded [OF h sent(2) this] sent h show ?thesis
    by (simp add: unread_gas_price(1) chain_start_def)
qed

text \<open>A new account's withdrawals are signed with another key than its own: the wallet that a registration
  creates has the address derived at the sequence number it drew, while the index stored with it, which is the
  one a withdrawal derives the signing account from, is a different one, and so is the derivation path.\<close>

theorem stored_index_is_not_the_derivation_index:
  assumes "uc_Register E user seq db = (out, db', Some (None, u, seq'))" and "0 < seq" and "Suc seq < 2 ^ 32"
  shows "\<exists>w a. GetByUserID None (usID u) db' = Inr w \<and> aeLedger E (getBIP44Format (of_nat seq)) = Inr a \<and>
     waAddress w = acAddress a \<and> getBIP44Format (of_nat (waAddressIndex w)) \<noteq> getBIP44Format (of_nat seq)"
proof -
  obtain a where a: "aeLedger E (getBIP44Format (of_nat seq)) = Inr a" and new: "usID u \<notin> waUserID ` set (udWallets db)"
    and db': "udWallets db' = udWallets db @ [wallet_row (aeSeqDefault E) (usID u) (acAddress a) seq]"
    using uc_Register_result [OF assms(1)] by auto
  have "find (\<lambda>w. waUserID w = usID u) (udWallets db) = None" using new by (auto simp: find_None image_iff)
  then have g: "GetByUserID None (usID u) db' = Inr (wallet_row (aeSeqDefault E) (usID u) (acAddress a) seq)"
    by (simp add: GetByUserID_def first_wallet_def db' find_append wallet_row_def NewWalletAccount_def)
  have "(of_nat i :: 32 word) \<noteq> of_nat seq" if "i < 2 ^ 32" "i \<noteq> seq" for i
    using that assms(3) by (simp add: word_of_nat_eq_iff take_bit_eq_mod)
  then have "(of_nat (waAddressIndex (wallet_row (aeSeqDefault E) (usID u) (acAddress a) seq)) :: 32 word) \<noteq> of_nat seq"
    by this (use assms(2,3) in \<open>simp_all add: wallet_row_def\<close>)
  then show ?thesis using g a by (simp add: wallet_row_def NewWalletAccount_def)
qed

theorem stored_index_is_not_the_derivation_index_witness:
  "\<exists>w. GetByUserID None ''u-1'' (auDb (snd registered)) = Inr w \<and> waAddress w = ''0x'' @ getBIP44Format 1 \<and>
     getBIP44Format (of_nat (waAddressIndex w)) \<noteq> getBIP44Format 1"
proof -
  obtain out db' u seq' where r: "uc_Register sample_auth erin 1 (auDb no_accounts) = (out, db', Some (None, u, seq'))"
    and u: "usID u = ''u-1''" and w: "udWallets db' = udWallets (auDb (snd registered))"
  proof -
    have "uc_Register sample_auth erin 1 (auDb no_accounts) = ([], \<lparr> udRoles = [], udUsers = [user_defaults ''u-1'' erin],
        udWallets = [wallet_row False ''u-1'' (''0x'' @ getBIP44Format 1) 1] \<rparr>, Some (None, user_defaults ''u-1'' erin, 2))"
      by (simp add: uc_Register_def sample_auth_def no_accounts_def WithinTransaction_def user_Create_def CreateNewWallet_def
          NextAddressIndex_def GenerateWalletAddress_def generateNewPublicKey_def insert_wallet_def wallet_row_def
          NewWalletAccount_def user_defaults_def Let_def)
    then show ?thesis by (rule that) (simp_all add: user_defaults_def sample_registered)
  qed
  have g: "GetByUserID None ''u-1'' db' = GetByUserID None ''u-1'' (auDb (snd registered))"
    by (simp add: GetByUserID_def first_wallet_def w)
  from stored_index_is_not_the_derivation_index [OF r] u g show ?thesis by (auto simp: sample_auth_def)
qed

text \<open>A deposit is not noticed on the account it reaches: for a transfer to one of our wallets from an address that is
  not ours, the task changes no wallet; and whatever transfer the listener queued, the event recorded for it has
  an empty amount.\<close>

theorem deposit_changes_no_wallet:
  assumes "GetByWalletAddress None (tpTo p) (tsUsers st) = Inr w"
    and "GetByWalletAddress None (tpFrom p) (tsUsers st) = Inl RecordNotFound"
    and "teToFault E = None" and "teFromFault E = None"
    and "p = RegisterTransferEventTask now trxHash fromAddr toAddr amount tokenCA blockNumber isRemoved"
    and "HandleTransferEventTask E (Inr p) st = (r, st')"
  shows "tsUsers st' = tsUsers st \<and> (tsTransfers st' = tsTransfers st \<or>
     (\<exists>ev. tsTransfers st' = tsTransfers st @ [ev] \<and> tfTo ev = toAddr \<and> tfAmount ev = []))"
proof -
  have "\<forall>w \<in> set (udWallets (tsUsers st)). waAddress w \<noteq> tpFrom p"
    using assms(2) by (auto simp: GetByWalletAddress_def first_wallet_def find_None split: option.splits)
  then have "map (\<lambda>w. if waAddress w = tpFrom p then w\<lparr>waBalanceSynced := f, waLastSyncedAt := t\<rparr> else w) (udWallets (tsUsers st)) =
      udWallets (tsUsers st)" for f t by (simp add: map_idI)
  then have sync: "UpdateTheBalanceSync fault (tpFrom p) f t (tsUsers st) = (err, udb) \<Longrightarrow> udb = tsUsers st" for fault f t err udb
    by (auto simp: UpdateTheBalanceSync_def update_wallets_def split: option.splits)
  have "tpValue p = []" "tpTo p = toAddr" by (simp_all add: assms(5) RegisterTransferEventTask_def json_exported_def)
  then show ?thesis
    using assms(6) by (auto simp: HandleTransferEventTask_def assms(1-4) Let_def transfer_Create_def NewTransferEvent_def
        split: prod.splits option.splits sum.splits if_splits dest: sync)
qed

definition deposit_state :: "(string \<Rightarrow> string option) transfer_state" where
  "deposit_state = \<lparr> tsUsers = auDb (snd registered), tsTransfers = [], tsRedis = Map.empty \<rparr>"

definition deposit_env :: "(string \<Rightarrow> string option) transfer_env" where
  "deposit_env = \<lparr> teRedis = aeRedis sample_auth,
     teAssets = [\<lparr> asID = ''a-1'', asName = None, asSymbol = Some ''USDT'', asMaxSize = 100,
       asNetworkAvailability = \<lparr> naSpotTestnet = True, naSpotMainnet = False, naPerpTestnet = False, naPerpMainnet = False \<rparr>,
       asStatus = ''active'', asAddress = Some ''0xtoken'', asNetwork = ''testnet'' \<rparr>], teReceipt = (\<lambda>_. Inr 1), teDup = ''dup'', teToFault = None, teFromFault = None,
     teSyncFault = None, teAssetFault = None, teCreateFault = None \<rparr>"

definition sample_deposit :: transfer_payload where
  "sample_deposit = RegisterTransferEventTask 0 ''0xhash'' ''0xstranger'' (''0x'' @ getBIP44Format 1) ''500'' ''0xtoken'' 7 False"

theorem deposit_changes_no_wallet_witness:
  "tsUsers (snd (HandleTransferEventTask deposit_env (Inr sample_deposit) deposit_state)) = tsUsers deposit_state \<and>
     map tfAmount (tsTransfers (snd (HandleTransferEventTask deposit_env (Inr sample_deposit) deposit_state))) = [[]]"
proof -
  obtain r st' where h: "HandleTransferEventTask deposit_env (Inr sample_deposit) deposit_state = (r, st')" by fastforce
  have p: "tpTo sample_deposit = ''0x'' @ getBIP44Format 1" "tpFrom sample_deposit = ''0xstranger''"
    by (simp_all add: sample_deposit_def RegisterTransferEventTask_def json_exported_def)
  obtain w where w: "GetByWalletAddress None (tpTo sample_deposit) (tsUsers deposit_state) = Inr w"
    by (simp add: p deposit_state_def sample_registered GetByWalletAddress_def first_wallet_def wallet_row_def NewWalletAccount_def)
  have "''stranger'' \<noteq> getBIP44Format 1" by (simp add: getBIP44Format_def)
  then have f: "GetByWalletAddress None (tpFrom sample_deposit) (tsUsers deposit_state) = Inl RecordNotFound"
    by (simp add: p deposit_state_def sample_registered GetByWalletAddress_def first_wallet_def wallet_row_def NewWalletAccount_def)
  have e: "teToFault deposit_env = None" "teFromFault deposit_env = None" by (simp_all add: deposit_env_def)
  note result = deposit_changes_no_wallet [OF w f e sample_deposit_def h]
  have "tsTransfers st' \<noteq> []"
    using h w f by (auto simp: HandleTransferEventTask_def deposit_env_def Let_def UpdateTheBalanceSync_def
        GetAssetByCotnractAddress_def transfer_Create_def sample_deposit_def RegisterTransferEventTask_def json_exported_def
        deposit_state_def DeletePendingTransaction_def sample_auth_def)
  then show ?thesis using result h by (auto simp: deposit_state_def)
qed

text \<open>C28: A settled withdrawal's rows say what the chain said: when the task returns without an error, the
  transaction was no longer pending, every row with its hash is confirmed or failed as the receipt says, and every other
  row is as it was.\<close>

theorem transaction_status_follows_receipt:
  assumes "HandleTransactionStatus lookupFault updateFault hexToHash onChain receipt (Inr (h, chainId)) txs = (Some None, txs')"
  shows "\<exists>status. onChain (hexToHash h) = Inr False \<and> receipt (hexToHash h) = Inr status \<and>
     txs' = map (\<lambda>t. if etHash t = Some (hexToHash h) \<and> status \<le> 1
       then t\<lparr>etStatus := (if status = 1 then ConfirmedStatus else FailedStatus)\<rparr> else t) txs"
proof -
  from assms obtain status where s: "onChain (hexToHash h) = Inr False" "receipt (hexToHash h) = Inr status"
    and r: "(if status = 1 then (case UpdateTransactionStatus updateFault (hexToHash h) ConfirmedStatus txs of
               (Some err, txs) \<Rightarrow> (Some (Some (UpdateFailed err)), txs) | (None, txs) \<Rightarrow> (Some None, txs))
          else if status = 0 then (case UpdateTransactionStatus updateFault (hexToHash h) FailedStatus txs of
               (Some err, txs) \<Rightarrow> (Some (Some (UpdateFailed err)), txs) | (None, txs) \<Rightarrow> (Some None, txs))
          else (Some None, txs)) = (Some None, txs')"
    by (auto simp: HandleTransactionStatus_def Let_def split: sum.splits if_splits)
  consider "status = 1" | "status = 0" | "1 < status" by linarith
  then have "txs' = map (\<lambda>t. if etHash t = Some (hexToHash h) \<and> status \<le> 1
       then t\<lparr>etStatus := (if status = 1 then ConfirmedStatus else FailedStatus)\<rparr> else t) txs"
    using r by cases (auto simp: UpdateTransactionStatus_def split: option.splits)
  then show ?thesis using s by blast
qed

definition pending_row :: "string \<Rightarrow> evm_tx" where
  "pending_row h = NewEVMTransaction ''u-1'' (Some h) 1 3 ''0xfrom'' None 5 None EIP1559 PendingStatus []"

theorem transaction_status_follows_receipt_witness:
  "\<exists>txs'. HandleTransactionStatus None None (\<lambda>s. s) (\<lambda>_. Inr False) (\<lambda>_. Inr 1) (Inr (''0x1'', 1))
       [pending_row ''0x1'', pending_row ''0x2''] = (Some None, txs') \<and> map etStatus txs' = [ConfirmedStatus, PendingStatus]"
proof -
  obtain txs' where h: "HandleTransactionStatus None None (\<lambda>s. s) (\<lambda>_. Inr False) (\<lambda>_. Inr 1) (Inr (''0x1'', 1))
       [pending_row ''0x1'', pending_row ''0x2''] = (Some None, txs')"
    by (simp add: HandleTransactionStatus_def GetTransactionByHash_def UpdateTransactionStatus_def pending_row_def NewEVMTransaction_def)
  from transaction_status_follows_receipt [OF this]
  have "txs' = [(pending_row ''0x1'')\<lparr>etStatus := ConfirmedStatus\<rparr>, pending_row ''0x2'']"
    by (auto simp: pending_row_def NewEVMTransaction_def)
  then have "map etStatus txs' = [ConfirmedStatus, PendingStatus]" by (simp add: pending_row_def NewEVMTransaction_def)
  with h show ?thesis by (intro exI conjI)
qed

end
