(* ===== verification/Topic_Manager.thy ===== *)
theory Topic_Manager
  imports Event_Types "HOL-Library.Word"
begin

text \<open>
  \<^verbatim>\<open>internal/adapter/messaging/kafka/topic\_manager.go\<close>: the partitions of the event topics follow the number of
  trading pairs. The admin client is a parameter on a broker state \<open>'s\<close>: what it lists, and the calls that
  create topics and set their partition count, each with its error, if any. The per-topic errors inside a
  successful answer are only logged by the code.
\<close>

record topic_detail =
  tdErr :: "string option"
  tdPartitions :: nat

record 's topic_admin =
  taList :: "string list \<Rightarrow> 's \<Rightarrow> string + (string \<Rightarrow> topic_detail option)"
  taCreate :: "int \<Rightarrow> string list \<Rightarrow> 's \<Rightarrow> string option \<times> 's"
  taUpdate :: "int \<Rightarrow> string list \<Rightarrow> 's \<Rightarrow> string option \<times> 's"

datatype topic_error =
    TargetNotPositive int | ListingTopics string | CreatingTopics string | ExpandingPartitions string

text \<open>The loop that splits the topics: those to create, and those to expand.\<close>

fun sync_plan :: "(string \<Rightarrow> topic_detail option) \<Rightarrow> 32 word \<Rightarrow> string list \<Rightarrow> string list \<times> string list" where
  "sync_plan existing targetCount [] = ([], [])"
| "sync_plan existing targetCount (topic # topics) =
     (case sync_plan existing targetCount topics of
        (toCreate, toExpand) \<Rightarrow>
          (case existing topic of
             None \<Rightarrow> (topic # toCreate, toExpand)
           | Some detail \<Rightarrow>
               if tdErr detail \<noteq> None then (topic # toCreate, toExpand)
               else if (of_nat (tdPartitions detail) :: 32 word) <s targetCount then (toCreate, topic # toExpand)
               else (toCreate, toExpand)))"

definition SyncPartitions ::
  "'s topic_admin \<Rightarrow> string list \<Rightarrow> 32 word \<Rightarrow> 's \<Rightarrow> topic_error option \<times> 's" where
  "SyncPartitions tm topics targetCount s =
     (if targetCount \<le>s 0 then (Some (TargetNotPositive (sint targetCount)), s)
      else case taList tm topics s of
        Inl err \<Rightarrow> (Some (ListingTopics err), s)
      | Inr existing \<Rightarrow>
          (case sync_plan existing targetCount topics of
             (toCreate, toExpand) \<Rightarrow>
               (case (if toCreate = [] then (None, s) else taCreate tm (sint targetCount) toCreate s) of
                  (Some err, s1) \<Rightarrow> (Some (CreatingTopics err), s1)
                | (None, s1) \<Rightarrow>
                    (case (if toExpand = [] then (None, s1) else taUpdate tm (sint targetCount) toExpand s1) of
                       (Some err, s2) \<Rightarrow> (Some (ExpandingPartitions err), s2)
                     | (None, s2) \<Rightarrow> (None, s2)))))"

definition OnNewPair :: "'s topic_admin \<Rightarrow> 32 word \<Rightarrow> 's \<Rightarrow> topic_error option \<times> 's" where
  "OnNewPair tm newTotalPairCount s = SyncPartitions tm CoinhubAllCurrentOrderTopics newTotalPairCount s"

subsection \<open>Lemmas\<close>

lemma sint_of_nat32: "n < 2 ^ 31 \<Longrightarrow> sint (of_nat n :: 32 word) = int n"
  by (simp add: signed_of_nat signed_take_bit_int_eq_self)

lemma sync_plan_sets:
  assumes "\<forall>t \<in> set topics. case parts t of
      None \<Rightarrow> existing t = None \<or> (\<exists>d. existing t = Some d \<and> tdErr d \<noteq> None)
    | Some n \<Rightarrow> n < 2 ^ 31 \<and> existing t = Some \<lparr> tdErr = None, tdPartitions = n \<rparr>"
  shows "set (fst (sync_plan existing c topics)) = {t \<in> set topics. parts t = None} \<and>
    set (snd (sync_plan existing c topics)) = {t \<in> set topics. \<exists>n. parts t = Some n \<and> int n < sint c}"
  using assms
proof (induction topics)
  case (Cons t topics)
  obtain a b where ab: "sync_plan existing c topics = (a, b)" by fastforce
  from Cons have ih: "set a = {t \<in> set topics. parts t = None}"
    "set b = {t \<in> set topics. \<exists>n. parts t = Some n \<and> int n < sint c}" by (simp_all add: ab)
  show ?case
  proof (cases "parts t")
    case None
    with Cons.prems have "existing t = None \<or> (\<exists>d. existing t = Some d \<and> tdErr d \<noteq> None)" by simp
    then have "sync_plan existing c (t # topics) = (t # a, b)" by (auto simp: ab)
    then show ?thesis using ih None by auto
  next
    case (Some n)
    with Cons.prems have n: "n < 2 ^ 31" and e: "existing t = Some \<lparr> tdErr = None, tdPartitions = n \<rparr>" by simp_all
    have lt: "(of_nat n :: 32 word) <s c \<longleftrightarrow> int n < sint c"
      by (simp add: word_sless_alt sint_of_nat32 [OF n])
    have "sync_plan existing c (t # topics) = (if int n < sint c then (a, t # b) else (a, b))"
      by (simp add: ab e lt)
    then show ?thesis using ih Some by auto
  qed
qed simp

subsection \<open>Property\<close>

text \<open>After a successful call, with a broker that lists, creates and expands the topics as documented, each
  requested topic has the target number of partitions, or the number it had when that is larger; no
  other topic changes.\<close>

theorem SyncPartitions_reaches_target:
  assumes lists: "\<And>t. t \<in> set topics \<Longrightarrow> \<exists>ex. taList tm topics s = Inr ex \<and>
      (case parts s t of None \<Rightarrow> ex t = None \<or> (\<exists>d. ex t = Some d \<and> tdErr d \<noteq> None)
       | Some n \<Rightarrow> n < 2 ^ 31 \<and> ex t = Some \<lparr> tdErr = None, tdPartitions = n \<rparr>)"
    and creates: "\<And>n ts u u'. taCreate tm n ts u = (None, u') \<Longrightarrow>
      parts u' = (\<lambda>t. if t \<in> set ts \<and> parts u t = None then Some (nat n) else parts u t)"
    and expands: "\<And>n ts u u'. taUpdate tm n ts u = (None, u') \<Longrightarrow>
      parts u' = (\<lambda>t. if t \<in> set ts \<and> parts u t \<noteq> None then Some (nat n) else parts u t)"
    and ok: "SyncPartitions tm topics targetCount s = (None, s')" and ne: "topics \<noteq> []"
  shows "0 < sint targetCount \<and> parts s' = (\<lambda>t. if t \<in> set topics
     then Some (case parts s t of None \<Rightarrow> nat (sint targetCount) | Some n \<Rightarrow> max n (nat (sint targetCount)))
     else parts s t)"
proof -
  let ?n = "sint targetCount"
  have pos: "0 < ?n" using ok by (auto simp: SyncPartitions_def word_sle_eq split: if_splits)
  obtain ex where ex: "taList tm topics s = Inr ex" using lists [of "hd topics"] ne by fastforce
  obtain a b where ab: "sync_plan ex targetCount topics = (a, b)" by fastforce
  have "\<forall>t \<in> set topics. case parts s t of
      None \<Rightarrow> ex t = None \<or> (\<exists>d. ex t = Some d \<and> tdErr d \<noteq> None)
    | Some n \<Rightarrow> n < 2 ^ 31 \<and> ex t = Some \<lparr> tdErr = None, tdPartitions = n \<rparr>"
    using lists ex by fastforce
  from sync_plan_sets [OF this, of targetCount] have
    sa: "set a = {t \<in> set topics. parts s t = None}"
    and sb: "set b = {t \<in> set topics. \<exists>n. parts s t = Some n \<and> int n < ?n}" by (simp_all add: ab)
  from ok pos ex ab obtain s1 where
    c: "(if a = [] then (None, s) else taCreate tm ?n a s) = (None, s1)"
    and u: "(if b = [] then (None, s1) else taUpdate tm ?n b s1) = (None, s')"
    by (auto simp: SyncPartitions_def split: prod.splits option.splits if_splits)
  have p1: "parts s1 = (\<lambda>t. if t \<in> set a \<and> parts s t = None then Some (nat ?n) else parts s t)"
    using c creates [of ?n a s s1] by (cases "a = []") auto
  have p2: "parts s' = (\<lambda>t. if t \<in> set b \<and> parts s1 t \<noteq> None then Some (nat ?n) else parts s1 t)"
    using u expands [of ?n b s1 s'] by (cases "b = []") auto
  have "parts s' t = (if t \<in> set topics
     then Some (case parts s t of None \<Rightarrow> nat ?n | Some n \<Rightarrow> max n (nat ?n)) else parts s t)" for t
    unfolding p2 p1 sa sb by (cases "parts s t") (auto simp: max_def)
  with pos show ?thesis by blast
qed

text \<open>A broker whose state is its partition counts.\<close>

definition sample_admin :: "(string \<Rightarrow> nat option) topic_admin" where
  "sample_admin = \<lparr> taList = (\<lambda>ts u. Inr (\<lambda>t. case u t of None \<Rightarrow> None
       | Some n \<Rightarrow> if n < 2 ^ 31 then Some \<lparr> tdErr = None, tdPartitions = n \<rparr> else None)),
     taCreate = (\<lambda>n ts u. (None, \<lambda>t. if t \<in> set ts \<and> u t = None then Some (nat n) else u t)),
     taUpdate = (\<lambda>n ts u. (None, \<lambda>t. if t \<in> set ts \<and> u t \<noteq> None then Some (nat n) else u t)) \<rparr>"

theorem SyncPartitions_reaches_target_witness:
  "\<exists>s'. SyncPartitions sample_admin [''a'', ''b'', ''c''] 4 [''b'' \<mapsto> 2, ''c'' \<mapsto> 9, ''d'' \<mapsto> 1] = (None, s') \<and>
     s' ''a'' = Some 4 \<and> s' ''b'' = Some 4 \<and> s' ''c'' = Some 9 \<and> s' ''d'' = Some 1"
proof -
  let ?s = "[''b'' \<mapsto> 2, ''c'' \<mapsto> 9, ''d'' \<mapsto> 1] :: string \<Rightarrow> nat option"
  have l: "\<exists>ex. taList sample_admin [''a'', ''b'', ''c''] ?s = Inr ex \<and>
      (case ?s t of None \<Rightarrow> ex t = None \<or> (\<exists>d. ex t = Some d \<and> tdErr d \<noteq> None)
       | Some n \<Rightarrow> n < 2 ^ 31 \<and> ex t = Some \<lparr> tdErr = None, tdPartitions = n \<rparr>)"
    if "t \<in> set [''a'', ''b'', ''c'']" for t
    using that by (auto simp: sample_admin_def)
  obtain s' where s': "SyncPartitions sample_admin [''a'', ''b'', ''c''] 4 ?s = (None, s')"
    by (simp add: SyncPartitions_def sample_admin_def word_sle_eq)
  have "[''a'', ''b'', ''c''] \<noteq> []" by simp
  from SyncPartitions_reaches_target [where parts = "\<lambda>u. u", OF l _ _ s' this]
  have "0 < sint (4 :: 32 word) \<and> s' = (\<lambda>t. if t \<in> set [''a'', ''b'', ''c'']
     then Some (case ?s t of None \<Rightarrow> nat (sint (4 :: 32 word)) | Some n \<Rightarrow> max n (nat (sint (4 :: 32 word))))
     else ?s t)"
    by (simp add: sample_admin_def)
  then show ?thesis using s' by simp
qed

end
