(* ===== verification/Tables.thy ===== *)
theory Tables
  imports Prelude
begin

text \<open>
  The contract of a database table with a unique column, as the repositories rely on it: an insert that
  succeeds appends its row, whose key no row had before. From the contract: keys stay distinct, the
  row is found under its key afterwards, and every other key finds what it found before. Each repository whose
  lookups by a unique column the model uses interprets it.
\<close>

locale unique_table =
  fixes rows :: "'s \<Rightarrow> 'r list" and key :: "'r \<Rightarrow> 'k" and ins :: "'a \<Rightarrow> 's \<Rightarrow> ('r \<times> 's) option"
  assumes ins_new: "ins a s = Some (r, s') \<Longrightarrow> rows s' = rows s @ [r] \<and> key r \<notin> key ` set (rows s)"
begin

lemma distinct_ins: "ins a s = Some (r, s') \<Longrightarrow> distinct (map key (rows s)) \<Longrightarrow> distinct (map key (rows s'))"
  by (drule ins_new) simp

lemma find_ins: "ins a s = Some (r, s') \<Longrightarrow> find (\<lambda>x. key x = k) (rows s') =
    (if k = key r then Some r else find (\<lambda>x. key x = k) (rows s))"
proof -
  assume "ins a s = Some (r, s')"
  then have s': "rows s' = rows s @ [r]" and new: "key r \<notin> key ` set (rows s)" by (simp_all add: ins_new)
  then have "find (\<lambda>x. key x = key r) (rows s) = None" unfolding find_None using new by (metis imageI)
  then show ?thesis by (auto simp: s' find_append split: option.split)
qed

end

end
