(* ===== verification/Listings.thy ===== *)
theory Listings
  imports Wallet_Flow Topic_Manager Tables
begin

text \<open>
  What the exchange lists: the asset and trading pair repositories (asset\_repo.go, trading\_pair\_repo.go), the
  admin endpoint that adds an asset (\<^verbatim>\<open>internal/adapter/handler/http/asset.go\<close>) and its route. A table is the list of its
  rows, a fault of a database call is a parameter. \<open>dup\<close> and \<open>fk\<close> are the driver's texts for a second value of a
  unique column and for a reference to no row.
\<close>

record listing_db =
  ldAssets :: "asset list"
  ldPairs :: "trading_pair list"

subsection \<open>Assets (asset\_repo.go)\<close>

definition GetAvailableAssetsCount :: "string option \<Rightarrow> asset list \<Rightarrow> string + int" where
  "GetAvailableAssetsCount fault assets =
     (case fault of Some err \<Rightarrow> Inl err | None \<Rightarrow> Inr (int (length (filter (\<lambda>a. asStatus a = AssetStatusActive) assets))))"

definition GetAvailableAssets :: "string option \<Rightarrow> asset list \<Rightarrow> string + asset list" where
  "GetAvailableAssets fault assets =
     (case fault of Some err \<Rightarrow> Inl err | None \<Rightarrow> Inr (filter (\<lambda>a. asStatus a = AssetStatusActive) assets))"

text \<open>The columns' defaults: the key is generated, the network is the test network.\<close>

definition asset_defaults :: "string \<Rightarrow> asset \<Rightarrow> asset" where
  "asset_defaults newID a =
     a\<lparr>asID := (if asID a = [] then newID else asID a),
       asNetwork := (if asNetwork a = [] then TestnetAsset else asNetwork a)\<rparr>"

definition asset_Create ::
  "string option \<Rightarrow> string \<Rightarrow> string \<Rightarrow> asset \<Rightarrow> listing_db \<Rightarrow> handler_error + (asset \<times> listing_db)" where
  "asset_Create fault dup newID asset db =
     (let a = asset_defaults newID asset
      in case fault of
           Some err \<Rightarrow> Inl (DBError err)
         | None \<Rightarrow>
             if asAddress a = None then Inl (DBError ''not null'')
             else if asID a \<in> asID ` set (ldAssets db) \<or> asAddress a \<in> asAddress ` set (ldAssets db)
             then Inl (duplicate_error dup)
             else Inr (a, db\<lparr>ldAssets := ldAssets db @ [a]\<rparr>))"

subsection \<open>Trading pairs (trading\_pair\_repo.go)\<close>

definition symbol_of :: "listing_db \<Rightarrow> string \<Rightarrow> string option" where
  "symbol_of db i = (case find (\<lambda>a. asID a = i) (ldAssets db) of None \<Rightarrow> None | Some a \<Rightarrow> asSymbol a)"

text \<open>\<^verbatim>\<open>Preload\<close> of the two assets.\<close>

definition preload_assets :: "listing_db \<Rightarrow> trading_pair \<Rightarrow> trading_pair" where
  "preload_assets db p =
     p\<lparr>tpBaseSymbol := symbol_of db (tpBaseAssetID p), tpQuoteSymbol := symbol_of db (tpQuoteAssetID p)\<rparr>"

definition pair_Create ::
  "string option \<Rightarrow> string \<Rightarrow> string \<Rightarrow> string \<Rightarrow> trading_pair \<Rightarrow> listing_db \<Rightarrow> handler_error option \<times> listing_db" where
  "pair_Create fault dup fk newID pair db =
     (let p = pair\<lparr>tpID := (if tpID pair = [] then newID else tpID pair)\<rparr>
      in case fault of
           Some err \<Rightarrow> (Some (DBError err), db)
         | None \<Rightarrow>
             if tpID p \<in> tpID ` set (ldPairs db) then (Some (duplicate_error dup), db)
             else if tpBaseAssetID p \<notin> asID ` set (ldAssets db) \<or> tpQuoteAssetID p \<notin> asID ` set (ldAssets db)
             then (Some (DBError fk), db)
             else (None, db\<lparr>ldPairs := ldPairs db @ [p]\<rparr>))"

definition first_pair :: "string option \<Rightarrow> (trading_pair \<Rightarrow> bool) \<Rightarrow> listing_db \<Rightarrow> handler_error + trading_pair" where
  "first_pair fault P db =
     (case fault of Some err \<Rightarrow> Inl (DBError err)
      | None \<Rightarrow> (case find P (ldPairs db) of None \<Rightarrow> Inl RecordNotFound | Some p \<Rightarrow> Inr (preload_assets db p)))"

definition pair_GetByID :: "string option \<Rightarrow> string \<Rightarrow> listing_db \<Rightarrow> handler_error + trading_pair" where
  "pair_GetByID fault i db = first_pair fault (\<lambda>p. tpID p = i) db"

definition GetBySymbol :: "string option \<Rightarrow> string \<Rightarrow> string \<Rightarrow> listing_db \<Rightarrow> handler_error + trading_pair" where
  "GetBySymbol fault baseAssetID quoteAssetID db =
     first_pair fault (\<lambda>p. tpBaseAssetID p = baseAssetID \<and> tpQuoteAssetID p = quoteAssetID) db"

definition active_pairs :: "listing_db \<Rightarrow> trading_pair list" where
  "active_pairs db = filter (\<lambda>p. tpStatus p = TradingPairStatusActive) (ldPairs db)"

definition GetActivePairs :: "string option \<Rightarrow> listing_db \<Rightarrow> handler_error + trading_pair list" where
  "GetActivePairs fault db =
     (case fault of Some err \<Rightarrow> Inl (DBError err) | None \<Rightarrow> Inr (map (preload_assets db) (active_pairs db)))"

definition GetActivePairsCount :: "string option \<Rightarrow> listing_db \<Rightarrow> handler_error + 32 word" where
  "GetActivePairsCount fault db =
     (case fault of Some err \<Rightarrow> Inl (DBError err) | None \<Rightarrow> Inr (of_nat (length (active_pairs db))))"

definition pair_UpdateStatus :: "string option \<Rightarrow> string \<Rightarrow> string \<Rightarrow> listing_db \<Rightarrow> handler_error option \<times> listing_db" where
  "pair_UpdateStatus fault i status db =
     (case fault of Some err \<Rightarrow> (Some (DBError err), db)
      | None \<Rightarrow> (None, db\<lparr>ldPairs := map (\<lambda>p. if tpID p = i then p\<lparr>tpStatus := status\<rparr> else p) (ldPairs db)\<rparr>))"

subsection \<open>The admin endpoint (asset.go)\<close>

datatype listing_error = BadAssetBody string | AssetCreateFailed handler_error

record 's listing_state =
  lsDb :: listing_db
  lsBroker :: 's

text \<open>The error of the count is dropped, that of the broker is only logged.\<close>

definition CreateAssetAdminOperationHandler ::
  "'s topic_admin \<Rightarrow> string + CreateAssetRequest \<Rightarrow> string option \<Rightarrow> string option \<Rightarrow> string \<Rightarrow> string \<Rightarrow> gctx \<Rightarrow> 's listing_state \<Rightarrow>
   (gctx \<times> listing_error option) option \<times> 's listing_state" where
  "CreateAssetAdminOperationHandler tm bound createFault countFault dup newID c st =
     (case bound of
        Inl err \<Rightarrow> (Some (respond InvalidRequestBody c, Some (BadAssetBody err)), st)
      | Inr req \<Rightarrow>
     (let asset = \<lparr> asID = [], asName = Some (caName req), asSymbol = Some (caSymbol req), asMaxSize = caMaxSize req,
            asNetworkAvailability = caNetworkAvailability req, asStatus = AssetStatusActive,
            asAddress = Some (caAssetAddress req), asNetwork = caNetwork req \<rparr>
      in case asset_Create createFault dup newID asset (lsDb st) of
        Inl err \<Rightarrow>
          if err = DuplicateKey
          then (Some (respond (Conflict ''asset with this address already exists'') c, Some (AssetCreateFailed err)), st)
          else (Some (respond (InternalServerError []) c, Some (AssetCreateFailed err)), st)
      | Inr (asset, db) \<Rightarrow>
          (let newPairCount = (case GetActivePairsCount countFault db of Inl _ \<Rightarrow> 0 | Inr n \<Rightarrow> n)
           in case OnNewPair tm newPairCount (lsBroker st) of
                (_, broker) \<Rightarrow>
                  (Some (respond \<lparr> anStatus = 201, anBody = AssetResponse (asID asset) (caName req) (caSymbol req)
                      (caAssetAddress req) (asNetwork asset) (asNetworkAvailability asset) (asMaxSize asset) (asStatus asset) \<rparr> c,
                    None), \<lparr> lsDb = db, lsBroker = broker \<rparr>))))"

definition asset_route ::
  "(string \<Rightarrow> string \<Rightarrow> string + (bool \<times> string option)) \<Rightarrow> string \<Rightarrow> string option \<Rightarrow> (string \<Rightarrow> string option) \<Rightarrow>
   user_db \<Rightarrow> (gctx \<Rightarrow> 's \<Rightarrow> (gctx \<times> 'e) option \<times> 's) \<Rightarrow> 's rest" where
  "asset_route jwtParse secret fault uuidParse udb handler =
     AuthMiddleware jwtParse secret (RequireRole fault uuidParse udb [RoleAdmin, RoleSystem] (apiPostHandler handler))"

subsection \<open>Tables\<close>

definition insert_asset :: "string \<times> string \<times> asset \<Rightarrow> listing_db \<Rightarrow> (asset \<times> listing_db) option" where
  "insert_asset args db =
     (case args of (dup, newID, a) \<Rightarrow> case asset_Create None dup newID a db of Inl _ \<Rightarrow> None | Inr r \<Rightarrow> Some r)"

definition insert_pair :: "string \<times> string \<times> string \<times> trading_pair \<Rightarrow> listing_db \<Rightarrow> (trading_pair \<times> listing_db) option" where
  "insert_pair args db =
     (case args of (dup, fk, newID, p) \<Rightarrow>
       case pair_Create None dup fk newID p db of
         (Some _, _) \<Rightarrow> None | (None, db') \<Rightarrow> Some (p\<lparr>tpID := (if tpID p = [] then newID else tpID p)\<rparr>, db'))"

interpretation asset_ids: unique_table ldAssets asID insert_asset
  by unfold_locales (auto simp: insert_asset_def asset_Create_def Let_def split: sum.splits if_splits prod.splits)

interpretation asset_addresses: unique_table ldAssets asAddress insert_asset
  by unfold_locales (auto simp: insert_asset_def asset_Create_def Let_def split: sum.splits if_splits prod.splits)

interpretation pair_ids: unique_table ldPairs tpID insert_pair
  by unfold_locales (auto simp: insert_pair_def pair_Create_def Let_def split: prod.splits if_splits)

subsection \<open>Lemmas\<close>

text \<open>A broker that already has a partition for each of \<open>n\<close> pairs in every order topic.\<close>

definition covers :: "'s topic_admin \<Rightarrow> nat \<Rightarrow> 's \<Rightarrow> bool" where
  "covers tm n s =
     (case taList tm CoinhubAllCurrentOrderTopics s of
        Inl _ \<Rightarrow> False
      | Inr ex \<Rightarrow> list_all (\<lambda>t. case ex t of None \<Rightarrow> False
          | Some d \<Rightarrow> tdErr d = None \<and> tdPartitions d < 2 ^ 31 \<and> n \<le> tdPartitions d) CoinhubAllCurrentOrderTopics)"

lemma OnNewPair_covered:
  assumes "covers tm n s"
  shows "snd (OnNewPair tm (of_nat n) s) = s"
proof -
  let ?ts = CoinhubAllCurrentOrderTopics
  obtain ex where ex: "taList tm ?ts s = Inr ex"
    and each: "\<And>t. t \<in> set ?ts \<Longrightarrow> \<exists>m. ex t = Some \<lparr> tdErr = None, tdPartitions = m \<rparr> \<and> m < 2 ^ 31 \<and> n \<le> m"
    using assms by (fastforce simp: covers_def list_all_iff split: sum.splits option.splits
        intro: topic_detail.equality)
  have "n < 2 ^ 31" using each [of "hd ?ts"] by (fastforce simp: CoinhubAllCurrentOrderTopics_def)
  then have n: "sint (of_nat n :: 32 word) = int n" by (rule sint_of_nat32)
  have "sync_plan ex (of_nat n) ts = ([], [])" if "set ts \<subseteq> set ?ts" for ts
    using that
  proof (induction ts)
    case (Cons t ts)
    then obtain m where "ex t = Some \<lparr> tdErr = None, tdPartitions = m \<rparr>" "m < 2 ^ 31" "n \<le> m" using each [of t] by auto
    then show ?case using Cons by (simp add: word_sless_alt n sint_of_nat32)
  qed simp
  then show ?thesis by (simp add: OnNewPair_def SyncPartitions_def ex)
qed

text \<open>What holds of the tables between operations: identifiers and addresses are unique, every asset has an address and a
  symbol, every pair is of two assets.\<close>

definition listing_ok :: "listing_db \<Rightarrow> bool" where
  "listing_ok db = (distinct (map asID (ldAssets db)) \<and> distinct (map asAddress (ldAssets db)) \<and>
     distinct (map tpID (ldPairs db)) \<and> list_all (\<lambda>a. asAddress a \<noteq> None \<and> asSymbol a \<noteq> None) (ldAssets db) \<and>
     list_all (\<lambda>p. tpBaseAssetID p \<in> asID ` set (ldAssets db) \<and> tpQuoteAssetID p \<in> asID ` set (ldAssets db)) (ldPairs db))"

lemma asset_Create_new:
  assumes "asset_Create fault dup newID a db = Inr (a', db')"
  shows "insert_asset (dup, newID, a) db = Some (a', db')" "asSymbol a' = asSymbol a" "asAddress a' = asAddress a"
    "asAddress a \<noteq> None" "ldAssets db' = ldAssets db @ [a']" "ldPairs db' = ldPairs db" "asStatus a' = asStatus a"
  using assms
  by (auto simp: insert_asset_def asset_Create_def Let_def asset_defaults_def split: option.splits if_splits)

lemma asset_Create_ok:
  assumes "asset_Create fault dup newID a db = Inr (a', db')" and "listing_ok db" and "asSymbol a \<noteq> None"
  shows "listing_ok db'"
proof -
  note new = asset_Create_new [OF assms(1)]
  show ?thesis
    using assms(2,3) asset_ids.distinct_ins [OF new(1)] asset_addresses.distinct_ins [OF new(1)] new(2-6)
    by (auto simp: listing_ok_def list_all_iff)
qed

lemma pair_Create_ok:
  assumes "pair_Create fault dup fk newID p db = (err, db')" and "listing_ok db"
  shows "listing_ok db'"
proof (cases err)
  case None
  then have "insert_pair (dup, fk, newID, p) db = Some (p\<lparr>tpID := (if tpID p = [] then newID else tpID p)\<rparr>, db')"
    using assms(1) by (auto simp: insert_pair_def pair_Create_def Let_def split: option.splits if_splits)
  note pair_ids.distinct_ins [OF this]
  then show ?thesis using assms None
    by (auto simp: listing_ok_def pair_Create_def Let_def list_all_iff split: option.splits if_splits)
qed (use assms in \<open>auto simp: pair_Create_def Let_def split: option.splits if_splits\<close>)

lemma UpdateStatus_ok:
  assumes "pair_UpdateStatus fault i status db = (err, db')" and "listing_ok db"
  shows "listing_ok db'"
proof -
  have "map tpID (map (\<lambda>p. if tpID p = i then p\<lparr>tpStatus := status\<rparr> else p) ps) = map tpID ps" for ps :: "trading_pair list"
    by (induction ps) auto
  then have "distinct (map tpID (ldPairs db')) = distinct (map tpID (ldPairs db))"
    using assms(1) by (auto simp: pair_UpdateStatus_def simp del: map_map split: option.splits)
  then show ?thesis using assms by (auto simp: pair_UpdateStatus_def listing_ok_def list_all_iff split: option.splits)
qed

text \<open>A request to the endpoint: what it leaves of the tables and the broker.\<close>

lemma CreateAsset_cases:
  assumes "CreateAssetAdminOperationHandler tm bound createFault countFault dup newID c st = (r, st')"
  obtains (refused) "st' = st" "r \<noteq> None" "\<And>c' e. r = Some (c', e) \<Longrightarrow> e \<noteq> None"
  | (added) req a where "bound = Inr req" "asSymbol a = Some (caSymbol req)" "asAddress a = Some (caAssetAddress req)"
      "asStatus a = AssetStatusActive" "Some (caAssetAddress req) \<notin> asAddress ` set (ldAssets (lsDb st))"
      "ldAssets (lsDb st') = ldAssets (lsDb st) @ [a]" "ldPairs (lsDb st') = ldPairs (lsDb st)"
      "lsBroker st' = snd (OnNewPair tm (case countFault of None \<Rightarrow> of_nat (length (active_pairs (lsDb st))) | Some _ \<Rightarrow> 0) (lsBroker st))"
      "listing_ok (lsDb st) \<Longrightarrow> listing_ok (lsDb st')" "\<And>c' e. r = Some (c', e) \<Longrightarrow> e = None"
proof (cases bound)
  case (Inl err)
  then show ?thesis using assms refused by (auto simp: CreateAssetAdminOperationHandler_def)
next
  case (Inr req)
  let ?a = "\<lparr> asID = [], asName = Some (caName req), asSymbol = Some (caSymbol req), asMaxSize = caMaxSize req,
            asNetworkAvailability = caNetworkAvailability req, asStatus = AssetStatusActive,
            asAddress = Some (caAssetAddress req), asNetwork = caNetwork req \<rparr>"
  show ?thesis
  proof (cases "asset_Create createFault dup newID ?a (lsDb st)")
    case (Inl err)
    then show ?thesis using assms Inr refused
      by (auto simp: CreateAssetAdminOperationHandler_def Let_def split: if_splits)
  next
    case (Inr adb)
    obtain a db where adb: "adb = (a, db)" by fastforce
    note cr = Inr [unfolded adb]
    note new = asset_Create_new [OF cr]
    have pairs: "active_pairs db = active_pairs (lsDb st)" by (simp add: active_pairs_def new(6))
    have st': "lsDb st' = db" "lsBroker st' = snd (OnNewPair tm (case countFault of None \<Rightarrow>
          of_nat (length (active_pairs (lsDb st))) | Some _ \<Rightarrow> 0) (lsBroker st))"
      and r: "\<And>c' e. r = Some (c', e) \<Longrightarrow> e = None"
      using assms \<open>bound = Inr req\<close> cr pairs
      by (auto simp: CreateAssetAdminOperationHandler_def Let_def GetActivePairsCount_def split: prod.splits option.splits)
    have fresh: "Some (caAssetAddress req) \<notin> asAddress ` set (ldAssets (lsDb st))"
      using asset_addresses.ins_new [OF new(1)] new(3) by simp
    show ?thesis
      using added [OF \<open>bound = Inr req\<close> _ _ _ fresh _ _ st'(2) _ r] new st'(1) asset_Create_ok [OF cr] by simp
  qed
qed

text \<open>The administration of the listings: requests to the endpoint, and the pair operations of the repository.\<close>

inductive listing_reach :: "'s topic_admin \<Rightarrow> 's listing_state \<Rightarrow> bool" for tm where
  init: "lsDb st = \<lparr> ldAssets = [], ldPairs = [] \<rparr> \<Longrightarrow> listing_reach tm st"
| asset: "listing_reach tm st \<Longrightarrow>
    CreateAssetAdminOperationHandler tm bound createFault countFault dup newID c st = (r, st') \<Longrightarrow> listing_reach tm st'"
| pair: "listing_reach tm st \<Longrightarrow> pair_Create fault dup fk newID p (lsDb st) = (err, db') \<Longrightarrow>
    listing_reach tm (st\<lparr>lsDb := db'\<rparr>)"
| status: "listing_reach tm st \<Longrightarrow> pair_UpdateStatus fault i status (lsDb st) = (err, db') \<Longrightarrow>
    listing_reach tm (st\<lparr>lsDb := db'\<rparr>)"

lemma listing_reach_ok: "listing_reach tm st \<Longrightarrow> listing_ok (lsDb st)"
proof (induction rule: listing_reach.induct)
  case (asset st bound createFault countFault dup newID c r st')
  from asset.hyps(2) show ?case by (cases rule: CreateAsset_cases) (use asset.IH in auto)
qed (simp_all add: listing_ok_def [of "\<lparr> ldAssets = [], ldPairs = [] \<rparr>"] pair_Create_ok UpdateStatus_ok)

lemma symbol_of_asset:
  assumes "listing_ok db" and "a \<in> set (ldAssets db)"
  shows "symbol_of db (asID a) = asSymbol a"
proof -
  have d: "distinct (map asID (ldAssets db))" using assms(1) by (simp add: listing_ok_def)
  obtain b where b: "find (\<lambda>x. asID x = asID a) (ldAssets db) = Some b"
    using assms(2) by (cases "find (\<lambda>x. asID x = asID a) (ldAssets db)") (auto simp: find_None)
  then have "b \<in> set (ldAssets db)" "asID b = asID a" by (auto simp: find_Some_iff)
  with d assms(2) have "b = a" by (auto simp: distinct_map dest: inj_onD)
  with b show ?thesis by (simp add: symbol_of_def)
qed

lemma active_pair_symbol:
  assumes "listing_ok db" and "p \<in> set (active_pairs db)"
  obtains b q where "tp_Symbol (preload_assets db p) = Some (b @ ''/'' @ q)"
    "tpBaseSymbol (preload_assets db p) = Some b" "tpQuoteSymbol (preload_assets db p) = Some q"
    "Some b \<in> asSymbol ` set (ldAssets db)" "Some q \<in> asSymbol ` set (ldAssets db)"
proof -
  have "p \<in> set (ldPairs db)" using assms(2) by (simp add: active_pairs_def)
  then obtain x y where xy: "x \<in> set (ldAssets db)" "y \<in> set (ldAssets db)" "tpBaseAssetID p = asID x" "tpQuoteAssetID p = asID y"
    using assms(1) by (auto simp: listing_ok_def list_all_iff)
  obtain b q where "asSymbol x = Some b" "asSymbol y = Some q"
    using assms(1) xy(1,2) by (fastforce simp: listing_ok_def list_all_iff)
  then show ?thesis using that xy symbol_of_asset [OF assms(1)]
    by (force simp: preload_assets_def tp_Symbol_def image_iff)
qed

subsection \<open>Properties\<close>

text \<open>C35: In every state the administration of the listings leads to, whatever fails on the way, no two assets share
  an identifier or a contract address, no two pairs an identifier, and every active pair reads back with the
  symbols of two listed assets, so that its symbol is never read through a nil pointer.\<close>

theorem listings_are_consistent:
  assumes "listing_reach tm st"
  shows "distinct (map asID (ldAssets (lsDb st))) \<and> distinct (map asAddress (ldAssets (lsDb st))) \<and>
    distinct (map tpID (ldPairs (lsDb st))) \<and>
    (\<exists>ps. GetActivePairs None (lsDb st) = Inr ps \<and>
       list_all (\<lambda>p. \<exists>b q. tp_Symbol p = Some (b @ ''/'' @ q) \<and> Some b \<in> asSymbol ` set (ldAssets (lsDb st)) \<and>
          Some q \<in> asSymbol ` set (ldAssets (lsDb st))) ps)"
proof -
  note ok = listing_reach_ok [OF assms]
  have "\<exists>b q. tp_Symbol (preload_assets (lsDb st) p) = Some (b @ ''/'' @ q) \<and>
      Some b \<in> asSymbol ` set (ldAssets (lsDb st)) \<and> Some q \<in> asSymbol ` set (ldAssets (lsDb st))"
    if "p \<in> set (active_pairs (lsDb st))" for p
    by (rule active_pair_symbol [OF ok that]) blast
  then show ?thesis using ok by (auto simp: listing_ok_def GetActivePairs_def list_all_iff)
qed

text \<open>A request, and the state before it: no rows, three partitions a topic.\<close>

definition sample_asset :: CreateAssetRequest where
  "sample_asset = \<lparr> caName = ''Bitcoin'', caSymbol = ''BTC'', caAssetAddress = ''0xbtc'', caNetwork = ''mainnet'',
     caNetworkAvailability = \<lparr> naSpotTestnet = True, naSpotMainnet = True, naPerpTestnet = False, naPerpMainnet = False \<rparr>,
     caMaxSize = 1 \<rparr>"

definition sample_listing :: "(string \<Rightarrow> nat option) listing_state" where
  "sample_listing = \<lparr> lsDb = \<lparr> ldAssets = [], ldPairs = [] \<rparr>, lsBroker = (\<lambda>_. Some 3) \<rparr>"

lemma sample_listed:
  obtains r st' where
    "CreateAssetAdminOperationHandler sample_admin (Inr sample_asset) None None ''dup'' ''a-1'' auth_ctx sample_listing = (r, st')"
    "map asSymbol (ldAssets (lsDb st')) = [Some ''BTC'']"
proof -
  obtain r st' where h:
    "CreateAssetAdminOperationHandler sample_admin (Inr sample_asset) None None ''dup'' ''a-1'' auth_ctx sample_listing = (r, st')"
    by fastforce
  then show ?thesis
    by (intro that [OF h]) (auto simp: CreateAssetAdminOperationHandler_def asset_Create_def asset_defaults_def Let_def
        sample_asset_def sample_listing_def split: prod.splits)
qed

theorem listings_are_consistent_witness:
  "\<exists>st'. map asSymbol (ldAssets (lsDb st')) = [Some ''BTC''] \<and> distinct (map asAddress (ldAssets (lsDb st'))) \<and>
     listing_reach sample_admin st'"
proof -
  obtain r st' where h:
    "CreateAssetAdminOperationHandler sample_admin (Inr sample_asset) None None ''dup'' ''a-1'' auth_ctx sample_listing = (r, st')"
    and s: "map asSymbol (ldAssets (lsDb st')) = [Some ''BTC'']" by (rule sample_listed)
  have "listing_reach sample_admin sample_listing" by (rule listing_reach.init) (simp add: sample_listing_def)
  from listing_reach.asset [OF this h] have reach: "listing_reach sample_admin st'" .
  show ?thesis
    by (rule exI [of _ st']) (use listings_are_consistent [OF reach] s reach in simp)
qed

text \<open>Adding an asset changes no topic: the endpoint passes on the number of active pairs, which an asset does not
  change, so a broker whose order topics already have a partition per active pair is left exactly as it was, in
  every outcome; what a request can change is one row, of an address that no asset had.\<close>

theorem adding_an_asset_leaves_the_broker:
  assumes "covers tm (length (active_pairs (lsDb st))) (lsBroker st)"
    and "CreateAssetAdminOperationHandler tm bound createFault countFault dup newID c st = (r, st')"
  shows "lsBroker st' = lsBroker st \<and> ldPairs (lsDb st') = ldPairs (lsDb st) \<and>
    (ldAssets (lsDb st') = ldAssets (lsDb st) \<or>
     (\<exists>a. ldAssets (lsDb st') = ldAssets (lsDb st) @ [a] \<and> asStatus a = AssetStatusActive \<and>
        asAddress a \<notin> asAddress ` set (ldAssets (lsDb st))))"
  using assms(2)
proof (cases rule: CreateAsset_cases)
  case (added req a)
  have "snd (OnNewPair tm 0 (lsBroker st)) = lsBroker st" by (simp add: OnNewPair_def SyncPartitions_def word_sle_eq)
  then have "lsBroker st' = lsBroker st"
    using added(8) OnNewPair_covered [OF assms(1)] by (simp split: option.splits)
  then show ?thesis using added by auto
qed simp

theorem adding_an_asset_leaves_the_broker_witness:
  "\<exists>r st'. CreateAssetAdminOperationHandler sample_admin (Inr sample_asset) None None ''dup'' ''a-1'' auth_ctx sample_listing =
     (r, st') \<and> map asSymbol (ldAssets (lsDb st')) = [Some ''BTC''] \<and> lsBroker st' = lsBroker sample_listing"
proof -
  obtain r st' where h:
    "CreateAssetAdminOperationHandler sample_admin (Inr sample_asset) None None ''dup'' ''a-1'' auth_ctx sample_listing = (r, st')"
    and s: "map asSymbol (ldAssets (lsDb st')) = [Some ''BTC'']" by (rule sample_listed)
  have "covers sample_admin (length (active_pairs (lsDb sample_listing))) (lsBroker sample_listing)"
    by (simp add: covers_def sample_admin_def sample_listing_def active_pairs_def list_all_iff)
  note adding_an_asset_leaves_the_broker [OF this h]
  then show ?thesis by (intro exI [of _ r] exI [of _ st']) (use h s in simp)
qed

end
