(* ===== verification/Order_Http.thy ===== *)
theory Order_Http
  imports Http_Security Order_Usecases
begin

text \<open>
  The order endpoints: \<^verbatim>\<open>internal/adapter/handler/http/order.go\<close> and their routes in router.go. The state of a request is
  what was published so far, the order tables and the engine. A handler gives the context and its error when
  it returns, \<open>None\<close> when it panics or does not return, and the state after it. \<open>bound\<close> is what \<^verbatim>\<open>ShouldBindJSON\<close>
  gives, \<open>dec\<close> is \<^verbatim>\<open>decimal.NewFromString\<close>, whose error the handlers drop, \<open>getPrice\<close> the price feed.
\<close>

record 'd order_state =
  osOut :: "'d effect list"
  osDb :: "'d order_db"
  osEngine :: "'d engine"

datatype http_error =
    BindFailed string | BadUserID | UserLookup handler_error | FeedFailed string | UseCaseFailed uc_error

type_synonym 'd handler_result = "(gctx \<times> http_error option) option \<times> 'd order_state"

text \<open>Who is calling: the user ID the token left on the context, parsed, and looked up. A missing ID is a
  failed type assertion; a failed look-up returns without an answer.\<close>

definition with_caller ::
  "string option \<Rightarrow> (string \<Rightarrow> string option) \<Rightarrow> user_db \<Rightarrow> gctx \<Rightarrow> 'd order_state \<Rightarrow>
   (user \<Rightarrow> 'd handler_result) \<Rightarrow> 'd handler_result" where
  "with_caller fault uuidParse udb c s k =
     (case gcKeys c ''userID'' of
        None \<Rightarrow> (None, s)
      | Some userID \<Rightarrow>
          (case uuidParse userID of
             None \<Rightarrow> (Some (respond (UnauthorizedStandard ''invalid user ID in token'') c, Some BadUserID), s)
           | Some parsedUserID \<Rightarrow>
               (case GetUserByID fault parsedUserID udb of
                  Inl err \<Rightarrow> (Some (c, Some (UserLookup err)), s)
                | Inr user \<Rightarrow> k user)))"

text \<open>The end of a handler: the use case's error is returned as it is, its success is answered.\<close>

definition finish_order ::
  "string \<Rightarrow> gctx \<Rightarrow> 'd order_state \<Rightarrow> 'd effect list \<times> 'd order_db \<times> (uc_error option \<times> 'd engine) option \<Rightarrow>
   'd handler_result" where
  "finish_order msg c s r =
     (case r of
        (out, db', None) \<Rightarrow> (None, s\<lparr>osOut := osOut s @ out, osDb := db'\<rparr>)
      | (out, db', Some (Some err, me')) \<Rightarrow>
          (Some (c, Some (UseCaseFailed err)), \<lparr> osOut = osOut s @ out, osDb = db', osEngine = me' \<rparr>)
      | (out, db', Some (None, me')) \<Rightarrow>
          (Some (respond (SuccessStandard (SuccessResponse True msg)) c, None),
           \<lparr> osOut = osOut s @ out, osDb = db', osEngine = me' \<rparr>))"

definition parsed_or_zero :: "(string \<Rightarrow> 'd::linordered_idom option) \<Rightarrow> string \<Rightarrow> 'd" where
  "parsed_or_zero dec s = (case dec s of None \<Rightarrow> 0 | Some d \<Rightarrow> d)"

definition PlaceLimitOrderHTTPHandler ::
  "string + PlaceOrderRequest \<Rightarrow> string option \<Rightarrow> (string \<Rightarrow> string option) \<Rightarrow> user_db \<Rightarrow>
   (string \<Rightarrow> 'd::linordered_idom option) \<Rightarrow> ('d order_event \<Rightarrow> kafka_error option option) \<Rightarrow>
   string option \<Rightarrow> handler_error option \<Rightarrow> string option \<Rightarrow> 'd env \<Rightarrow> nat \<Rightarrow> gctx \<Rightarrow> 'd order_state \<Rightarrow> 'd handler_result" where
  "PlaceLimitOrderHTTPHandler bound fault uuidParse udb dec pub createErr createNil commitErr e n c s =
     (case bound of
        Inl err \<Rightarrow> (Some (respond InvalidRequestBody c, Some (BindFailed err)), s)
      | Inr req \<Rightarrow>
          with_caller fault uuidParse udb c s (\<lambda>user.
            let priceInDecimal = parsed_or_zero dec (poPrice req);
                qtyInDecimal = parsed_or_zero dec (poQty req)
            in finish_order ''Limit order accepted'' c s
                 (uc_SubmitOrder pub createErr createNil commitErr e n (usID user) (poSymbol req) (poOrderType req)
                    (poSide req) priceInDecimal qtyInDecimal (poExpireAt req) (osEngine s) (osDb s))))"

text \<open>\<^verbatim>\<open>strings.SplitN(symbol, "-", 2)\<close>: the text before the first dash and all after it; without a dash there
  is no second part, and indexing it panics.\<close>

definition split_pair :: "string \<Rightarrow> (string \<times> string) option" where
  "split_pair s =
     (case dropWhile (\<lambda>c. c \<noteq> CHR ''-'') s of [] \<Rightarrow> None | _ # q \<Rightarrow> Some (takeWhile (\<lambda>c. c \<noteq> CHR ''-'') s, q))"

definition PlaceMarketOrderHTTPHandler ::
  "string + PlaceOrderRequest \<Rightarrow> string option \<Rightarrow> (string \<Rightarrow> string option) \<Rightarrow> user_db \<Rightarrow>
   (string \<Rightarrow> string \<Rightarrow> string + 'd) \<Rightarrow>
   (string \<Rightarrow> 'd::linordered_idom option) \<Rightarrow> ('d order_event \<Rightarrow> kafka_error option option) \<Rightarrow>
   string option \<Rightarrow> handler_error option \<Rightarrow> string option \<Rightarrow> 'd env \<Rightarrow> nat \<Rightarrow> gctx \<Rightarrow> 'd order_state \<Rightarrow> 'd handler_result" where
  "PlaceMarketOrderHTTPHandler bound fault uuidParse udb getPrice dec pub createErr createNil commitErr e n c s =
     (case bound of
        Inl err \<Rightarrow> (Some (respond InvalidRequestBody c, Some (BindFailed err)), s)
      | Inr req \<Rightarrow>
          with_caller fault uuidParse udb c s (\<lambda>user.
            case split_pair (poSymbol req) of
              None \<Rightarrow> (None, s)
            | Some (base, quote) \<Rightarrow>
                (case getPrice base quote of
                   Inl err \<Rightarrow>
                     (Some (respond (InternalServerErrorStandard ''price feed interrupted'') c, Some (FeedFailed err)), s)
                 | Inr marketPrice \<Rightarrow>
                     (let qtyInDecimal = parsed_or_zero dec (poQty req)
                      in finish_order ''Market order accepted'' c s
                           (uc_SubmitOrder pub createErr createNil commitErr e n (usID user) (poSymbol req)
                              ent_OrderTypeMarket (poSide req) marketPrice qtyInDecimal None (osEngine s) (osDb s))))))"

definition CancelOrderHTTPHandler ::
  "string + CancelOrderRequest \<Rightarrow> string option \<Rightarrow> (string \<Rightarrow> string option) \<Rightarrow> user_db \<Rightarrow>
   ('d::linordered_idom order_event \<Rightarrow> kafka_error option option) \<Rightarrow>
   string option \<Rightarrow> 'd env \<Rightarrow> nat \<Rightarrow> gctx \<Rightarrow> 'd order_state \<Rightarrow> 'd handler_result" where
  "CancelOrderHTTPHandler bound fault uuidParse udb pub commitErr e n c s =
     (case bound of
        Inl err \<Rightarrow> (Some (respond InvalidRequestBody c, Some (BindFailed err)), s)
      | Inr req \<Rightarrow>
          with_caller fault uuidParse udb c s (\<lambda>user.
            finish_order ''cancel order request sent'' c s
              (uc_CancelLimitOrder pub commitErr e n (usID user) (coSymbol req) ent_OrderTypeCancel (coSide req) 0 0
                 (osEngine s) (osDb s))))"

subsection \<open>Routes (router.go)\<close>

definition order_route ::
  "(string \<Rightarrow> string \<Rightarrow> string + (bool \<times> string option)) \<Rightarrow> string \<Rightarrow> string option \<Rightarrow> (string \<Rightarrow> string option) \<Rightarrow>
   user_db \<Rightarrow> (gctx \<Rightarrow> 'd order_state \<Rightarrow> 'd handler_result) \<Rightarrow> 'd order_state rest" where
  "order_route jwtParse secret fault uuidParse udb handler =
     AuthMiddleware jwtParse secret (RequireRole fault uuidParse udb [RoleUser] (apiPostHandler handler))"

subsection \<open>Lemmas\<close>

definition events_by :: "string \<Rightarrow> string \<Rightarrow> 'd effect list \<Rightarrow> bool" where
  "events_by userID pair out = list_all (\<lambda>ef. case ef of PublishOrderEvent ev \<Rightarrow> eUserID ev = userID \<and> ePair ev = pair | _ \<Rightarrow> False) out"

text \<open>What a handler does after it has bound its request: nothing, or what the caller's own use case does.\<close>

lemma with_caller_cases:
  obtains (answered) c' err where "with_caller fault uuidParse udb c s k = (Some (c', Some err), s)"
      "gcAnswer c' = gcAnswer c \<or> gcAnswer c' = Some (UnauthorizedStandard ''invalid user ID in token'')"
    | (panicked) "with_caller fault uuidParse udb c s k = (None, s)"
    | (caller) rawID userID user where "gcKeys c ''userID'' = Some rawID" "uuidParse rawID = Some userID"
      "GetUserByID fault userID udb = Inr user" "with_caller fault uuidParse udb c s k = k user"
proof -
  consider "gcKeys c ''userID'' = None" | r where "gcKeys c ''userID'' = Some r" "uuidParse r = None"
    | r i err where "gcKeys c ''userID'' = Some r" "uuidParse r = Some i" "GetUserByID fault i udb = Inl err"
    | r i u where "gcKeys c ''userID'' = Some r" "uuidParse r = Some i" "GetUserByID fault i udb = Inr u"
    by (metis not_Some_eq sum.exhaust)
  then show ?thesis
  proof cases
    case 1 then show ?thesis using panicked by (simp add: with_caller_def)
  next
    case 2 then show ?thesis using answered by (simp add: with_caller_def respond_def)
  next
    case 3 then show ?thesis using answered by (simp add: with_caller_def)
  next
    case 4 then show ?thesis using caller by (simp add: with_caller_def)
  qed
qed

lemma uc_CancelLimitOrder_result:
  assumes "uc_CancelLimitOrder pub commitErr e n userID pair orderType side price quantity me db = (out, db', res)"
  shows "db' = db \<and> (out = [] \<or> (\<exists>ev. out = [PublishOrderEvent ev] \<and> eUserID ev = userID \<and> ePair ev = pair))"
proof -
  define ok where "ok r \<longleftrightarrow> fst (snd r) = db \<and>
      (fst r = [] \<or> (\<exists>ev. fst r = [PublishOrderEvent ev] \<and> eUserID ev = userID \<and> ePair ev = pair))"
    for r :: "'a effect list \<times> 'a order_db \<times> (uc_error option \<times> 'a engine) option"
  have tx: "ok (WithinTransaction commitErr h db)" if "ok (h db)" for h
    using that by (auto simp: ok_def WithinTransaction_def split: prod.splits option.splits)
  obtain ot sd where ns: "normalizeOrder orderType side = (ot, sd)" by fastforce
  have "ok (out, db', res)"
    unfolding assms [symmetric] uc_CancelLimitOrder_def ns split
    by (rule tx) (auto simp: ok_def Let_def SubmitCancelOrder_def NewOrderEvent_def NewOrder_def split: option.splits)
  then show ?thesis by (simp add: ok_def)
qed

text \<open>What each handler leaves: the tables as they were, and at most one event, of the caller.\<close>

definition serves_caller ::
  "string option \<Rightarrow> (string \<Rightarrow> string option) \<Rightarrow> user_db \<Rightarrow> (gctx \<Rightarrow> 'd order_state \<Rightarrow> 'd handler_result) \<Rightarrow> bool" where
  "serves_caller fault uuidParse udb handler =
     (\<forall>c s r s'. handler c s = (r, s') \<longrightarrow> osDb s' = osDb s \<and>
        (osOut s' = osOut s \<or>
         (\<exists>rawID userID user ev. gcKeys c ''userID'' = Some rawID \<and> uuidParse rawID = Some userID \<and>
            GetUserByID fault userID udb = Inr user \<and> osOut s' = osOut s @ [PublishOrderEvent ev] \<and> eUserID ev = usID user)))"

lemma serves_callerI:
  assumes "\<And>c s. (\<exists>r. handler c s = (r, s)) \<or> (\<exists>k. handler c s = with_caller fault uuidParse udb c s k \<and>
      (\<forall>user r s'. k user = (r, s') \<longrightarrow> osDb s' = osDb s \<and>
        (osOut s' = osOut s \<or> (\<exists>ev. osOut s' = osOut s @ [PublishOrderEvent ev] \<and> eUserID ev = usID user))))"
  shows "serves_caller fault uuidParse udb handler"
proof -
  have "osDb s' = osDb s \<and> (osOut s' = osOut s \<or>
         (\<exists>rawID userID user ev. gcKeys c ''userID'' = Some rawID \<and> uuidParse rawID = Some userID \<and>
            GetUserByID fault userID udb = Inr user \<and> osOut s' = osOut s @ [PublishOrderEvent ev] \<and> eUserID ev = usID user))"
    if h: "handler c s = (r, s')" for c s r s'
  proof (rule disjE [OF assms [of c s]])
    assume "\<exists>r. handler c s = (r, s)"
    then show ?thesis using h by auto
  next
    assume "\<exists>k. handler c s = with_caller fault uuidParse udb c s k \<and>
      (\<forall>user r s'. k user = (r, s') \<longrightarrow> osDb s' = osDb s \<and>
        (osOut s' = osOut s \<or> (\<exists>ev. osOut s' = osOut s @ [PublishOrderEvent ev] \<and> eUserID ev = usID user)))"
    then obtain k where k: "handler c s = with_caller fault uuidParse udb c s k"
      and ok: "\<And>user r s'. k user = (r, s') \<Longrightarrow> osDb s' = osDb s \<and>
        (osOut s' = osOut s \<or> (\<exists>ev. osOut s' = osOut s @ [PublishOrderEvent ev] \<and> eUserID ev = usID user))" by blast
    show ?thesis
    proof (cases rule: with_caller_cases [of fault uuidParse udb c s k])
      case (caller rawID userID user)
      then have "k user = (r, s')" using h k by simp
      from ok [OF this] caller show ?thesis by blast
    qed (use h k in auto)
  qed
  then show ?thesis unfolding serves_caller_def by blast
qed

lemma finish_order_leaves:
  assumes "finish_order msg c s (out, db', res) = (r, s')"
  shows "osDb s' = db' \<and> osOut s' = osOut s @ out"
  using assms by (auto simp: finish_order_def split: option.splits prod.splits)

lemma finish_submit_leaves:
  assumes "finish_order msg c s (uc_SubmitOrder pub createErr createNil commitErr e n (usID user) pair orderType side price
     quantity expiresAt (osEngine s) (osDb s)) = (r, s')"
  shows "osDb s' = osDb s \<and> (osOut s' = osOut s \<or> (\<exists>ev. osOut s' = osOut s @ [PublishOrderEvent ev] \<and> eUserID ev = usID user))"
proof -
  obtain out db' res where u: "uc_SubmitOrder pub createErr createNil commitErr e n (usID user) pair orderType side price
     quantity expiresAt (osEngine s) (osDb s) = (out, db', res)" using prod_cases3 by blast
  show ?thesis using uc_SubmitOrder_result [OF u] finish_order_leaves [OF assms [unfolded u]] by auto
qed

lemma PlaceLimit_serves [intro]:
  "serves_caller fault uuidParse udb (PlaceLimitOrderHTTPHandler bound fault uuidParse udb dec pub createErr createNil commitErr e n)"
proof (rule serves_callerI, cases bound)
  case (Inr req)
  show "(\<exists>r. PlaceLimitOrderHTTPHandler bound fault uuidParse udb dec pub createErr createNil commitErr e n c s = (r, s)) \<or>
     (\<exists>k. PlaceLimitOrderHTTPHandler bound fault uuidParse udb dec pub createErr createNil commitErr e n c s =
        with_caller fault uuidParse udb c s k \<and> (\<forall>user r s'. k user = (r, s') \<longrightarrow> osDb s' = osDb s \<and>
        (osOut s' = osOut s \<or> (\<exists>ev. osOut s' = osOut s @ [PublishOrderEvent ev] \<and> eUserID ev = usID user))))" for c s
    unfolding PlaceLimitOrderHTTPHandler_def Inr sum.case Let_def
    by (rule disjI2, rule exI, rule conjI [OF refl]) (blast dest: finish_submit_leaves)
qed (simp add: PlaceLimitOrderHTTPHandler_def)

lemma PlaceMarket_serves [intro]:
  "serves_caller fault uuidParse udb
     (PlaceMarketOrderHTTPHandler bound fault uuidParse udb getPrice dec pub createErr createNil commitErr e n)"
proof (rule serves_callerI, cases bound)
  case (Inr req)
  show "(\<exists>r. PlaceMarketOrderHTTPHandler bound fault uuidParse udb getPrice dec pub createErr createNil commitErr e n c s = (r, s)) \<or>
     (\<exists>k. PlaceMarketOrderHTTPHandler bound fault uuidParse udb getPrice dec pub createErr createNil commitErr e n c s =
        with_caller fault uuidParse udb c s k \<and> (\<forall>user r s'. k user = (r, s') \<longrightarrow> osDb s' = osDb s \<and>
        (osOut s' = osOut s \<or> (\<exists>ev. osOut s' = osOut s @ [PublishOrderEvent ev] \<and> eUserID ev = usID user))))" for c s
    unfolding PlaceMarketOrderHTTPHandler_def Inr sum.case Let_def
    by (rule disjI2, rule exI, rule conjI [OF refl])
      (auto split: option.splits sum.splits prod.splits dest: finish_submit_leaves)
qed (simp add: PlaceMarketOrderHTTPHandler_def)

lemma CancelOrder_serves [intro]:
  "serves_caller fault uuidParse udb (CancelOrderHTTPHandler bound fault uuidParse udb pub commitErr e n)"
proof (rule serves_callerI, cases bound)
  case (Inr req)
  have fin: "osDb s' = osDb s \<and> (osOut s' = osOut s \<or> (\<exists>ev. osOut s' = osOut s @ [PublishOrderEvent ev] \<and> eUserID ev = usID user))"
    if f: "finish_order msg c s (uc_CancelLimitOrder pub commitErr e n (usID user) pair ot side 0 0 (osEngine s) (osDb s)) = (r, s')"
    for msg c s user pair ot side r s'
  proof -
    obtain out db' res where u: "uc_CancelLimitOrder pub commitErr e n (usID user) pair ot side 0 0 (osEngine s) (osDb s) =
      (out, db', res)" using prod_cases3 by blast
    show ?thesis using uc_CancelLimitOrder_result [OF u] finish_order_leaves [OF f [unfolded u]] by auto
  qed
  show "(\<exists>r. CancelOrderHTTPHandler bound fault uuidParse udb pub commitErr e n c s = (r, s)) \<or>
     (\<exists>k. CancelOrderHTTPHandler bound fault uuidParse udb pub commitErr e n c s =
        with_caller fault uuidParse udb c s k \<and> (\<forall>user r s'. k user = (r, s') \<longrightarrow> osDb s' = osDb s \<and>
        (osOut s' = osOut s \<or> (\<exists>ev. osOut s' = osOut s @ [PublishOrderEvent ev] \<and> eUserID ev = usID user))))" for c s
    unfolding CancelOrderHTTPHandler_def Inr sum.case
    by (rule disjI2, rule exI, rule conjI [OF refl]) (blast dest: fin)
qed (simp add: CancelOrderHTTPHandler_def)

subsection \<open>Properties\<close>

text \<open>C23: What an order endpoint publishes, it publishes for the owner of the token: whichever of the three
  endpoints is called, and whatever user the request's body names, at most one event is published, only for a
  valid token of an existing user with the role \<^verbatim>\<open>user\<close>, it carries that user's ID, and the order tables
  are as before.\<close>

theorem orders_are_published_for_the_token_owner:
  assumes "handler = PlaceLimitOrderHTTPHandler bound1 fault uuidParse udb dec pub createErr createNil commitErr e n \<or>
      handler = PlaceMarketOrderHTTPHandler bound2 fault uuidParse udb getPrice dec pub createErr createNil commitErr e n \<or>
      handler = CancelOrderHTTPHandler bound3 fault uuidParse udb pub commitErr e n"
    and "order_route jwtParse secret fault uuidParse udb handler c s = (r, s')"
  shows "osDb s' = osDb s \<and> (osOut s' = osOut s \<or>
     (\<exists>rawID userID user ev. jwtParse secret (strip_bearer (gcHeaders c ''Authorization'')) = Inr (True, Some rawID) \<and>
        uuidParse rawID = Some userID \<and> GetUserByID fault userID udb = Inr user \<and> roName (usRole user) = RoleUser \<and>
        osOut s' = osOut s @ [PublishOrderEvent ev] \<and> eUserID ev = usID user))"
proof -
  have serves: "serves_caller fault uuidParse udb handler" using assms(1) by auto
  show ?thesis
  proof (cases rule: protected_cases [of jwtParse secret c uuidParse fault udb "[RoleUser]" "apiPostHandler handler" s])
    case (ran rawID userID user)
    then obtain r1 where h: "handler (set_key ''userID'' rawID c) s = (r1, s')"
      using assms(2) by (auto simp: order_route_def apiPostHandler_def split: prod.splits)
    have "gcKeys (set_key ''userID'' rawID c) ''userID'' = Some rawID" by (simp add: set_key_def)
    then show ?thesis using serves [unfolded serves_caller_def, rule_format, OF h] ran by auto
  next
    case (refused a)
    then show ?thesis using assms(2) by (simp add: order_route_def)
  qed
qed

definition sample_user :: user where
  "sample_user = (NewUser ''Erin'' ''Doe'' ''erin'' ''erin@x.org'' ''hash'' GmailVerificationStatusPending StatusActive)
     \<lparr>usID := ''u-1'', usRoleID := 1\<rparr>"

definition sample_users :: user_db where
  "sample_users = \<lparr> udRoles = [\<lparr> roID = 1, roName = RoleUser \<rparr>], udUsers = [sample_user], udWallets = [] \<rparr>"

definition sample_jwt :: "string \<Rightarrow> string \<Rightarrow> string + (bool \<times> string option)" where
  "sample_jwt secret tok = (if tok = ''token'' then Inr (True, Some ''u-1'') else Inl ''bad'')"

definition order_ctx :: gctx where
  "order_ctx = \<lparr> gcHeaders = (\<lambda>k. if k = ''Authorization'' then ''Bearer token'' else []), gcKeys = (\<lambda>_. None),
     gcClientIP = ''9.9.9.9'', gcOut = [], gcAnswer = None \<rparr>"

definition idle :: "int order_state" where
  "idle = \<lparr> osOut = [], osDb = \<lparr> dbOrders = [], dbTrades = [], dbProcessed = [] \<rparr>,
     osEngine = \<lparr> meBooks = Map.empty, meRouter = None, meReaper = [] \<rparr> \<rparr>"

definition sample_cancel :: "gctx \<Rightarrow> int order_state \<Rightarrow> int handler_result" where
  "sample_cancel = CancelOrderHTTPHandler
     (Inr \<lparr> coOrderID = 7, coClientOrdID = [], coSymbol = ''BTC-USDT'', coSide = ''BUY'' \<rparr>)
     None Some sample_users (\<lambda>_. Some None) None sample_env 0"

theorem orders_are_published_for_the_token_owner_witness:
  "\<exists>ev. osOut (snd (order_route sample_jwt ''k'' None Some sample_users sample_cancel order_ctx idle)) = [PublishOrderEvent ev] \<and>
     eUserID ev = ''u-1''"
proof -
  obtain r s' where o1: "order_route sample_jwt ''k'' None Some sample_users sample_cancel order_ctx idle = (r, s')" by fastforce
  have "osOut (snd (order_route sample_jwt ''k'' None Some sample_users sample_cancel order_ctx idle)) \<noteq> []" by code_simp
  then have out: "osOut s' \<noteq> osOut idle" unfolding o1 by (simp add: idle_def)
  have u: "GetUserByID None ''u-1'' sample_users =
      Inr (sample_user\<lparr>usWallet := zero_wallet, usRole := \<lparr> roID = 1, roName = RoleUser \<rparr>\<rparr>)"
    by (simp add: GetUserByID_def first_user_def sample_users_def sample_user_def role_of_def wallet_of_def)
  have id: "usID sample_user = ''u-1''" by (simp add: sample_user_def)
  have j: "sample_jwt ''k'' (strip_bearer (gcHeaders order_ctx ''Authorization'')) = Inr (True, Some ''u-1'')" by code_simp
  from orders_are_published_for_the_token_owner [OF disjI2 [OF disjI2 [OF sample_cancel_def]] o1]
  obtain ev where "osOut s' = osOut idle @ [PublishOrderEvent ev]" "eUserID ev = ''u-1''"
    using out j u id by auto
  then show ?thesis unfolding o1 by (simp add: idle_def)
qed

text \<open>A placement that returns has placed nothing, and does not say so: when a limit or market order
  request returns at all, it returns an error with the state untouched; a request that could not be bound, a bad
  ID and a price feed failure are answered, but when the user look-up or the submission failed nothing is
  written, and the client reads an empty 200.\<close>

theorem order_placement_is_never_acknowledged:
  assumes "handler = PlaceLimitOrderHTTPHandler bound1 fault uuidParse udb dec pub createErr createNil commitErr e n \<or>
      handler = PlaceMarketOrderHTTPHandler bound2 fault uuidParse udb getPrice dec pub createErr createNil commitErr e n"
    and "handler c s = (Some (c', x), s')"
  shows "s' = s \<and> (\<exists>err. x = Some err \<and> gcAnswer c' = (case err of
       BindFailed _ \<Rightarrow> Some InvalidRequestBody
     | BadUserID \<Rightarrow> Some (UnauthorizedStandard ''invalid user ID in token'')
     | FeedFailed _ \<Rightarrow> Some (InternalServerErrorStandard ''price feed interrupted'')
     | UserLookup _ \<Rightarrow> gcAnswer c
     | UseCaseFailed _ \<Rightarrow> gcAnswer c))"
proof -
  define answered where "answered r \<longleftrightarrow> (\<forall>c' x s'. r = (Some (c', x), s') \<longrightarrow> s' = s \<and> (\<exists>err. x = Some err \<and> gcAnswer c' = (case err of
       BindFailed _ \<Rightarrow> Some InvalidRequestBody
     | BadUserID \<Rightarrow> Some (UnauthorizedStandard ''invalid user ID in token'')
     | FeedFailed _ \<Rightarrow> Some (InternalServerErrorStandard ''price feed interrupted'')
     | UserLookup _ \<Rightarrow> gcAnswer c
     | UseCaseFailed _ \<Rightarrow> gcAnswer c)))" for r :: "'a handler_result"
  have fin: "answered (finish_order msg c s (uc_SubmitOrder pub createErr createNil commitErr e n userID pair orderType side price
     quantity expiresAt (osEngine s) (osDb s)))" for msg userID pair orderType side price quantity expiresAt
  proof -
    obtain out db' res where u: "uc_SubmitOrder pub createErr createNil commitErr e n userID pair orderType side price
     quantity expiresAt (osEngine s) (osDb s) = (out, db', res)" using prod_cases3 by blast
    show ?thesis using uc_SubmitOrder_result [OF u] unfolding u by (auto simp: answered_def finish_order_def)
  qed
  have caller: "answered (with_caller fault uuidParse udb c s k)" if "\<And>u. answered (k u)" for k
    using that by (auto simp: with_caller_def answered_def respond_def split: option.split sum.split)
  have "answered (PlaceLimitOrderHTTPHandler bound1 fault uuidParse udb dec pub createErr createNil commitErr e n c s)"
  proof (cases bound1)
    case (Inr req)
    show ?thesis unfolding PlaceLimitOrderHTTPHandler_def Inr sum.case Let_def by (intro caller fin)
  qed (simp add: PlaceLimitOrderHTTPHandler_def answered_def respond_def)
  moreover have "answered (PlaceMarketOrderHTTPHandler bound2 fault uuidParse udb getPrice dec pub createErr createNil commitErr e n c s)"
  proof (cases bound2)
    case (Inr req)
    have "answered (None, s)" and "answered (Some (respond (InternalServerErrorStandard ''price feed interrupted'') c, Some (FeedFailed err)), s)"
      for err by (simp_all add: answered_def respond_def)
    then show ?thesis unfolding PlaceMarketOrderHTTPHandler_def Inr sum.case Let_def
      by (intro caller) (use fin in \<open>simp split: option.split sum.split prod.split\<close>)
  qed (simp add: PlaceMarketOrderHTTPHandler_def answered_def respond_def)
  ultimately have "answered (handler c s)" using assms(1) by auto
  then show ?thesis using assms(2) unfolding answered_def by blast
qed

definition sample_limit :: "gctx \<Rightarrow> int order_state \<Rightarrow> int handler_result" where
  "sample_limit = PlaceLimitOrderHTTPHandler
     (Inr \<lparr> poUserID = 0, poClientOrdID = [], poSymbol = ''BTCUSDT'', poSide = ''BUY'', poOrderType = ''LIMIT'', poPrice = ''10'',
        poStopPrice = [], poQty = ''2'', poTimeInForce = [], poExpireAt = None, poSource = [], poRequestID = [] \<rparr>)
     None Some sample_users (\<lambda>s. if s = ''10'' then Some 10 else None) (\<lambda>_. Some None) None None None sample_env 0"

theorem order_placement_is_never_acknowledged_witness:
  "\<exists>c' err. sample_limit (set_key ''userID'' ''u-1'' order_ctx) idle = (Some (c', Some err), idle) \<and> gcAnswer c' = None"
proof -
  have u: "GetUserByID None ''u-1'' sample_users =
      Inr (sample_user\<lparr>usWallet := zero_wallet, usRole := \<lparr> roID = 1, roName = RoleUser \<rparr>\<rparr>)"
    by (simp add: GetUserByID_def first_user_def sample_users_def sample_user_def role_of_def wallet_of_def)
  obtain c' err s' where r: "sample_limit (set_key ''userID'' ''u-1'' order_ctx) idle = (Some (c', Some (UseCaseFailed err)), s')"
    by (simp add: sample_limit_def PlaceLimitOrderHTTPHandler_def with_caller_def set_key_def u Let_def finish_order_def
        uc_SubmitOrder_def normalizeOrder_def WithinTransaction_def contains_char_def)
  have "gcAnswer (set_key ''userID'' ''u-1'' order_ctx) = None" by (simp add: set_key_def order_ctx_def)
  with order_placement_is_never_acknowledged [OF disjI1 [OF sample_limit_def] r] r show ?thesis by auto
qed

end
