(* ===== verification/Price_Feed.thy ===== *)
theory Price_Feed
  imports Order_Http Listing_Entities
begin

text \<open>
  The price a market order is sent with: \<^verbatim>\<open>internal/infrastructure/market\<close> (pricefeed.go, coingecko.go). The record
  \<open>market_env\<close> holds what the feed calls outside: parsing and printing a URL, escaping a query value, making and sending a
  request with the decoded body it gets, and the decimal of a \<^verbatim>\<open>float64\<close>.
\<close>

datatype feed_error =
    UnsupportedBase string | UnsupportedQuote string | BuildFailed string | RequestInvalid string
  | RequestFailed string | BadStatus int string | DecodeFailed string | PriceMissing string string

record url =
  urlOrigin :: string
  urlPath :: string
  urlRawQuery :: string

record http_reply =
  hrStatus :: int
  hrBody :: "string + (string \<Rightarrow> (string \<Rightarrow> float64 option) option)"

record 'd market_env =
  mkParseURL :: "string \<Rightarrow> string + url"
  mkURLString :: "url \<Rightarrow> string"
  mkQueryEscape :: "string \<Rightarrow> string"
  mkRequestError :: "string \<Rightarrow> string option"
  mkDo :: "string \<Rightarrow> string + http_reply"
  mkFromFloat :: "float64 \<Rightarrow> 'd"

subsection \<open>CoinGecko (coingecko.go)\<close>

definition trim_right :: "char \<Rightarrow> string \<Rightarrow> string" where
  "trim_right c s = rev (dropWhile (\<lambda>x. x = c) (rev s))"

text \<open>\<^verbatim>\<open>path.Join\<close>: the non-empty elements with slashes between, cleaned of empty and dot components.\<close>

fun clean_parts :: "bool \<Rightarrow> string list \<Rightarrow> string list \<Rightarrow> string list" where
  "clean_parts rooted acc [] = rev acc"
| "clean_parts rooted acc (p # ps) =
     (if p = [] \<or> p = ''.'' then clean_parts rooted acc ps
      else if p = ''..'' then
        (case acc of
           [] \<Rightarrow> if rooted then clean_parts rooted [] ps else clean_parts rooted [''..''] ps
         | q # qs \<Rightarrow> if q = ''..'' then clean_parts rooted (''..'' # acc) ps else clean_parts rooted qs ps)
      else clean_parts rooted (p # acc) ps)"

fun join_with :: "string \<Rightarrow> string list \<Rightarrow> string" where
  "join_with sep [] = []"
| "join_with sep [x] = x"
| "join_with sep (x # y # xs) = x @ sep @ join_with sep (y # xs)"

definition path_join :: "string list \<Rightarrow> string" where
  "path_join elems =
     (let es = filter (\<lambda>e. e \<noteq> []) elems
      in if es = [] then []
         else
           let p = join_with ''/'' es; rooted = (hd p = CHR ''/'');
               out = join_with ''/'' (clean_parts rooted [] (split_on CHR ''/'' p))
           in if rooted then CHR ''/'' # out else if out = [] then ''.'' else out)"

text \<open>\<^verbatim>\<open>Values.Encode\<close> writes the parameters in the order of their names, which is the order they are set in.\<close>

definition buildCoinGeckoURL :: "'d market_env \<Rightarrow> string \<Rightarrow> string \<Rightarrow> string \<Rightarrow> string \<Rightarrow> string + string" where
  "buildCoinGeckoURL M baseURL apiKey i vs =
     (case mkParseURL M baseURL of
        Inl err \<Rightarrow> Inl err
      | Inr parsed \<Rightarrow>
          (let q = [''ids='' @ mkQueryEscape M i, ''vs_currencies='' @ mkQueryEscape M vs] @
                   (if apiKey \<noteq> [] then [''x_cg_demo_api_key='' @ mkQueryEscape M apiKey] else [])
           in Inr (mkURLString M (parsed\<lparr>urlPath := path_join [urlPath parsed, ''simple'', ''price''],
                urlRawQuery := join_with ''&'' q\<rparr>))))"

definition coingeckoIDForSymbol :: "string \<Rightarrow> string" where
  "coingeckoIDForSymbol symb =
     (let s = to_upper (trim_space symb)
      in if s = ''BTC'' then ''bitcoin'' else if s = ''ETH'' then ''ethereum'' else if s = ''USDT'' then ''tether''
         else if s = ''USDC'' then ''usd-coin'' else if s = ''BNB'' then ''binancecoin'' else if s = ''SOL'' then ''solana''
         else [])"

definition coingeckoVsCurrencyForSymbol :: "string \<Rightarrow> string" where
  "coingeckoVsCurrencyForSymbol symb =
     (let s = to_upper (trim_space symb)
      in if s \<in> {''USD'', ''USDT'', ''USDC''} then ''usd'' else if s = ''EUR'' then ''eur'' else if s = ''GBP'' then ''gbp''
         else [])"

datatype price_feed = CoinGeckoPriceFeed string string | NoopPriceFeed

definition NewCoinGeckoPriceFeed :: "string \<Rightarrow> string \<Rightarrow> price_feed" where
  "NewCoinGeckoPriceFeed baseURL apiKey = CoinGeckoPriceFeed (trim_right CHR ''/'' (trim_space baseURL)) apiKey"

definition cg_GetPrice :: "'d market_env \<Rightarrow> string \<Rightarrow> string \<Rightarrow> string \<Rightarrow> string \<Rightarrow> feed_error + 'd" where
  "cg_GetPrice M baseURL apiKey baseSym quoteSym =
     (let i = coingeckoIDForSymbol baseSym; vs = coingeckoVsCurrencyForSymbol quoteSym
      in if i = [] then Inl (UnsupportedBase baseSym)
         else if vs = [] then Inl (UnsupportedQuote quoteSym)
         else case buildCoinGeckoURL M baseURL apiKey i vs of
           Inl err \<Rightarrow> Inl (BuildFailed err)
         | Inr u \<Rightarrow>
             (case mkRequestError M u of
                Some err \<Rightarrow> Inl (RequestInvalid err)
              | None \<Rightarrow>
                  (case mkDo M u of
                     Inl err \<Rightarrow> Inl (RequestFailed err)
                   | Inr resp \<Rightarrow>
                       if hrStatus resp < 200 \<or> hrStatus resp \<ge> 300 then Inl (BadStatus (hrStatus resp) u)
                       else case hrBody resp of
                         Inl err \<Rightarrow> Inl (DecodeFailed err)
                       | Inr payload \<Rightarrow>
                           (case (case payload i of None \<Rightarrow> None | Some m \<Rightarrow> m vs) of
                              None \<Rightarrow> Inl (PriceMissing i vs)
                            | Some price \<Rightarrow> Inr (mkFromFloat M price)))))"

subsection \<open>The feed (pricefeed.go)\<close>

definition NewPriceFeed :: "string \<Rightarrow> string \<Rightarrow> string \<Rightarrow> price_feed" where
  "NewPriceFeed providerName baseURL apiKey =
     (if to_lower (trim_space providerName) = ''coingecko'' then NewCoinGeckoPriceFeed baseURL apiKey else NoopPriceFeed)"

definition noop_GetPrice :: "string \<Rightarrow> string \<Rightarrow> feed_error + 'd::linordered_idom" where
  "noop_GetPrice baseSym quoteSym = Inr 0"

definition GetPrice :: "'d::linordered_idom market_env \<Rightarrow> price_feed \<Rightarrow> string \<Rightarrow> string \<Rightarrow> feed_error + 'd" where
  "GetPrice M feed baseSym quoteSym =
     (case feed of
        CoinGeckoPriceFeed baseURL apiKey \<Rightarrow> cg_GetPrice M baseURL apiKey baseSym quoteSym
      | NoopPriceFeed \<Rightarrow> noop_GetPrice baseSym quoteSym)"

text \<open>As the market endpoint calls it, with the text of an error.\<close>

definition feed_price ::
  "(feed_error \<Rightarrow> string) \<Rightarrow> 'd::linordered_idom market_env \<Rightarrow> price_feed \<Rightarrow> string \<Rightarrow> string \<Rightarrow> string + 'd" where
  "feed_price errText M feed baseSym quoteSym =
     (case GetPrice M feed baseSym quoteSym of Inl err \<Rightarrow> Inl (errText err) | Inr p \<Rightarrow> Inr p)"

subsection \<open>Lemmas\<close>

text \<open>A market order's event has the price the feed gave for its two assets, and the side of the request.\<close>

lemma PlaceMarket_event:
  assumes "PlaceMarketOrderHTTPHandler bound fault uuidParse udb getPrice dec pub createErr createNil commitErr e n c s = (r, s')"
    and "osOut s' = osOut s @ [PublishOrderEvent ev]"
  obtains req base quote where "bound = Inr req" "split_pair (poSymbol req) = Some (base, quote)"
    "getPrice base quote = Inr (ePrice ev)" "eSide ev = to_lower (poSide req)"
proof (cases bound)
  case (Inl err)
  then show ?thesis using assms by (simp add: PlaceMarketOrderHTTPHandler_def)
next
  case (Inr req)
  let ?k = "\<lambda>user. case split_pair (poSymbol req) of
      None \<Rightarrow> (None, s)
    | Some (base, quote) \<Rightarrow>
        (case getPrice base quote of
           Inl err \<Rightarrow> (Some (respond (InternalServerErrorStandard ''price feed interrupted'') c, Some (FeedFailed err)), s)
         | Inr marketPrice \<Rightarrow>
             (let qtyInDecimal = parsed_or_zero dec (poQty req)
              in finish_order ''Market order accepted'' c s
                   (uc_SubmitOrder pub createErr createNil commitErr e n (usID user) (poSymbol req)
                      ent_OrderTypeMarket (poSide req) marketPrice qtyInDecimal None (osEngine s) (osDb s))))"
  note run = assms(1) [unfolded PlaceMarketOrderHTTPHandler_def Inr sum.case]
  show ?thesis
  proof (cases rule: with_caller_cases [of fault uuidParse udb c s ?k])
    case (caller rawID userID user)
    show ?thesis
    proof (cases "split_pair (poSymbol req)")
      case None
      then show ?thesis using run caller assms(2) by simp
    next
      case (Some bq)
      obtain base quote where bq: "bq = (base, quote)" by fastforce
      show ?thesis
      proof (cases "getPrice base quote")
        case (Inl err)
        then show ?thesis using run caller Some bq assms(2) by simp
      next
        case (Inr p)
        obtain out db' res where u: "uc_SubmitOrder pub createErr createNil commitErr e n (usID user) (poSymbol req)
            ent_OrderTypeMarket (poSide req) p (parsed_or_zero dec (poQty req)) None (osEngine s) (osDb s) = (out, db', res)"
          using prod_cases3 by blast
        have "osOut s' = osOut s @ out"
          using run caller Some bq Inr u
          by (simp add: finish_order_def Let_def split: option.splits prod.splits)
        then have "out = [PublishOrderEvent ev]" using assms(2) by simp
        then have "ePrice ev = p" "eSide ev = to_lower (poSide req)" using uc_SubmitOrder_result [OF u] by auto
        then show ?thesis using that \<open>bound = Inr req\<close> Some bq Inr by blast
      qed
    qed
  qed (use run assms(2) in auto)
qed

subsection \<open>Properties\<close>

text \<open>Without a price provider a market order carries the price zero into the engine, where it is a limit: whatever
  book it meets, a buy so sent trades only with sells that ask for nothing, and a sell with any bid.\<close>

theorem unpriced_market_orders_trade_at_zero:
  assumes "PlaceMarketOrderHTTPHandler bound fault uuidParse udb (feed_price errText M (NewPriceFeed provider baseURL apiKey))
      dec pub createErr createNil commitErr e n c s = (r, s')"
    and "to_lower (trim_space provider) \<noteq> ''coingecko''"
    and "osOut s' = osOut s @ [PublishOrderEvent ev]"
    and "market_ready ob (order_of_event e m ev)"
    and "t \<in> set (trades_of (snd (snd (MatchMarket e k ob (order_of_event e m ev)))))"
  shows "ePrice ev = 0 \<and> (if eSide ev = SideBuy then tPrice t \<le> 0 else 0 \<le> tPrice t)"
proof -
  have feed: "feed_price errText M (NewPriceFeed provider baseURL apiKey) base quote = Inr 0" for base quote
    using assms(2) by (simp add: feed_price_def GetPrice_def NewPriceFeed_def noop_GetPrice_def)
  have zero: "ePrice ev = 0"
    using PlaceMarket_event [OF assms(1,3)] unfolding feed by auto
  have "oPrice (order_of_event e m ev) = 0" "oSide (order_of_event e m ev) = eSide ev"
    by (simp_all add: order_of_event_fields zero)
  then show ?thesis using market_trade_price [OF assms(4,5)] zero by (auto split: if_splits)
qed

text \<open>A market sell of two, by a user the tables know, with no provider configured.\<close>

definition sample_market_req :: PlaceOrderRequest where
  "sample_market_req = \<lparr> poUserID = 0, poClientOrdID = [], poSymbol = ''BTC-USDT'', poSide = ''SELL'', poOrderType = ''MARKET'',
     poPrice = [], poStopPrice = [], poQty = ''2'', poTimeInForce = [], poExpireAt = None, poSource = [], poRequestID = [] \<rparr>"

definition sample_market_env :: "int market_env" where
  "sample_market_env = \<lparr> mkParseURL = (\<lambda>s. Inl s), mkURLString = (\<lambda>_. []), mkQueryEscape = (\<lambda>s. s),
     mkRequestError = (\<lambda>_. None), mkDo = (\<lambda>s. Inl s), mkFromFloat = (\<lambda>_. 1) \<rparr>"

definition sample_market_event :: "int order_event" where
  "sample_market_event = NewOrderEvent sample_env 2 (uuid sample_env 0) ''u-1'' ''BTC-USDT'' ''market'' kafka_StatusOpen
     EventOrderSubmitted ''sell'' 0 2 0 2 OrderBehaviorGTC (RestingOrderExpiresAt None (clock sample_env 1))"

lemma sample_market_published:
  "PlaceMarketOrderHTTPHandler (Inr sample_market_req) None Some sample_users
     (feed_price (\<lambda>_. []) sample_market_env (NewPriceFeed [] [] [])) (\<lambda>s. if s = ''2'' then Some 2 else None)
     (\<lambda>_. Some None) None None None sample_env 0 (set_key ''userID'' ''u-1'' order_ctx) idle =
   (None, idle\<lparr>osOut := osOut idle @ [PublishOrderEvent sample_market_event]\<rparr>)"
proof -
  have u: "GetUserByID None ''u-1'' sample_users =
      Inr (sample_user\<lparr>usWallet := zero_wallet, usRole := \<lparr> roID = 1, roName = RoleUser \<rparr>\<rparr>)"
    by (simp add: GetUserByID_def first_user_def sample_users_def sample_user_def role_of_def wallet_of_def)
  have f: "feed_price (\<lambda>_. []) sample_market_env (NewPriceFeed [] [] []) b q = Inr 0" for b q
    by (simp add: feed_price_def GetPrice_def NewPriceFeed_def noop_GetPrice_def to_lower_def trim_space_def)
  have low: "to_lower ''market'' = ''market''" "to_lower ''SELL'' = ''sell''" "split_pair ''BTC-USDT'' = Some (''BTC'', ''USDT'')"
    "parsed_or_zero (\<lambda>s. if s = ''2'' then Some (2 :: int) else None) ''2'' = 2"
    by code_simp+
  have "uc_SubmitOrder (\<lambda>_. Some None) None None None sample_env 0 ''u-1'' ''BTC-USDT'' ent_OrderTypeMarket ''SELL'' 0 2 None
      (osEngine idle) (osDb idle) = ([PublishOrderEvent sample_market_event], osDb idle, None)"
    by (simp add: uc_SubmitOrder_def normalizeOrder_def low WithinTransaction_def contains_char_def ent_NewOrder_def
        validateNewOrderInputs_def CreateOrder_def ent_BeforeCreate_def Let_def idle_def NewOrder_def SubmitOrder_def
        heap_calls_None sample_market_event_def Remaining_def flip: numeral_2_eq_2)
  then show ?thesis
    by (simp add: PlaceMarketOrderHTTPHandler_def sample_market_req_def with_caller_def set_key_def u f low finish_order_def
        sample_user_def idle_def Let_def)
qed

theorem unpriced_market_orders_trade_at_zero_witness:
  "ePrice sample_market_event = 0 \<and>
   (\<exists>t \<in> set (trades_of (snd (snd (MatchMarket sample_env 0 sample_book (order_of_event sample_env 5 sample_market_event))))).
      0 \<le> tPrice t)"
proof -
  let ?ts = "\<lambda>i. trades_of (snd (snd (MatchMarket sample_env 0 sample_book i)))"
  let ?i = "order_of_event sample_env 5 sample_market_event"
  have ne: "?ts ?i \<noteq> []" and side: "eSide sample_market_event \<noteq> SideBuy" by code_simp+
  have ready: "market_ready sample_book ?i" by code_simp
  have p: "to_lower (trim_space []) \<noteq> ''coingecko''" by (simp add: to_lower_def trim_space_def)
  have "hd (?ts ?i) \<in> set (?ts ?i)" using ne by (rule hd_in_set)
  note unpriced_market_orders_trade_at_zero [OF sample_market_published p _ ready this]
  then show ?thesis using side \<open>hd (?ts ?i) \<in> set (?ts ?i)\<close> by (auto simp: idle_def)
qed

end
