(* ===== verification/Ws_Hub.thy ===== *)
theory Ws_Hub
  imports Prelude "HOL-Library.AList"
begin

text \<open>
  \<^verbatim>\<open>internal/adapter/handler/websockets\<close>: hub.go and message.go. A Go map is an association list with
  distinct keys (the code depends on no iteration order); clients are shared by pointer between the hub's
  maps, so they live in a store. Every method runs under the hub's mutex and is one operation here; what a
  broadcast sends is a list of deliveries. \<^verbatim>\<open>hbActive\<close> is the gauge of active connections.
\<close>

subsection \<open>Messages\<close>

definition TypeJoin :: string where [go_enum]: "TypeJoin = ''join''"
definition TypeLeave :: string where [go_enum]: "TypeLeave = ''leave''"
definition TypeEvent :: string where [go_enum]: "TypeEvent = ''event''"
definition TypePing :: string where [go_enum]: "TypePing = ''ping''"
definition TypePong :: string where [go_enum]: "TypePong = ''pong''"
definition TypeError :: string where [go_enum]: "TypeError = ''error''"

record 'p message =
  msType :: string
  msRoom :: string
  msEvent :: string
  msPayload :: "'p option"
  msError :: string

definition NewMessage :: "string \<Rightarrow> string \<Rightarrow> 'p option \<Rightarrow> 'p message" where
  "NewMessage msgType event payload =
     \<lparr> msType = msgType, msRoom = [], msEvent = event, msPayload = payload, msError = [] \<rparr>"

subsection \<open>State\<close>

record client =
  clID :: string
  clUserID :: string
  clRooms :: "(string \<times> bool) list"

record hub =
  hbStore :: "nat \<Rightarrow> client"
  hbClients :: "(string \<times> nat) list"
  hbRooms :: "(string \<times> (string \<times> nat) list) list"
  hbPresence :: "(string \<times> (string \<times> bool) list) list"
  hbActive :: int

definition NewClient :: "string \<Rightarrow> string \<Rightarrow> client" where
  "NewClient connID userID = \<lparr> clID = connID, clUserID = userID, clRooms = [] \<rparr>"

definition New :: "(nat \<Rightarrow> client) \<Rightarrow> hub" where
  "New store = \<lparr> hbStore = store, hbClients = [], hbRooms = [], hbPresence = [], hbActive = 0 \<rparr>"

text \<open>
  A map of maps: reading an absent key gives the nil map, which reads as empty; an entry is added, and one
  is deleted together with its inner map once that is empty.
\<close>

definition inner :: "(string \<times> (string \<times> 'v) list) list \<Rightarrow> string \<Rightarrow> (string \<times> 'v) list" where
  "inner mm a = (case map_of mm a of None \<Rightarrow> [] | Some m \<Rightarrow> m)"

definition add_entry ::
  "string \<Rightarrow> string \<Rightarrow> 'v \<Rightarrow> (string \<times> (string \<times> 'v) list) list \<Rightarrow> (string \<times> (string \<times> 'v) list) list" where
  "add_entry a i v mm = AList.update a (AList.update i v (inner mm a)) mm"

definition drop_entry ::
  "string \<Rightarrow> string \<Rightarrow> (string \<times> (string \<times> 'v) list) list \<Rightarrow> (string \<times> (string \<times> 'v) list) list" where
  "drop_entry a i mm =
     (let m = AList.delete i (inner mm a)
      in if length m = 0 then AList.delete a mm else AList.update a m mm)"

subsection \<open>Operations\<close>

definition Register :: "nat \<Rightarrow> hub \<Rightarrow> hub" where
  "Register c h = h\<lparr>hbClients := AList.update (clID (hbStore h c)) c (hbClients h),
     hbPresence := add_entry (clUserID (hbStore h c)) (clID (hbStore h c)) True (hbPresence h),
     hbActive := hbActive h + 1\<rparr>"

definition Unregister :: "string \<Rightarrow> hub \<Rightarrow> hub" where
  "Unregister connID h =
     (case map_of (hbClients h) connID of
        None \<Rightarrow> h
      | Some c \<Rightarrow> h\<lparr>hbRooms := fold (\<lambda>(room, _). drop_entry room connID) (clRooms (hbStore h c)) (hbRooms h),
          hbPresence := drop_entry (clUserID (hbStore h c)) connID (hbPresence h),
          hbClients := AList.delete connID (hbClients h),
          hbActive := hbActive h - 1\<rparr>)"

definition Join :: "string \<Rightarrow> string \<Rightarrow> hub \<Rightarrow> hub" where
  "Join connID room h =
     (case map_of (hbClients h) connID of
        None \<Rightarrow> h
      | Some c \<Rightarrow> h\<lparr>hbRooms := add_entry room connID c (hbRooms h),
          hbStore := (hbStore h)(c := (hbStore h c)\<lparr>clRooms := AList.update room True (clRooms (hbStore h c))\<rparr>)\<rparr>)"

definition Leave :: "string \<Rightarrow> string \<Rightarrow> hub \<Rightarrow> hub" where
  "Leave connID room h =
     (case map_of (hbClients h) connID of
        None \<Rightarrow> h
      | Some c \<Rightarrow> h\<lparr>hbRooms := drop_entry room connID (hbRooms h),
          hbStore := (hbStore h)(c := (hbStore h c)\<lparr>clRooms := AList.delete room (clRooms (hbStore h c))\<rparr>)\<rparr>)"

text \<open>The deliveries of a broadcast: the client and the message it is sent.\<close>

definition BroadcastRoom :: "string \<Rightarrow> 'p message \<Rightarrow> hub \<Rightarrow> (nat \<times> 'p message) list" where
  "BroadcastRoom room msg h = map (\<lambda>(_, c). (c, msg)) (inner (hbRooms h) room)"

definition BroadcastUser :: "string \<Rightarrow> 'p message \<Rightarrow> hub \<Rightarrow> (nat \<times> 'p message) list" where
  "BroadcastUser userID msg h =
     concat (map (\<lambda>(i, _). case map_of (hbClients h) i of None \<Rightarrow> [] | Some c \<Rightarrow> [(c, msg)])
       (inner (hbPresence h) userID))"

definition IsOnline :: "string \<Rightarrow> hub \<Rightarrow> bool" where
  "IsOnline userID h = (length (inner (hbPresence h) userID) > 0)"

definition Stats :: "hub \<Rightarrow> (string \<times> nat) list" where
  "Stats h = [(''connections'', length (hbClients h)), (''rooms'', length (hbRooms h)),
     (''online_users'', length (hbPresence h))]"

subsection \<open>Maps of maps\<close>

definition entry :: "(string \<times> (string \<times> 'v) list) list \<Rightarrow> string \<Rightarrow> string \<Rightarrow> 'v option" where
  "entry mm a i = map_of (inner mm a) i"

definition nested_ok :: "(string \<times> (string \<times> 'v) list) list \<Rightarrow> bool" where
  "nested_ok mm = (distinct (map fst mm) \<and> (\<forall>a m. map_of mm a = Some m \<longrightarrow> m \<noteq> [] \<and> distinct (map fst m)))"

lemma inner_add [simp]: "inner (add_entry a i v mm) b = (if b = a then AList.update i v (inner mm a) else inner mm b)"
  unfolding inner_def add_entry_def by (simp add: update_conv')

lemma inner_drop [simp]: "inner (drop_entry a i mm) b = (if b = a then AList.delete i (inner mm a) else inner mm b)"
  unfolding inner_def drop_entry_def by (simp add: Let_def update_conv' delete_conv')

lemma entry_add [simp]: "entry (add_entry a i v mm) b j = (if b = a \<and> j = i then Some v else entry mm b j)"
  by (simp add: entry_def update_conv')

lemma entry_drop [simp]: "entry (drop_entry a i mm) b j = (if b = a \<and> j = i then None else entry mm b j)"
  by (simp add: entry_def delete_conv')

lemma inner_distinct: "nested_ok mm \<Longrightarrow> distinct (map fst (inner mm a))"
  by (auto simp: inner_def nested_ok_def split: option.split)

lemma update_not_Nil: "AList.update i v m \<noteq> []"
  by (cases m) (auto split: if_splits)

lemma nested_add: "nested_ok mm \<Longrightarrow> nested_ok (add_entry a i v mm)"
  using inner_distinct [of mm a]
  by (auto simp: nested_ok_def add_entry_def update_conv' distinct_update update_not_Nil
      simp del: map_of_eq_Some_iff split: if_splits)

lemma nested_drop: "nested_ok mm \<Longrightarrow> nested_ok (drop_entry a i mm)"
  using inner_distinct [of mm a]
  by (auto simp: nested_ok_def drop_entry_def Let_def update_conv' delete_conv' distinct_update distinct_delete
      simp del: map_of_eq_Some_iff split: if_splits)

lemma inner_Nil_iff: "inner mm a = [] \<longleftrightarrow> (\<forall>i. entry mm a i = None)"
  by (cases "inner mm a") (auto simp: entry_def map_of_eq_None_iff split: if_splits)

lemma fold_drop_entry:
  "entry (fold (\<lambda>(room, _). drop_entry room i) rs mm) b j =
     (if j = i \<and> b \<in> fst ` set rs then None else entry mm b j)"
  by (induction rs arbitrary: mm) (auto split: prod.splits)

lemma fold_nested: "nested_ok mm \<Longrightarrow> nested_ok (fold (\<lambda>(room, _). drop_entry room i) rs mm)"
  by (induction rs arbitrary: mm) (auto simp: nested_drop)

lemma fst_set_update: "fst ` set (AList.update k v m) = insert k (fst ` set m)"
  by (simp add: dom_update)

lemma fst_set_delete: "fst ` set (AList.delete k m) = fst ` set m - {k}"
  by (induction m) auto

subsection \<open>The invariant\<close>

text \<open>
  Rooms and presence are exactly what the registered clients say: a room holds the clients that have
  joined it, a user's connections are the registered clients of that user, and neither map keeps an empty
  entry.
\<close>

definition hub_ok :: "hub \<Rightarrow> bool" where
  "hub_ok h = (distinct (map fst (hbClients h)) \<and> nested_ok (hbRooms h) \<and> nested_ok (hbPresence h) \<and>
     (\<forall>i c. map_of (hbClients h) i = Some c \<longrightarrow> clID (hbStore h c) = i) \<and>
     (\<forall>room i. entry (hbRooms h) room i = (case map_of (hbClients h) i of None \<Rightarrow> None
        | Some c \<Rightarrow> if room \<in> fst ` set (clRooms (hbStore h c)) then Some c else None)) \<and>
     (\<forall>u i. entry (hbPresence h) u i = (case map_of (hbClients h) i of None \<Rightarrow> None
        | Some c \<Rightarrow> if clUserID (hbStore h c) = u then Some True else None)) \<and>
     hbActive h = int (length (hbClients h)))"

lemma hub_okD:
  assumes "hub_ok h"
  shows "distinct (map fst (hbClients h))" "nested_ok (hbRooms h)" "nested_ok (hbPresence h)"
    "\<And>i c. map_of (hbClients h) i = Some c \<Longrightarrow> clID (hbStore h c) = i"
    "\<And>room i. entry (hbRooms h) room i = (case map_of (hbClients h) i of None \<Rightarrow> None
        | Some c \<Rightarrow> if room \<in> fst ` set (clRooms (hbStore h c)) then Some c else None)"
    "\<And>u i. entry (hbPresence h) u i = (case map_of (hbClients h) i of None \<Rightarrow> None
        | Some c \<Rightarrow> if clUserID (hbStore h c) = u then Some True else None)"
    "hbActive h = int (length (hbClients h))"
  using assms unfolding hub_ok_def by blast+

lemma New_ok [inv_intros]: "hub_ok (New store)"
  by (simp add: hub_ok_def New_def nested_ok_def entry_def inner_def)

lemma length_update_new: "k \<notin> fst ` set m \<Longrightarrow> length (AList.update k v m) = Suc (length m)"
  by (induction m) auto

lemma length_delete_old:
  "distinct (map fst m) \<Longrightarrow> k \<in> fst ` set m \<Longrightarrow> Suc (length (AList.delete k m)) = length m"
proof (induction m)
  case (Cons x m)
  show ?case
  proof (cases "fst x = k")
    case True
    with Cons.prems have "AList.delete k m = m" by (auto intro: delete_id)
    with True show ?thesis by (cases x) simp
  qed (use Cons in auto)
qed simp

lemma Register_ok [inv_intros]:
  assumes "hub_ok h" and "clID (hbStore h c) \<notin> fst ` set (hbClients h)" and "clRooms (hbStore h c) = []"
  shows "hub_ok (Register c h)"
proof -
  note o = hub_okD [OF assms(1)]
  have no: "map_of (hbClients h) (clID (hbStore h c)) = None" using assms(2) by (simp add: map_of_eq_None_iff)
  have r: "entry (hbRooms (Register c h)) a i = (case map_of (hbClients (Register c h)) i of None \<Rightarrow> None
        | Some d \<Rightarrow> if a \<in> fst ` set (clRooms (hbStore (Register c h) d)) then Some d else None)" for a i
    using o(5) [of a i] no assms(3) by (auto simp: Register_def update_conv' split: option.splits)
  have p: "entry (hbPresence (Register c h)) a i = (case map_of (hbClients (Register c h)) i of None \<Rightarrow> None
        | Some d \<Rightarrow> if clUserID (hbStore (Register c h) d) = a then Some True else None)" for a i
    using o(6) [of a i] no by (auto simp: Register_def update_conv' split: option.splits)
  show ?thesis unfolding hub_ok_def using o(1,2,3,4,7) r p length_update_new [OF assms(2), of c]
    by (auto simp: Register_def distinct_update nested_add update_conv' simp del: map_of_eq_Some_iff split: if_splits)
qed

lemma Unregister_ok [inv_intros]:
  assumes "hub_ok h"
  shows "hub_ok (Unregister connID h)"
proof (cases "map_of (hbClients h) connID")
  case (Some c)
  note o = hub_okD [OF assms(1)]
  have mem: "connID \<in> fst ` set (hbClients h)" using Some by (force dest: map_of_SomeD)
  let ?h = "Unregister connID h"
  have r: "entry (hbRooms ?h) a i = (case map_of (hbClients ?h) i of None \<Rightarrow> None
        | Some d \<Rightarrow> if a \<in> fst ` set (clRooms (hbStore ?h d)) then Some d else None)" for a i
    using o(5) [of a i] Some by (auto simp: Unregister_def delete_conv' fold_drop_entry split: option.splits)
  have p: "entry (hbPresence ?h) a i = (case map_of (hbClients ?h) i of None \<Rightarrow> None
        | Some d \<Rightarrow> if clUserID (hbStore ?h d) = a then Some True else None)" for a i
    using o(6) [of a i] Some by (auto simp: Unregister_def delete_conv' split: option.splits)
  show ?thesis unfolding hub_ok_def using o(1,2,3,4,7) r p Some length_delete_old [OF o(1) mem]
    by (auto simp: Unregister_def distinct_delete fold_nested nested_drop delete_conv'
        simp del: map_of_eq_Some_iff split: if_splits)
qed (use assms in \<open>simp add: Unregister_def\<close>)

lemma other_client:
  assumes "hub_ok h" and "map_of (hbClients h) i = Some c" and "map_of (hbClients h) j = Some d" and "i \<noteq> j"
  shows "c \<noteq> d"
  using hub_okD(4) [OF assms(1)] assms(2-4) by blast

lemma Join_ok [inv_intros]:
  assumes "hub_ok h"
  shows "hub_ok (Join connID room h)"
proof (cases "map_of (hbClients h) connID")
  case (Some c)
  note o = hub_okD [OF assms(1)]
  have ne: "d \<noteq> c" if "map_of (hbClients h) i = Some d" "i \<noteq> connID" for i d
    using other_client [OF assms Some that(1)] that(2) by blast
  have r: "entry (hbRooms (Join connID room h)) a i = (case map_of (hbClients (Join connID room h)) i of None \<Rightarrow> None
        | Some d \<Rightarrow> if a \<in> fst ` set (clRooms (hbStore (Join connID room h) d)) then Some d else None)" for a i
    using Some o(5) [of a i] ne [of i]
    by (cases "i = connID") (auto simp: Join_def fst_set_update split: option.splits)
  have p: "entry (hbPresence (Join connID room h)) a i = (case map_of (hbClients (Join connID room h)) i of None \<Rightarrow> None
        | Some d \<Rightarrow> if clUserID (hbStore (Join connID room h) d) = a then Some True else None)" for a i
    using Some o(6) [of a i] by (auto simp: Join_def split: option.splits)
  show ?thesis unfolding hub_ok_def using o(1,2,3,4,7) r p Some by (auto simp: Join_def nested_add)
qed (use assms in \<open>simp add: Join_def\<close>)

lemma Leave_ok [inv_intros]:
  assumes "hub_ok h"
  shows "hub_ok (Leave connID room h)"
proof (cases "map_of (hbClients h) connID")
  case (Some c)
  note o = hub_okD [OF assms(1)]
  have ne: "d \<noteq> c" if "map_of (hbClients h) i = Some d" "i \<noteq> connID" for i d
    using other_client [OF assms Some that(1)] that(2) by blast
  have r: "entry (hbRooms (Leave connID room h)) a i = (case map_of (hbClients (Leave connID room h)) i of None \<Rightarrow> None
        | Some d \<Rightarrow> if a \<in> fst ` set (clRooms (hbStore (Leave connID room h) d)) then Some d else None)" for a i
    using Some o(5) [of a i] ne [of i]
    by (cases "i = connID") (auto simp: Leave_def fst_set_delete split: option.splits)
  have p: "entry (hbPresence (Leave connID room h)) a i = (case map_of (hbClients (Leave connID room h)) i of None \<Rightarrow> None
        | Some d \<Rightarrow> if clUserID (hbStore (Leave connID room h) d) = a then Some True else None)" for a i
    using Some o(6) [of a i] by (auto simp: Leave_def split: option.splits)
  show ?thesis unfolding hub_ok_def using o(1,2,3,4,7) r p Some by (auto simp: Leave_def nested_drop)
qed (use assms in \<open>simp add: Leave_def\<close>)

subsection \<open>Reachable hubs\<close>

text \<open>The operations in any sequence, where a client is registered under an ID that is not in use.\<close>

inductive hub_reach :: "hub \<Rightarrow> bool" where
  new: "hub_reach (New store)"
| register: "hub_reach h \<Longrightarrow> clID (hbStore h c) \<notin> fst ` set (hbClients h) \<Longrightarrow> clRooms (hbStore h c) = [] \<Longrightarrow>
    hub_reach (Register c h)"
| unregister: "hub_reach h \<Longrightarrow> hub_reach (Unregister connID h)"
| join: "hub_reach h \<Longrightarrow> hub_reach (Join connID room h)"
| leave: "hub_reach h \<Longrightarrow> hub_reach (Leave connID room h)"

lemma hub_reach_ok: "hub_reach h \<Longrightarrow> hub_ok h"
  by (induction rule: hub_reach.induct) (auto intro: inv_intros)

definition connected :: "hub \<Rightarrow> nat \<Rightarrow> bool" where
  "connected h c = (map_of (hbClients h) (clID (hbStore h c)) = Some c)"

lemma connectedI: "hub_ok h \<Longrightarrow> map_of (hbClients h) i = Some c \<Longrightarrow> connected h c \<and> clID (hbStore h c) = i"
  using hub_okD(4) [of h i c] by (simp add: connected_def)

text \<open>The deliveries along a map whose entries are refs: each ref once, and exactly those of the entries.\<close>

lemma deliveries_distinct:
  assumes "distinct (map fst m)" and "\<And>i c. map_of m i = Some c \<Longrightarrow> f c = i"
  shows "distinct (map snd m)"
  using assms
proof (induction m)
  case (Cons x m)
  obtain i c where x: "x = (i, c)" by fastforce
  have "f d = j" if "map_of m j = Some d" for j d
  proof -
    have "j \<noteq> i" using that Cons.prems(1) by (force simp: x dest: map_of_SomeD simp del: map_of_eq_Some_iff)
    then show ?thesis using Cons.prems(2) [of j d] that by (simp add: x del: map_of_eq_Some_iff)
  qed
  with Cons have "distinct (map snd m)" by simp
  moreover have "c \<notin> snd ` set m"
  proof
    assume "c \<in> snd ` set m"
    then obtain j where j: "(j, c) \<in> set m" by force
    then have "j \<noteq> i" using Cons.prems(1) by (force simp: x)
    moreover have "map_of (x # m) j = Some c" using j Cons.prems(1) \<open>j \<noteq> i\<close> by (simp add: x)
    ultimately show False using Cons.prems(2) [of j c] Cons.prems(2) [of i c] by (simp add: x)
  qed
  ultimately show ?case by (simp add: x)
qed simp

lemma BroadcastRoom_refs:
  assumes "hub_ok h"
  shows "distinct (map fst (BroadcastRoom room msg h)) \<and>
     set (map fst (BroadcastRoom room msg h)) = {c. connected h c \<and> room \<in> fst ` set (clRooms (hbStore h c))}"
proof -
  note o = hub_okD [OF assms]
  let ?m = "inner (hbRooms h) room"
  have d: "distinct (map fst ?m)" by (rule inner_distinct [OF o(2)])
  have e: "map_of ?m i = Some c \<longleftrightarrow> map_of (hbClients h) i = Some c \<and> room \<in> fst ` set (clRooms (hbStore h c))" for i c
    using o(5) [of room i] by (auto simp: entry_def simp del: map_of_eq_Some_iff split: option.splits if_splits)
  have "distinct (map snd ?m)"
    by (rule deliveries_distinct [OF d, of "\<lambda>c. clID (hbStore h c)"]) (use e o(4) in blast)
  moreover have "c \<in> snd ` set ?m \<longleftrightarrow> connected h c \<and> room \<in> fst ` set (clRooms (hbStore h c))" for c
  proof
    assume "c \<in> snd ` set ?m"
    then obtain i where "map_of ?m i = Some c" using d by force
    then show "connected h c \<and> room \<in> fst ` set (clRooms (hbStore h c))" using e connectedI [OF assms] by blast
  next
    assume "connected h c \<and> room \<in> fst ` set (clRooms (hbStore h c))"
    then have "map_of ?m (clID (hbStore h c)) = Some c" using e by (simp add: connected_def del: map_of_eq_Some_iff)
    then show "c \<in> snd ` set ?m" by (force dest: map_of_SomeD)
  qed
  ultimately show ?thesis by (auto simp: BroadcastRoom_def case_prod_beta comp_def)
qed

lemma BroadcastUser_eq:
  assumes "hub_ok h"
  shows "BroadcastUser u msg h = map (\<lambda>(i, _). (the (map_of (hbClients h) i), msg)) (inner (hbPresence h) u) \<and>
     (\<forall>i \<in> fst ` set (inner (hbPresence h) u). \<exists>c. map_of (hbClients h) i = Some c \<and> clUserID (hbStore h c) = u)"
proof -
  note o = hub_okD [OF assms]
  let ?m = "inner (hbPresence h) u"
  have in_clients: "\<exists>c. map_of (hbClients h) i = Some c \<and> clUserID (hbStore h c) = u" if "i \<in> fst ` set ?m" for i
  proof -
    have "map_of ?m i \<noteq> None" using that by (simp add: map_of_eq_None_iff)
    then show ?thesis using o(6) [of u i] by (auto simp: entry_def simp del: map_of_eq_Some_iff split: option.splits if_splits)
  qed
  have "concat (map (\<lambda>(i, _). case map_of (hbClients h) i of None \<Rightarrow> [] | Some c \<Rightarrow> [(c, msg)]) xs) =
      map (\<lambda>(i, _). (the (map_of (hbClients h) i), msg)) xs" if "set xs \<subseteq> set ?m" for xs
    using that in_clients by (induction xs) (force simp del: map_of_eq_Some_iff)+
  then show ?thesis using in_clients by (simp add: BroadcastUser_def del: map_of_eq_Some_iff)
qed

lemma BroadcastUser_refs:
  assumes "hub_ok h"
  shows "distinct (map fst (BroadcastUser u msg h)) \<and>
     set (map fst (BroadcastUser u msg h)) = {c. connected h c \<and> clUserID (hbStore h c) = u} \<and>
     snd ` set (BroadcastUser u msg h) \<subseteq> {msg}"
proof -
  note o = hub_okD [OF assms]
  let ?m = "inner (hbPresence h) u" and ?c = "\<lambda>i. the (map_of (hbClients h) i)"
  have b: "BroadcastUser u msg h = map (\<lambda>(i, _). (?c i, msg)) ?m"
    and ex: "\<And>i. i \<in> fst ` set ?m \<Longrightarrow> \<exists>c. map_of (hbClients h) i = Some c \<and> clUserID (hbStore h c) = u"
    using BroadcastUser_eq [OF assms, of u msg] by blast+
  have refs: "map fst (BroadcastUser u msg h) = map ?c (map fst ?m)" by (simp add: b case_prod_beta)
  have "inj_on ?c (fst ` set ?m)"
    using ex o(4) by (intro inj_onI) (metis option.sel)
  then have d: "distinct (map ?c (map fst ?m))"
    using inner_distinct [OF o(3), of u] unfolding distinct_map [of ?c] by simp
  have mem: "c \<in> ?c ` fst ` set ?m \<longleftrightarrow> connected h c \<and> clUserID (hbStore h c) = u" for c
  proof
    assume "c \<in> ?c ` fst ` set ?m"
    then obtain i where "i \<in> fst ` set ?m" "c = ?c i" by blast
    with ex [of i] connectedI [OF assms, of i c] show "connected h c \<and> clUserID (hbStore h c) = u" by auto
  next
    assume c: "connected h c \<and> clUserID (hbStore h c) = u"
    then have "entry (hbPresence h) u (clID (hbStore h c)) = Some True"
      using o(6) [of u "clID (hbStore h c)"] by (simp add: connected_def)
    then have "clID (hbStore h c) \<in> fst ` set ?m" by (force simp: entry_def dest: map_of_SomeD)
    then show "c \<in> ?c ` fst ` set ?m" using c by (force simp: connected_def)
  qed
  have s: "set (map ?c (map fst ?m)) = {c. connected h c \<and> clUserID (hbStore h c) = u}"
    unfolding set_map by (rule set_eqI) (simp only: mem mem_Collect_eq)
  have "snd ` set (BroadcastUser u msg h) \<subseteq> {msg}" by (auto simp: b)
  then show ?thesis unfolding refs s using d by (intro conjI refl)
qed

subsection \<open>Properties\<close>

text \<open>C40: In every hub reached by registering connections under unused IDs, a room broadcast is delivered once
  to each connected client that has joined the room, and to nobody else; a user is online exactly when one of
  their connections is registered; and the gauge of active connections counts them.\<close>

theorem hub_delivers_to_members:
  assumes "hub_reach h"
  shows "distinct (map fst (BroadcastRoom room msg h)) \<and>
     set (map fst (BroadcastRoom room msg h)) = {c. connected h c \<and> room \<in> fst ` set (clRooms (hbStore h c))} \<and>
     (IsOnline u h \<longleftrightarrow> (\<exists>c. connected h c \<and> clUserID (hbStore h c) = u)) \<and>
     hbActive h = int (length (hbClients h))"
proof -
  note ok = hub_reach_ok [OF assms]
  have "IsOnline u h \<longleftrightarrow> set (map fst (BroadcastUser u msg h)) \<noteq> {}"
    using BroadcastUser_eq [OF ok, of u msg] by (auto simp: IsOnline_def)
  then have "IsOnline u h \<longleftrightarrow> {c. connected h c \<and> clUserID (hbStore h c) = u} \<noteq> {}"
    unfolding conjunct1 [OF conjunct2 [OF BroadcastUser_refs [OF ok, of u msg]]] .
  then have "IsOnline u h \<longleftrightarrow> (\<exists>c. connected h c \<and> clUserID (hbStore h c) = u)"
    by simp
  then show ?thesis using BroadcastRoom_refs [OF ok, of room msg] hub_okD(7) [OF ok] by blast
qed

text \<open>Two connections of one user.\<close>

definition sample_clients :: "nat \<Rightarrow> client" where
  "sample_clients n = NewClient (if n = 0 then ''tab0'' else ''tab1'') ''alice''"

definition sample_hub :: hub where
  "sample_hub = Join ''tab0'' ''order:BTC-USDT'' (Register 1 (Register 0 (New sample_clients)))"

lemma sample_hub_reach: "hub_reach sample_hub"
  unfolding sample_hub_def
  by (intro hub_reach.intros) (simp_all add: New_def Register_def sample_clients_def NewClient_def)

theorem hub_delivers_to_members_witness:
  "map fst (BroadcastRoom ''order:BTC-USDT'' (NewMessage TypeEvent ''x'' (Some ''p'')) sample_hub) = [0] \<and>
   set [0] = {c. connected sample_hub c \<and> ''order:BTC-USDT'' \<in> fst ` set (clRooms (hbStore sample_hub c))} \<and>
   hbActive sample_hub = 2"
proof -
  have "map fst (BroadcastRoom ''order:BTC-USDT'' (NewMessage TypeEvent ''x'' (Some ''p'')) sample_hub) = [0]"
    "length (hbClients sample_hub) = 2" by code_simp+
  with hub_delivers_to_members [OF sample_hub_reach, of "''order:BTC-USDT''" "NewMessage TypeEvent ''x'' (Some ''p'')"]
  show ?thesis by simp
qed

text \<open>Registering a second connection under an ID that is in use leaves the first one in its rooms for
  good: after the ID is unregistered no client is connected under it, but its rooms still deliver to the
  first connection, and the gauge is one too high.\<close>

theorem reregistration_leaves_stale_client:
  assumes "hub_ok h" and "map_of (hbClients h) i = Some c" and "room \<in> fst ` set (clRooms (hbStore h c))"
    and "clID (hbStore h d) = i" and "clRooms (hbStore h d) = []"
  shows "map_of (hbClients (Unregister i (Register d h))) i = None \<and>
     c \<in> set (map fst (BroadcastRoom room msg (Unregister i (Register d h)))) \<and>
     hbActive (Unregister i (Register d h)) = int (length (hbClients (Unregister i (Register d h)))) + 1"
proof -
  note o = hub_okD [OF assms(1)]
  let ?h = "Unregister i (Register d h)"
  have reg: "map_of (hbClients (Register d h)) i = Some d" using assms(4) by (simp add: Register_def update_conv')
  have rooms: "hbRooms ?h = hbRooms h"
    using reg assms(4,5) by (simp add: Unregister_def) (simp add: Register_def)
  have "entry (hbRooms h) room i = Some c" using o(5) [of room i] assms(2,3) by simp
  then have "(i, c) \<in> set (inner (hbRooms ?h) room)" unfolding rooms by (simp add: entry_def map_of_SomeD)
  then have "c \<in> set (map fst (BroadcastRoom room msg ?h))" by (force simp: BroadcastRoom_def)
  moreover have clients: "hbClients ?h = AList.delete i (hbClients h)"
    using reg assms(4) by (simp add: Unregister_def) (simp add: Register_def delete_update_same)
  moreover have "hbActive ?h = hbActive h" using reg by (simp add: Unregister_def) (simp add: Register_def)
  moreover have "Suc (length (AList.delete i (hbClients h))) = length (hbClients h)"
    by (rule length_delete_old [OF o(1)]) (use assms(2) in \<open>force dest: map_of_SomeD\<close>)
  ultimately show ?thesis using o(7) by (simp add: delete_conv')
qed

definition twice_clients :: "nat \<Rightarrow> client" where
  "twice_clients n = NewClient ''alice'' ''alice''"

theorem reregistration_leaves_stale_client_witness:
  "0 \<in> set (map fst (BroadcastRoom ''r'' (NewMessage TypeEvent ''x'' (Some ''p''))
      (Unregister ''alice'' (Register 1 (Join ''alice'' ''r'' (Register 0 (New twice_clients)))))))"
proof -
  let ?h = "Join ''alice'' ''r'' (Register 0 (New twice_clients))"
  have "hub_reach ?h"
    by (intro hub_reach.intros) (simp_all add: New_def Register_def twice_clients_def NewClient_def)
  then have "hub_ok ?h" by (rule hub_reach_ok)
  moreover have "map_of (hbClients ?h) ''alice'' = Some 0" "''r'' \<in> fst ` set (clRooms (hbStore ?h 0))"
    "clID (hbStore ?h 1) = ''alice''" "clRooms (hbStore ?h 1) = []"
    by (simp_all add: Join_def Register_def New_def twice_clients_def NewClient_def)
  ultimately show ?thesis using reregistration_leaves_stale_client by blast
qed

end
