(* ===== verification/App_Boot.thy ===== *)
theory App_Boot
  imports Configs Listings Price_Feed Ws_Hub Engine_Steps
begin

text \<open>
  How a process is put together and taken down: \<^verbatim>\<open>internal/application.go\<close>. A pointer of the application is an
  \<open>option\<close>, \<open>None\<close> being nil, and what it holds is what the connection was opened with. The calls that open
  connections, the database the pairs are read from and the brokers are the record \<open>boot_env\<close>; the state \<open>'s\<close> is
  the brokers'. A step returns \<open>None\<close> when it panics.
\<close>

record app_options =
  optCommandName :: string
  SkipHDWallet :: bool
  SkipMySQL :: bool
  SkipRedis :: bool
  SkipRepositories :: bool
  SkipETHClient :: bool
  SkipWalletService :: bool
  SkipAsynq :: bool
  SkipMail :: bool
  SkipCache :: bool
  SkipMatchEngine :: bool
  SkipMessageBroker :: bool
  SkipMarket :: bool
  SkipWebsocket :: bool

text \<open>The zero value wires everything.\<close>

definition all_wired :: "string \<Rightarrow> app_options" where
  "all_wired name = \<lparr> optCommandName = name, SkipHDWallet = False, SkipMySQL = False, SkipRedis = False,
     SkipRepositories = False, SkipETHClient = False, SkipWalletService = False, SkipAsynq = False, SkipMail = False,
     SkipCache = False, SkipMatchEngine = False, SkipMessageBroker = False, SkipMarket = False, SkipWebsocket = False \<rparr>"

record redis_opt =
  roAddr :: string
  roPassword :: string
  roDB :: int

record smtp_dialer =
  smHost :: string
  smPort :: int
  smUsername :: string
  smPassword :: string

text \<open>The ten repositories are built together on the database handle of that moment, nil or not.\<close>

record repositories =
  rpGorm :: "string option"

record 'd application =
  apConfigs :: configuration
  apRepositories :: "repositories option"
  apWalletService :: "(string option \<times> string option) option"
  apMailDialer :: "smtp_dialer option"
  apRedisClient :: "redis_opt option"
  apMySqlGorm :: "string option"
  apETHClient :: "string option"
  apETHWebsocketClient :: "string option"
  apHDWallet :: "string option"
  apAsynqClient :: "redis_opt option"
  apAsynqInspector :: "redis_opt option"
  apWebsocket :: "hub option"
  apEngineEventProducer :: "string option"
  apOrderEventConsumer :: "string option"
  apKafkaTopicManager :: "string option"
  apAuthGmailCache :: "time option"
  apPendingTransactionsCache :: "time option"
  apRateLimiterCache :: "time option"
  apOrderMatchEngine :: "'d engine option"
  apMarketPriceFeed :: "price_feed option"

definition blank_application :: "configuration \<Rightarrow> 'd application" where
  "blank_application cfg = \<lparr> apConfigs = cfg, apRepositories = None, apWalletService = None, apMailDialer = None,
     apRedisClient = None, apMySqlGorm = None, apETHClient = None, apETHWebsocketClient = None, apHDWallet = None,
     apAsynqClient = None, apAsynqInspector = None, apWebsocket = None, apEngineEventProducer = None,
     apOrderEventConsumer = None, apKafkaTopicManager = None, apAuthGmailCache = None,
     apPendingTransactionsCache = None, apRateLimiterCache = None, apOrderMatchEngine = None, apMarketPriceFeed = None \<rparr>"

text \<open>
  The faults of the outside, each the text of the error: the mnemonic, the database, the two pings of Redis, a node's
  address, the two clients of the brokers (the engine's and the application's), and the two queries of the pairs.
\<close>

record 's boot_env =
  beMnemonic :: "string \<Rightarrow> string option"
  beOpenDB :: "string \<Rightarrow> string option"
  bePing :: "string option"
  beCachePing :: "string option"
  beDial :: "string \<Rightarrow> string option"
  beEngineKafka :: "string option"
  beKafka :: "string option"
  bePairsFault :: "string option"
  beCountFault :: "string option"
  beListings :: listing_db
  beAdmin :: "'s topic_admin"
  beClients :: "nat \<Rightarrow> client"

datatype boot_error =
    WalletErr string | DBErr | RedisErr string | DialErr string | CacheErr | EngineErr string | BrokerErr string
  | CountErr handler_error | SyncErr topic_error

type_synonym ('d, 's) boot_state = "'d application \<times> 's"
type_synonym ('d, 's) register = "('d, 's) boot_state \<Rightarrow> (boot_error + ('d, 's) boot_state) option"

subsection \<open>The steps\<close>

definition registerHDWallet :: "'s boot_env \<Rightarrow> ('d, 's) register" where
  "registerHDWallet B st =
     (case st of (app, s) \<Rightarrow>
       (case beMnemonic B (appHDWalletMnemonic (apConfigs app)) of
          Some err \<Rightarrow> Some (Inl (WalletErr err))
        | None \<Rightarrow> Some (Inr (app\<lparr>apHDWallet := Some (appHDWalletMnemonic (apConfigs app))\<rparr>, s))))"

text \<open>\<^verbatim>\<open>database/db.go\<close>: the driver's text is replaced.\<close>

definition NewMySqlDB :: "(string \<Rightarrow> string option) \<Rightarrow> string \<Rightarrow> string + string" where
  "NewMySqlDB openDB dsn =
     (case openDB dsn of Some _ \<Rightarrow> Inl ''unable to open the mySQL database'' | None \<Rightarrow> Inr dsn)"

definition registerMySqlGorm :: "'s boot_env \<Rightarrow> ('d, 's) register" where
  "registerMySqlGorm B st =
     (case st of (app, s) \<Rightarrow>
       (case NewMySqlDB (beOpenDB B) (storageDatabaseUrl (apConfigs app)) of
          Inl _ \<Rightarrow> Some (Inl DBErr) | Inr db \<Rightarrow> Some (Inr (app\<lparr>apMySqlGorm := Some db\<rparr>, s))))"

definition redis_opt_of :: "configuration \<Rightarrow> int \<Rightarrow> redis_opt" where
  "redis_opt_of cfg db = \<lparr> roAddr = RedisAddress cfg, roPassword = redisPassword cfg, roDB = db \<rparr>"

definition registerRedis :: "'s boot_env \<Rightarrow> ('d, 's) register" where
  "registerRedis B st =
     (case st of (app, s) \<Rightarrow>
       (case bePing B of
          Some err \<Rightarrow> Some (Inl (RedisErr err))
        | None \<Rightarrow> Some (Inr (app\<lparr>apRedisClient := Some (redis_opt_of (apConfigs app) (serviceCacheDB (apConfigs app)))\<rparr>, s))))"

definition registerRepositories :: "('d, 's) register" where
  "registerRepositories st =
     (case st of (app, s) \<Rightarrow> Some (Inr (app\<lparr>apRepositories := Some \<lparr> rpGorm = apMySqlGorm app \<rparr>\<rparr>, s)))"

definition registerMarket :: "('d, 's) register" where
  "registerMarket st =
     (case st of (app, s) \<Rightarrow>
       (let cfg = apConfigs app
        in Some (Inr (app\<lparr>apMarketPriceFeed := Some (NewPriceFeed (feedProviderName cfg) (feedBaseURL cfg) (feedAPIKey cfg))\<rparr>, s))))"

definition registerETHClient :: "'s boot_env \<Rightarrow> ('d, 's) register" where
  "registerETHClient B st =
     (case st of (app, s) \<Rightarrow>
       (let cfg = apConfigs app;
            (httpBaseUrl, wssBaseUrl) =
              (if appNetworkStatus cfg = ''MAINNET'' then (appETHClientMainnet cfg, appWSClientEthereumMainnet cfg)
               else (appETHClientTestnet cfg, appWSClientEthereumTestnet cfg))
        in case beDial B httpBaseUrl of
             Some err \<Rightarrow> Some (Inl (DialErr err))
           | None \<Rightarrow>
               (case beDial B wssBaseUrl of
                  Some err \<Rightarrow> Some (Inl (DialErr err))
                | None \<Rightarrow> Some (Inr (app\<lparr>apETHClient := Some httpBaseUrl, apETHWebsocketClient := Some wssBaseUrl\<rparr>, s)))))"

definition registerServices :: "('d, 's) register" where
  "registerServices st =
     (case st of (app, s) \<Rightarrow> Some (Inr (app\<lparr>apWalletService := Some (apHDWallet app, apETHClient app)\<rparr>, s)))"

definition registerWebsocket :: "'s boot_env \<Rightarrow> ('d, 's) register" where
  "registerWebsocket B st = (case st of (app, s) \<Rightarrow> Some (Inr (app\<lparr>apWebsocket := Some (New (beClients B))\<rparr>, s)))"

definition registerAsynqClient :: "('d, 's) register" where
  "registerAsynqClient st =
     (case st of (app, s) \<Rightarrow>
       (let r = redis_opt_of (apConfigs app) (serviceQueueDB (apConfigs app))
        in Some (Inr (app\<lparr>apAsynqClient := Some r, apAsynqInspector := Some r\<rparr>, s))))"

definition registerMailDialer :: "('d, 's) register" where
  "registerMailDialer st =
     (case st of (app, s) \<Rightarrow>
       (let cfg = apConfigs app
        in Some (Inr (app\<lparr>apMailDialer := Some \<lparr> smHost = mailSMTPHost cfg, smPort = mailSMTPPort cfg,
              smUsername = mailSMTPUsername cfg, smPassword = mailSMTPPassword cfg \<rparr>\<rparr>, s))))"

text \<open>A ping on a nil client is a panic, not the error whose text says so.\<close>

definition registerCache :: "'s boot_env \<Rightarrow> ('d, 's) register" where
  "registerCache B st =
     (case st of (app, s) \<Rightarrow>
       (case apRedisClient app of
          None \<Rightarrow> None
        | Some _ \<Rightarrow>
            (case beCachePing B of
               Some _ \<Rightarrow> Some (Inl CacheErr)
             | None \<Rightarrow> Some (Inr (app\<lparr>apAuthGmailCache := Some EMAIL_VERIFICATION_CODE_LIFETIME_DURATION,
                 apPendingTransactionsCache := Some (24 * hour), apRateLimiterCache := Some 60000000000\<rparr>, s)))))"

text \<open>The pairs as the engine takes them; a nil pair, and a symbol read through a nil pointer, are panics.\<close>

fun light_pairs :: "trading_pair list \<Rightarrow> supported_pair list option" where
  "light_pairs [] = Some []"
| "light_pairs (p # ps) =
     (case tp_Symbol p of
        None \<Rightarrow> None
      | Some symbol \<Rightarrow>
          (case NewSupportedPairLight (tpID p) symbol of
             None \<Rightarrow> None
           | Some a \<Rightarrow> (case light_pairs ps of None \<Rightarrow> None | Some as \<Rightarrow> Some (a # as))))"

text \<open>A query of the pairs that fails gives the nil slice, and its error is dropped. Without repositories, or with
  repositories on a nil handle, the query is a panic.\<close>

definition registerMatchEngine :: "'s boot_env \<Rightarrow> ('d::linordered_idom, 's) register" where
  "registerMatchEngine B st =
     (case st of (app, s) \<Rightarrow>
       (case apRepositories app of
          None \<Rightarrow> None
        | Some repo \<Rightarrow>
            if rpGorm repo = None then None
            else
              (case light_pairs (case GetActivePairs (bePairsFault B) (beListings B) of Inl _ \<Rightarrow> [] | Inr ps \<Rightarrow> ps) of
                 None \<Rightarrow> None
               | Some availableAssetsLight \<Rightarrow>
                   (case NewMatchEngine (beEngineKafka B) availableAssetsLight of
                      None \<Rightarrow> None
                    | Some (Inl err) \<Rightarrow> Some (Inl (EngineErr err))
                    | Some (Inr me) \<Rightarrow> Some (Inr (app\<lparr>apOrderMatchEngine := Some me\<rparr>, s))))))"

definition registerMessageStreamer :: "'s boot_env \<Rightarrow> ('d, 's) register" where
  "registerMessageStreamer B st =
     (case st of (app, s) \<Rightarrow>
       (let producerClient = broker_address (apConfigs app)
        in case beKafka B of
             Some err \<Rightarrow> Some (Inl (BrokerErr err))
           | None \<Rightarrow>
               (case apRepositories app of
                  None \<Rightarrow> None
                | Some repo \<Rightarrow>
                    if rpGorm repo = None then None
                    else
                      (case GetActivePairsCount (beCountFault B) (beListings B) of
                         Inl err \<Rightarrow> Some (Inl (CountErr err))
                       | Inr pairCount \<Rightarrow>
                           (case (if 0 <s pairCount
                                  then SyncPartitions (beAdmin B) CoinhubAllCurrentOrderTopics pairCount s else (None, s)) of
                              (Some err, _) \<Rightarrow> Some (Inl (SyncErr err))
                            | (None, s') \<Rightarrow> Some (Inr (app\<lparr>apKafkaTopicManager := Some producerClient,
                                apEngineEventProducer := Some producerClient\<rparr>, s')))))))"

subsection \<open>Start-up\<close>

text \<open>A failed step ends the process with the step's message.\<close>

datatype 'a boot = Up 'a | Fatal string boot_error | BootPanic

definition boot_step :: "bool \<times> string \<times> ('d, 's) register \<Rightarrow> ('d, 's) boot_state boot \<Rightarrow> ('d, 's) boot_state boot" where
  "boot_step step b =
     (case step of (skip, what, register) \<Rightarrow>
       (case b of
          Up st \<Rightarrow>
            if skip then b
            else (case register st of
                    None \<Rightarrow> BootPanic | Some (Inl err) \<Rightarrow> Fatal what err | Some (Inr st') \<Rightarrow> Up st')
        | _ \<Rightarrow> b))"

definition boot_steps :: "'s boot_env \<Rightarrow> app_options \<Rightarrow> (bool \<times> string \<times> ('d::linordered_idom, 's) register) list" where
  "boot_steps B opts =
     (let skipWalletSvc = (SkipWalletService opts \<or> SkipHDWallet opts \<or> SkipETHClient opts)
      in [(SkipHDWallet opts, ''HDWallet'', registerHDWallet B),
          (SkipMySQL opts, ''DB'', registerMySqlGorm B),
          (SkipRedis opts, ''redis'', registerRedis B),
          (SkipRepositories opts, ''repositories'', registerRepositories),
          (SkipMarket opts, ''market'', registerMarket),
          (SkipETHClient opts, ''eth client'', registerETHClient B),
          (skipWalletSvc, ''services'', registerServices),
          (SkipWebsocket opts, ''websocket'', registerWebsocket B),
          (SkipAsynq opts, ''asynq client'', registerAsynqClient),
          (SkipMail opts, ''mail dialer'', registerMailDialer),
          (SkipCache opts, ''cache'', registerCache B),
          (SkipMatchEngine opts, ''match engine'', registerMatchEngine B),
          (SkipMessageBroker opts, ''message broker'', registerMessageStreamer B)])"

definition NewApplication ::
  "'s boot_env \<Rightarrow> configuration \<Rightarrow> app_options list \<Rightarrow> 's \<Rightarrow> ('d::linordered_idom, 's) boot_state boot" where
  "NewApplication B cfg opts s =
     fold boot_step (boot_steps B (case opts of [] \<Rightarrow> all_wired [] | o1 # _ \<Rightarrow> o1)) (Up (blank_application cfg, s))"

subsection \<open>Shutdown\<close>

datatype conn =
    ProducerConn | EngineProducerConn | EngineConsumerConn | ConsumerConn | AsynqClientConn | AsynqInspectorConn
  | ETHConn | ETHWebsocketConn | RedisConn | MySqlConn

text \<open>The connections closed, in sequence; the errors of closing are only logged. \<open>consumerSet\<close> says whether the engine
  has its consumer, which \<^verbatim>\<open>Run\<close> gives it; \<open>sqlErr\<close> is the error of asking gorm for its connection pool.\<close>

definition engine_Close :: "bool \<Rightarrow> conn list" where
  "engine_Close consumerSet = EngineProducerConn # (if consumerSet then [EngineConsumerConn] else [])"

definition Shutdown :: "bool \<Rightarrow> bool \<Rightarrow> 'd application \<Rightarrow> conn list" where
  "Shutdown consumerSet sqlErr app =
     (if apEngineEventProducer app \<noteq> None then [ProducerConn] else []) @
     (if apOrderMatchEngine app \<noteq> None then engine_Close consumerSet else []) @
     (if apOrderEventConsumer app \<noteq> None then [ConsumerConn] else []) @
     (if apAsynqClient app \<noteq> None then [AsynqClientConn] else []) @
     (if apETHClient app \<noteq> None then [ETHConn] else []) @
     (if apETHWebsocketClient app \<noteq> None then [ETHWebsocketConn] else []) @
     (if apRedisClient app \<noteq> None then [RedisConn] else []) @
     (if apMySqlGorm app \<noteq> None then (if sqlErr then [] else [MySqlConn]) else [])"

subsection \<open>Lemmas\<close>

lemma boot_step_simps [simp]:
  "boot_step (True, what, reg) b = b"
  "boot_step (skip, what, reg) (Fatal x err) = Fatal x err"
  "boot_step (skip, what, reg) BootPanic = BootPanic"
  by (auto simp: boot_step_def split: boot.splits)

lemma boot_step_Up:
  "boot_step (skip, what, reg) b = Up st' \<longleftrightarrow>
     (\<exists>st. b = Up st \<and> (if skip then st' = st else reg st = Some (Inr st')))"
  by (cases b) (auto simp: boot_step_def split: option.splits sum.splits)

text \<open>A step that changes the application alone: when it returns, and what it has done.\<close>

lemma boot_step_upd:
  assumes "\<And>app s app' s'. reg (app, s) = Some (Inr (app', s')) \<longleftrightarrow> C app \<and> app' = U app \<and> s' = s"
    and "\<And>x s'. b = Up (x, s') \<longleftrightarrow> P \<and> x = E \<and> s' = s0"
  shows "boot_step (skip, what, reg) b = Up (x, s') \<longleftrightarrow>
     (P \<and> (skip \<or> C E)) \<and> x = (if skip then E else U E) \<and> s' = s0"
  by (cases skip) (auto simp: boot_step_Up assms)

definition eth_urls :: "configuration \<Rightarrow> string \<times> string" where
  "eth_urls cfg = (if appNetworkStatus cfg = ''MAINNET'' then (appETHClientMainnet cfg, appWSClientEthereumMainnet cfg)
     else (appETHClientTestnet cfg, appWSClientEthereumTestnet cfg))"

definition has_database :: "'d application \<Rightarrow> bool" where
  "has_database app = (case apRepositories app of None \<Rightarrow> False | Some repo \<Rightarrow> rpGorm repo \<noteq> None)"

definition boot_engine :: "'s boot_env \<Rightarrow> 'd::linordered_idom engine option" where
  "boot_engine B =
     (case light_pairs (case GetActivePairs (bePairsFault B) (beListings B) of Inl _ \<Rightarrow> [] | Inr ps \<Rightarrow> ps) of
        None \<Rightarrow> None
      | Some pairs \<Rightarrow> (case NewMatchEngine (beEngineKafka B) pairs of Some (Inr me) \<Rightarrow> Some me | _ \<Rightarrow> None))"

definition topics_synced :: "'s boot_env \<Rightarrow> 's \<Rightarrow> 's \<Rightarrow> bool" where
  "topics_synced B s s' = (case GetActivePairsCount (beCountFault B) (beListings B) of
     Inl _ \<Rightarrow> False
   | Inr n \<Rightarrow> if 0 <s n then SyncPartitions (beAdmin B) CoinhubAllCurrentOrderTopics n s = (None, s') else s' = s)"

lemma registerHDWallet_Up:
  "registerHDWallet B (app, s) = Some (Inr (app', s')) \<longleftrightarrow> beMnemonic B (appHDWalletMnemonic (apConfigs app)) = None \<and>
     app' = app\<lparr>apHDWallet := Some (appHDWalletMnemonic (apConfigs app))\<rparr> \<and> s' = s"
  by (auto simp: registerHDWallet_def split: option.splits)

lemma registerMySqlGorm_Up:
  "registerMySqlGorm B (app, s) = Some (Inr (app', s')) \<longleftrightarrow> beOpenDB B (storageDatabaseUrl (apConfigs app)) = None \<and>
     app' = app\<lparr>apMySqlGorm := Some (storageDatabaseUrl (apConfigs app))\<rparr> \<and> s' = s"
  by (auto simp: registerMySqlGorm_def NewMySqlDB_def split: option.splits)

lemma registerRedis_Up:
  "registerRedis B (app, s) = Some (Inr (app', s')) \<longleftrightarrow> bePing B = None \<and>
     app' = app\<lparr>apRedisClient := Some (redis_opt_of (apConfigs app) (serviceCacheDB (apConfigs app)))\<rparr> \<and> s' = s"
  by (auto simp: registerRedis_def split: option.splits)

lemma registerETHClient_Up:
  "registerETHClient B (app, s) = Some (Inr (app', s')) \<longleftrightarrow>
     (beDial B (fst (eth_urls (apConfigs app))) = None \<and> beDial B (snd (eth_urls (apConfigs app))) = None) \<and>
     app' = app\<lparr>apETHClient := Some (fst (eth_urls (apConfigs app))),
       apETHWebsocketClient := Some (snd (eth_urls (apConfigs app)))\<rparr> \<and> s' = s"
  by (auto simp: registerETHClient_def eth_urls_def Let_def split: option.splits)

lemma registerCache_Up:
  "registerCache B (app, s) = Some (Inr (app', s')) \<longleftrightarrow> (apRedisClient app \<noteq> None \<and> beCachePing B = None) \<and>
     app' = app\<lparr>apAuthGmailCache := Some EMAIL_VERIFICATION_CODE_LIFETIME_DURATION,
       apPendingTransactionsCache := Some (24 * hour), apRateLimiterCache := Some 60000000000\<rparr> \<and> s' = s"
  by (auto simp: registerCache_def split: option.splits)

lemma registerMatchEngine_Up:
  fixes app :: "'d::linordered_idom application"
  shows "registerMatchEngine B (app, s) = Some (Inr (app', s')) \<longleftrightarrow>
     (has_database app \<and> (boot_engine B :: 'd engine option) \<noteq> None) \<and>
     app' = app\<lparr>apOrderMatchEngine := boot_engine B\<rparr> \<and> s' = s"
  by (auto simp: registerMatchEngine_def has_database_def boot_engine_def split: option.splits sum.splits if_splits)

lemma registerMessageStreamer_Up:
  "registerMessageStreamer B (app, s) = Some (Inr (app', s')) \<longleftrightarrow> has_database app \<and> beKafka B = None \<and>
     topics_synced B s s' \<and> app' = app\<lparr>apKafkaTopicManager := Some (broker_address (apConfigs app)),
       apEngineEventProducer := Some (broker_address (apConfigs app))\<rparr>"
  by (auto simp: registerMessageStreamer_def has_database_def topics_synced_def Let_def
      split: option.splits sum.splits if_splits prod.splits)

lemma boot_step_total:
  assumes "\<And>app s. reg (app, s) = Some (Inr (U app, s))" and "\<And>x s'. b = Up (x, s') \<longleftrightarrow> P \<and> x = E \<and> s' = s0"
  shows "boot_step (skip, what, reg) b = Up (x, s') \<longleftrightarrow> P \<and> x = (if skip then E else U E) \<and> s' = s0"
  by (cases skip) (auto simp: boot_step_Up assms)

lemma registers_total:
  "registerRepositories (app, s) = Some (Inr (app\<lparr>apRepositories := Some \<lparr> rpGorm = apMySqlGorm app \<rparr>\<rparr>, s))"
  "registerMarket (app, s) = Some (Inr (app\<lparr>apMarketPriceFeed := Some (NewPriceFeed (feedProviderName (apConfigs app))
     (feedBaseURL (apConfigs app)) (feedAPIKey (apConfigs app)))\<rparr>, s))"
  "registerServices (app, s) = Some (Inr (app\<lparr>apWalletService := Some (apHDWallet app, apETHClient app)\<rparr>, s))"
  "registerWebsocket B (app, s) = Some (Inr (app\<lparr>apWebsocket := Some (New (beClients B))\<rparr>, s))"
  "registerAsynqClient (app, s) = Some (Inr (app\<lparr>apAsynqClient := Some (redis_opt_of (apConfigs app) (serviceQueueDB (apConfigs app))),
     apAsynqInspector := Some (redis_opt_of (apConfigs app) (serviceQueueDB (apConfigs app)))\<rparr>, s))"
  "registerMailDialer (app, s) = Some (Inr (app\<lparr>apMailDialer := Some \<lparr> smHost = mailSMTPHost (apConfigs app),
     smPort = mailSMTPPort (apConfigs app), smUsername = mailSMTPUsername (apConfigs app),
     smPassword = mailSMTPPassword (apConfigs app) \<rparr>\<rparr>, s))"
  by (simp_all add: registerRepositories_def registerMarket_def registerServices_def registerWebsocket_def
      registerAsynqClient_def registerMailDialer_def Let_def)

text \<open>What the process has once it is up: every pointer, in terms of the configuration and the options.\<close>

definition given :: "bool \<Rightarrow> 'v \<Rightarrow> 'v option" where
  "given skip v = (if skip then None else Some v)"

definition wired_application :: "'s boot_env \<Rightarrow> configuration \<Rightarrow> app_options \<Rightarrow> 'd::linordered_idom application" where
  "wired_application B cfg opts =
     \<lparr> apConfigs = cfg,
       apRepositories = given (SkipRepositories opts) \<lparr> rpGorm = given (SkipMySQL opts) (storageDatabaseUrl cfg) \<rparr>,
       apWalletService = given (SkipWalletService opts \<or> SkipHDWallet opts \<or> SkipETHClient opts)
         (Some (appHDWalletMnemonic cfg), Some (fst (eth_urls cfg))),
       apMailDialer = given (SkipMail opts) \<lparr> smHost = mailSMTPHost cfg, smPort = mailSMTPPort cfg,
         smUsername = mailSMTPUsername cfg, smPassword = mailSMTPPassword cfg \<rparr>,
       apRedisClient = given (SkipRedis opts) (redis_opt_of cfg (serviceCacheDB cfg)),
       apMySqlGorm = given (SkipMySQL opts) (storageDatabaseUrl cfg),
       apETHClient = given (SkipETHClient opts) (fst (eth_urls cfg)),
       apETHWebsocketClient = given (SkipETHClient opts) (snd (eth_urls cfg)),
       apHDWallet = given (SkipHDWallet opts) (appHDWalletMnemonic cfg),
       apAsynqClient = given (SkipAsynq opts) (redis_opt_of cfg (serviceQueueDB cfg)),
       apAsynqInspector = given (SkipAsynq opts) (redis_opt_of cfg (serviceQueueDB cfg)),
       apWebsocket = given (SkipWebsocket opts) (New (beClients B)),
       apEngineEventProducer = given (SkipMessageBroker opts) (broker_address cfg),
       apOrderEventConsumer = None,
       apKafkaTopicManager = given (SkipMessageBroker opts) (broker_address cfg),
       apAuthGmailCache = given (SkipCache opts) EMAIL_VERIFICATION_CODE_LIFETIME_DURATION,
       apPendingTransactionsCache = given (SkipCache opts) (24 * hour),
       apRateLimiterCache = given (SkipCache opts) 60000000000,
       apOrderMatchEngine = (if SkipMatchEngine opts then None else boot_engine B),
       apMarketPriceFeed = given (SkipMarket opts)
         (NewPriceFeed (feedProviderName cfg) (feedBaseURL cfg) (feedAPIKey cfg)) \<rparr>"

text \<open>When it comes up: what each wired subsystem needs, and the subsystems it needs before it.\<close>

definition can_boot :: "'s boot_env \<Rightarrow> 'd::linordered_idom engine option \<Rightarrow> configuration \<Rightarrow> app_options \<Rightarrow> 's \<Rightarrow> 's \<Rightarrow> bool" where
  "can_boot B me cfg opts s s' =
     ((SkipHDWallet opts \<or> beMnemonic B (appHDWalletMnemonic cfg) = None) \<and>
      (SkipMySQL opts \<or> beOpenDB B (storageDatabaseUrl cfg) = None) \<and>
      (SkipRedis opts \<or> bePing B = None) \<and>
      (SkipETHClient opts \<or> beDial B (fst (eth_urls cfg)) = None \<and> beDial B (snd (eth_urls cfg)) = None) \<and>
      (SkipCache opts \<or> \<not> SkipRedis opts \<and> beCachePing B = None) \<and>
      (SkipMatchEngine opts \<or> \<not> SkipRepositories opts \<and> \<not> SkipMySQL opts \<and> me \<noteq> None) \<and>
      (if SkipMessageBroker opts then s' = s
       else \<not> SkipRepositories opts \<and> \<not> SkipMySQL opts \<and> beKafka B = None \<and> topics_synced B s s'))"

text \<open>The application after the connections are open, before the subsystems built on them.\<close>

definition connected :: "'s boot_env \<Rightarrow> configuration \<Rightarrow> app_options \<Rightarrow> 'd application" where
  "connected B cfg opts = (blank_application cfg)\<lparr>apHDWallet := given (SkipHDWallet opts) (appHDWalletMnemonic cfg),
     apMySqlGorm := given (SkipMySQL opts) (storageDatabaseUrl cfg),
     apRedisClient := given (SkipRedis opts) (redis_opt_of cfg (serviceCacheDB cfg)),
     apRepositories := given (SkipRepositories opts) \<lparr> rpGorm = given (SkipMySQL opts) (storageDatabaseUrl cfg) \<rparr>,
     apMarketPriceFeed := given (SkipMarket opts) (NewPriceFeed (feedProviderName cfg) (feedBaseURL cfg) (feedAPIKey cfg)),
     apETHClient := given (SkipETHClient opts) (fst (eth_urls cfg)), apETHWebsocketClient := given (SkipETHClient opts) (snd (eth_urls cfg))\<rparr>"

lemma boot_connections:
  fixes cfg :: configuration and app :: "'d::linordered_idom application"
  shows "fold boot_step (take 6 (boot_steps B opts)) (Up (blank_application cfg, s)) = Up (app, s') \<longleftrightarrow>
     ((SkipHDWallet opts \<or> beMnemonic B (appHDWalletMnemonic cfg) = None) \<and>
      (SkipMySQL opts \<or> beOpenDB B (storageDatabaseUrl cfg) = None) \<and> (SkipRedis opts \<or> bePing B = None) \<and>
      (SkipETHClient opts \<or> beDial B (fst (eth_urls cfg)) = None \<and> beDial B (snd (eth_urls cfg)) = None)) \<and>
     app = connected B cfg opts \<and> s' = s"
proof -
  let ?b0 = "Up ((blank_application cfg :: 'd application), s)"
  have b0: "?b0 = Up (x, s') \<longleftrightarrow> True \<and> x = blank_application cfg \<and> s' = s" for x s' by auto
  let ?b1 = "boot_step (SkipHDWallet opts, ''HDWallet'', registerHDWallet B) ?b0"
  let ?e1 = "(blank_application cfg)\<lparr>apHDWallet := given (SkipHDWallet opts) (appHDWalletMnemonic cfg)\<rparr>"
  let ?p1 = "(SkipHDWallet opts \<or> beMnemonic B (appHDWalletMnemonic cfg) = None)"
  have b1: "?b1 = Up (x, s') \<longleftrightarrow> ?p1 \<and> x = ?e1 \<and> s' = s" for x s'
    unfolding boot_step_upd [OF registerHDWallet_Up b0] by (auto simp: blank_application_def given_def)
  let ?b2 = "boot_step (SkipMySQL opts, ''DB'', registerMySqlGorm B) ?b1"
  let ?e2 = "?e1\<lparr>apMySqlGorm := given (SkipMySQL opts) (storageDatabaseUrl cfg)\<rparr>"
  let ?p2 = "?p1 \<and> (SkipMySQL opts \<or> beOpenDB B (storageDatabaseUrl cfg) = None)"
  have b2: "?b2 = Up (x, s') \<longleftrightarrow> ?p2 \<and> x = ?e2 \<and> s' = s" for x s'
    unfolding boot_step_upd [OF registerMySqlGorm_Up b1] by (auto simp: blank_application_def given_def)
  let ?b3 = "boot_step (SkipRedis opts, ''redis'', registerRedis B) ?b2"
  let ?e3 = "?e2\<lparr>apRedisClient := given (SkipRedis opts) (redis_opt_of cfg (serviceCacheDB cfg))\<rparr>"
  let ?p3 = "?p2 \<and> (SkipRedis opts \<or> bePing B = None)"
  have b3: "?b3 = Up (x, s') \<longleftrightarrow> ?p3 \<and> x = ?e3 \<and> s' = s" for x s'
    unfolding boot_step_upd [OF registerRedis_Up b2] by (auto simp: blank_application_def given_def)
  let ?b4 = "boot_step (SkipRepositories opts, ''repositories'', registerRepositories) ?b3"
  let ?e4 = "?e3\<lparr>apRepositories := given (SkipRepositories opts) \<lparr> rpGorm = given (SkipMySQL opts) (storageDatabaseUrl cfg) \<rparr>\<rparr>"
  let ?p4 = "?p3"
  have b4: "?b4 = Up (x, s') \<longleftrightarrow> ?p4 \<and> x = ?e4 \<and> s' = s" for x s'
    unfolding boot_step_total [OF registers_total(1) b3] by (auto simp: blank_application_def given_def)
  let ?b5 = "boot_step (SkipMarket opts, ''market'', registerMarket) ?b4"
  let ?e5 = "?e4\<lparr>apMarketPriceFeed := given (SkipMarket opts)
      (NewPriceFeed (feedProviderName cfg) (feedBaseURL cfg) (feedAPIKey cfg))\<rparr>"
  let ?p5 = "?p4"
  have b5: "?b5 = Up (x, s') \<longleftrightarrow> ?p5 \<and> x = ?e5 \<and> s' = s" for x s'
    unfolding boot_step_total [OF registers_total(2) b4] by (auto simp: blank_application_def given_def)
  let ?b6 = "boot_step (SkipETHClient opts, ''eth client'', registerETHClient B) ?b5"
  let ?e6 = "?e5\<lparr>apETHClient := given (SkipETHClient opts) (fst (eth_urls cfg)),
      apETHWebsocketClient := given (SkipETHClient opts) (snd (eth_urls cfg))\<rparr>"
  let ?p6 = "?p5 \<and> (SkipETHClient opts \<or> beDial B (fst (eth_urls cfg)) = None \<and> beDial B (snd (eth_urls cfg)) = None)"
  have b6: "?b6 = Up (x, s') \<longleftrightarrow> ?p6 \<and> x = ?e6 \<and> s' = s" for x s'
    unfolding boot_step_upd [OF registerETHClient_Up b5] by (auto simp: blank_application_def given_def)
  from b6 show ?thesis by (simp add: boot_steps_def Let_def connected_def)
qed

lemma boot_but_broker:
  fixes cfg :: configuration and app :: "'d::linordered_idom application"
  assumes b0: "\<And>x s'. b = Up (x, s') \<longleftrightarrow> P \<and> x = connected B cfg opts \<and> s' = s"
  shows "fold boot_step (take 6 (drop 6 (boot_steps B opts))) b = Up (app, s') \<longleftrightarrow>
     (P \<and> (SkipCache opts \<or> \<not> SkipRedis opts \<and> beCachePing B = None) \<and>
      (SkipMatchEngine opts \<or> \<not> SkipRepositories opts \<and> \<not> SkipMySQL opts \<and>
       (boot_engine B :: 'd engine option) \<noteq> None)) \<and>
     app = wired_application B cfg (opts\<lparr>SkipMessageBroker := True\<rparr>) \<and> s' = s"
proof -
  let ?b1 = "boot_step (SkipWalletService opts \<or> SkipHDWallet opts \<or> SkipETHClient opts, ''services'', registerServices) b"
  let ?e1 = "(connected B cfg opts)\<lparr>apWalletService := given (SkipWalletService opts \<or> SkipHDWallet opts \<or> SkipETHClient opts)
      (Some (appHDWalletMnemonic cfg), Some (fst (eth_urls cfg)))\<rparr> :: 'd application"
  let ?p1 = "P"
  have b1: "?b1 = Up (x, s') \<longleftrightarrow> ?p1 \<and> x = ?e1 \<and> s' = s" for x s'
    unfolding boot_step_total [OF registers_total(3) b0] by (auto simp: connected_def blank_application_def given_def)
  let ?b2 = "boot_step (SkipWebsocket opts, ''websocket'', registerWebsocket B) ?b1"
  let ?e2 = "?e1\<lparr>apWebsocket := given (SkipWebsocket opts) (New (beClients B))\<rparr>"
  let ?p2 = "?p1"
  have b2: "?b2 = Up (x, s') \<longleftrightarrow> ?p2 \<and> x = ?e2 \<and> s' = s" for x s'
    unfolding boot_step_total [OF registers_total(4) b1] by (auto simp: connected_def blank_application_def given_def)
  let ?b3 = "boot_step (SkipAsynq opts, ''asynq client'', registerAsynqClient) ?b2"
  let ?e3 = "?e2\<lparr>apAsynqClient := given (SkipAsynq opts) (redis_opt_of cfg (serviceQueueDB cfg)),
      apAsynqInspector := given (SkipAsynq opts) (redis_opt_of cfg (serviceQueueDB cfg))\<rparr>"
  let ?p3 = "?p2"
  have b3: "?b3 = Up (x, s') \<longleftrightarrow> ?p3 \<and> x = ?e3 \<and> s' = s" for x s'
    unfolding boot_step_total [OF registers_total(5) b2] by (auto simp: connected_def blank_application_def given_def)
  let ?b4 = "boot_step (SkipMail opts, ''mail dialer'', registerMailDialer) ?b3"
  let ?e4 = "?e3\<lparr>apMailDialer := given (SkipMail opts) \<lparr> smHost = mailSMTPHost cfg,
      smPort = mailSMTPPort cfg, smUsername = mailSMTPUsername cfg, smPassword = mailSMTPPassword cfg \<rparr>\<rparr>"
  let ?p4 = "?p3"
  have b4: "?b4 = Up (x, s') \<longleftrightarrow> ?p4 \<and> x = ?e4 \<and> s' = s" for x s'
    unfolding boot_step_total [OF registers_total(6) b3] by (auto simp: connected_def blank_application_def given_def)
  let ?b5 = "boot_step (SkipCache opts, ''cache'', registerCache B) ?b4"
  let ?e5 = "?e4\<lparr>apAuthGmailCache := given (SkipCache opts) EMAIL_VERIFICATION_CODE_LIFETIME_DURATION,
      apPendingTransactionsCache := given (SkipCache opts) (24 * hour),
      apRateLimiterCache := given (SkipCache opts) 60000000000\<rparr>"
  let ?p5 = "?p4 \<and> (SkipCache opts \<or> \<not> SkipRedis opts \<and> beCachePing B = None)"
  have b5: "?b5 = Up (x, s') \<longleftrightarrow> ?p5 \<and> x = ?e5 \<and> s' = s" for x s'
    unfolding boot_step_upd [OF registerCache_Up b4] by (auto simp: connected_def blank_application_def given_def)
  let ?b6 = "boot_step (SkipMatchEngine opts, ''match engine'', registerMatchEngine B) ?b5"
  let ?e6 = "?e5\<lparr>apOrderMatchEngine := (if SkipMatchEngine opts then None else boot_engine B)\<rparr>"
  let ?p6 = "?p5 \<and> (SkipMatchEngine opts \<or> \<not> SkipRepositories opts \<and> \<not> SkipMySQL opts \<and>
      (boot_engine B :: 'd engine option) \<noteq> None)"
  have b6: "?b6 = Up (x, s') \<longleftrightarrow> ?p6 \<and> x = ?e6 \<and> s' = s" for x s'
    unfolding boot_step_upd [OF registerMatchEngine_Up b5] by (auto simp: connected_def blank_application_def given_def has_database_def)
  from b6 show ?thesis
    by (simp add: boot_steps_def Let_def wired_application_def connected_def blank_application_def given_def)
qed

lemma boot_step_last:
  assumes "\<And>x s1. b = Up (x, s1) \<longleftrightarrow> P \<and> x = E \<and> s1 = s" and "\<not> skip"
  shows "boot_step (skip, what, reg) b = Up st' \<longleftrightarrow> P \<and> reg (E, s) = Some (Inr st')"
  using assms(2) by (auto simp: boot_step_Up assms(1))

lemma NewApplication_Up:
  fixes cfg :: configuration and app :: "'d::linordered_idom application"
  shows "NewApplication B cfg [opts] s = Up (app, s') \<longleftrightarrow>
     can_boot B (boot_engine B :: 'd engine option) cfg opts s s' \<and> app = wired_application B cfg opts"
proof -
  let ?b = "fold boot_step (take 6 (drop 6 (boot_steps B opts)))
     (fold boot_step (take 6 (boot_steps B opts)) (Up (blank_application cfg :: 'd application, s)))"
  have split: "NewApplication B cfg [opts] s =
      boot_step (SkipMessageBroker opts, ''message broker'', registerMessageStreamer B) ?b"
    by (simp add: NewApplication_def boot_steps_def Let_def)
  let ?p = "((SkipHDWallet opts \<or> beMnemonic B (appHDWalletMnemonic cfg) = None) \<and>
      (SkipMySQL opts \<or> beOpenDB B (storageDatabaseUrl cfg) = None) \<and> (SkipRedis opts \<or> bePing B = None) \<and>
      (SkipETHClient opts \<or> beDial B (fst (eth_urls cfg)) = None \<and> beDial B (snd (eth_urls cfg)) = None)) \<and>
     (SkipCache opts \<or> \<not> SkipRedis opts \<and> beCachePing B = None) \<and>
     (SkipMatchEngine opts \<or> \<not> SkipRepositories opts \<and> \<not> SkipMySQL opts \<and> (boot_engine B :: 'd engine option) \<noteq> None)"
  let ?w = "wired_application B cfg (opts\<lparr>SkipMessageBroker := True\<rparr>) :: 'd application"
  have inner: "?b = Up (x, s1) \<longleftrightarrow> ?p \<and> x = ?w \<and> s1 = s" for x s1
    by (rule boot_but_broker [OF boot_connections])
  have db: "has_database ?w \<longleftrightarrow> \<not> SkipRepositories opts \<and> \<not> SkipMySQL opts"
    by (simp add: has_database_def wired_application_def given_def)
  show ?thesis
  proof (cases "SkipMessageBroker opts")
    case True
    then have eq: "?w = wired_application B cfg opts" by (simp add: wired_application_def given_def)
    show ?thesis using True inner [of app s'] unfolding split can_boot_def eq by (simp only: boot_step_simps if_True conj_ac)
  next
    case False
    have w: "?w\<lparr>apKafkaTopicManager := Some (broker_address (apConfigs ?w)),
        apEngineEventProducer := Some (broker_address (apConfigs ?w))\<rparr> = wired_application B cfg opts"
      using False by (simp add: wired_application_def given_def)
    have "boot_step (SkipMessageBroker opts, ''message broker'', registerMessageStreamer B) ?b = Up (app, s') \<longleftrightarrow>
        ?p \<and> registerMessageStreamer B (?w, s) = Some (Inr (app, s'))"
      by (rule boot_step_last [OF inner False])
    then show ?thesis using False unfolding split can_boot_def registerMessageStreamer_Up db w
      by (simp only: if_False conj_ac)
  qed
qed

end
