(* ===== verification/Commands.thy ===== *)
theory Commands
  imports App_Boot
begin

text \<open>
  The commands of the binary (\<^verbatim>\<open>cmd/*.go\<close>): what each asks \<^verbatim>\<open>NewApplication\<close> to leave out, the migration command with its
  seeds, and the end of the process. What the operations of a command do is in the theories of the components.
\<close>

subsection \<open>What each command wires\<close>

definition api_options :: app_options where
  "api_options = all_wired ''api''"

definition engine_options :: app_options where
  "engine_options = (all_wired ''engine'')\<lparr>SkipHDWallet := True, SkipETHClient := True, SkipWalletService := True,
     SkipCache := True\<rparr>"

definition migrate_options :: app_options where
  "migrate_options = (all_wired ''migrate'')\<lparr>SkipHDWallet := True, SkipRedis := True, SkipRepositories := True,
     SkipETHClient := True, SkipWalletService := True, SkipAsynq := True, SkipMail := True, SkipCache := True,
     SkipMatchEngine := True, SkipMessageBroker := True\<rparr>"

definition notification_consumer_options :: app_options where
  "notification_consumer_options = (all_wired ''notification-consumer'')\<lparr>SkipHDWallet := True, SkipRedis := True,
     SkipETHClient := True, SkipWalletService := True, SkipAsynq := True, SkipMail := True, SkipCache := True,
     SkipMatchEngine := True, SkipMessageBroker := True\<rparr>"

definition projection_consumer_options :: app_options where
  "projection_consumer_options = (all_wired ''order-projection-consumer'')\<lparr>SkipHDWallet := True, SkipRedis := True,
     SkipETHClient := True, SkipWalletService := True, SkipAsynq := True, SkipMail := True, SkipCache := True,
     SkipMatchEngine := True, SkipMessageBroker := True\<rparr>"

definition watcher_options :: app_options where
  "watcher_options = (all_wired ''watcher'')\<lparr>SkipHDWallet := True, SkipWalletService := True, SkipMail := True,
     SkipMatchEngine := True, SkipMessageBroker := True\<rparr>"

definition worker_options :: app_options where
  "worker_options = (all_wired ''worker'')\<lparr>SkipHDWallet := True, SkipWalletService := True, SkipMatchEngine := True,
     SkipMessageBroker := True\<rparr>"

definition command_options :: "app_options list" where
  "command_options = [api_options, migrate_options, worker_options, watcher_options, engine_options,
     projection_consumer_options, notification_consumer_options]"

lemmas command_options_defs = command_options_def api_options_def migrate_options_def worker_options_def
  watcher_options_def engine_options_def projection_consumer_options_def notification_consumer_options_def all_wired_def

subsection \<open>The end of the process (root.go)\<close>

text \<open>\<open>Returned\<close> is a command whose \<^verbatim>\<open>Run\<close> returns. \<open>Execute\<close> then waits for a signal, \<open>signalled\<close> saying whether one
  arrives; its own context is never cancelled before.\<close>

datatype process = Returned | Exited nat

datatype process_end = Left nat | Stopped int | WaitsForSignal

definition Execute :: "configuration \<Rightarrow> string option \<Rightarrow> bool \<Rightarrow> process \<Rightarrow> process_end" where
  "Execute cfg cobraErr signalled p =
     (case p of
        Exited code \<Rightarrow> Left code
      | Returned \<Rightarrow>
          if cobraErr \<noteq> None then Left 1
          else if signalled then Stopped (if appGracePeriod cfg > 0 then appGracePeriod cfg else 0)
          else WaitsForSignal)"

subsection \<open>Migrations (migrate.go)\<close>

text \<open>The models a development database is migrated to, a referenced one before those that refer to it. The list of
  tables to drop is built by the code and not used.\<close>

definition mgModels :: "string list" where
  "mgModels = [''Role'', ''User'', ''Profile'', ''Asset'', ''TradingPair'', ''WalletAccount'', ''EvmTransaction'',
     ''TransferEvent'', ''Order'', ''ProcessedOrderEvent'', ''Trade'']"

definition migrateDatabase :: "(string list \<Rightarrow> string option) \<Rightarrow> 'd application \<Rightarrow> string option \<times> string list" where
  "migrateDatabase autoMigrate app =
     (if apMySqlGorm app \<noteq> None \<and> appEnv (apConfigs app) \<noteq> ''PRODUCTION'' \<and> appDebug (apConfigs app)
      then (case autoMigrate mgModels of
              Some err \<Rightarrow> (Some (''failed to migrate database'' @ [CHR 0x0A] @ err), mgModels)
            | None \<Rightarrow> (None, mgModels))
      else (None, []))"

datatype seed_error = SeedsUnreadable string | SeedFileUnreadable string string | SeedFailed string string

fun apply_seeds ::
  "(string \<Rightarrow> string + string) \<Rightarrow> (string \<Rightarrow> 's \<Rightarrow> string option \<times> 's) \<Rightarrow> string list \<Rightarrow> 's \<Rightarrow> seed_error option \<times> 's" where
  "apply_seeds readFile exec [] s = (None, s)"
| "apply_seeds readFile exec (file # files) s =
     (case readFile file of
        Inl err \<Rightarrow> (Some (SeedFileUnreadable file err), s)
      | Inr content \<Rightarrow>
          (case exec content s of
             (Some err, s1) \<Rightarrow> (Some (SeedFailed file err), s1)
           | (None, s1) \<Rightarrow> apply_seeds readFile exec files s1))"

definition seedDatabase ::
  "(string \<Rightarrow> string + string list) \<Rightarrow> (string \<Rightarrow> string + string) \<Rightarrow> (string \<Rightarrow> 's \<Rightarrow> string option \<times> 's) \<Rightarrow> 's \<Rightarrow>
   seed_error option \<times> 's" where
  "seedDatabase glob readFile exec s =
     (case glob ''internal/infrastructure/database/seeds/*.sql'' of
        Inl err \<Rightarrow> (Some (SeedsUnreadable err), s)
      | Inr files \<Rightarrow> if files = [] then (None, s) else apply_seeds readFile exec files s)"

record 's migrate_env =
  mvAutoMigrate :: "string list \<Rightarrow> string option"
  mvRolesFault :: "string option"
  mvFirstRoleID :: nat
  mvGlob :: "string \<Rightarrow> string + string list"
  mvReadFile :: "string \<Rightarrow> string + string"
  mvExec :: "string \<Rightarrow> 's \<Rightarrow> string option \<times> 's"

text \<open>Every error of the three steps is only logged. A fatal step of the start-up ends the process with code 1, a
  panic with code 2.\<close>

definition RunMigrate ::
  "'b boot_env \<Rightarrow> 's migrate_env \<Rightarrow> configuration \<Rightarrow> 'b \<Rightarrow> bool \<Rightarrow> bool \<Rightarrow> user_db \<times> 's \<Rightarrow> process \<times> user_db \<times> 's" where
  "RunMigrate B E cfg broker upFlag seedFlag st =
     (if \<not> upFlag \<and> \<not> seedFlag then (Exited 1, st)
      else case (NewApplication B cfg [migrate_options] broker :: (int application \<times> 'b) boot) of
        Fatal _ _ \<Rightarrow> (Exited 1, st)
      | BootPanic \<Rightarrow> (Exited 2, st)
      | Up (app, _) \<Rightarrow>
          (case st of (udb, s) \<Rightarrow>
            (let udb1 = (if upFlag
                         then (case migrateDatabase (mvAutoMigrate E) app of
                                 _ \<Rightarrow> snd (role_Seed (mvRolesFault E) (mvFirstRoleID E) udb))
                         else udb);
                 s1 = (if seedFlag then snd (seedDatabase (mvGlob E) (mvReadFile E) (mvExec E) s) else s)
             in (Returned, udb1, s1))))"

subsection \<open>Lemmas\<close>

text \<open>Symbols an engine can keep a book for: two listed assets, neither with a separator in its symbol.\<close>

definition bookable :: "listing_db \<Rightarrow> bool" where
  "bookable db = (listing_ok db \<and> list_all (\<lambda>a. case asSymbol a of None \<Rightarrow> False
     | Some s \<Rightarrow> CHR ''-'' \<notin> set s \<and> CHR ''/'' \<notin> set s) (ldAssets db))"

definition pair_symbol :: "listing_db \<Rightarrow> trading_pair \<Rightarrow> string" where
  "pair_symbol db p = the (symbol_of db (tpBaseAssetID p)) @ ''-'' @ the (symbol_of db (tpQuoteAssetID p))"

lemma bookable_symbols:
  assumes "bookable db" and "p \<in> set (active_pairs db)"
  obtains b q where "symbol_of db (tpBaseAssetID p) = Some b" "symbol_of db (tpQuoteAssetID p) = Some q"
    "CHR ''-'' \<notin> set b" "CHR ''/'' \<notin> set b" "CHR ''-'' \<notin> set q" "CHR ''/'' \<notin> set q"
proof -
  from assms have ok: "listing_ok db" by (simp add: bookable_def)
  from active_pair_symbol [OF ok assms(2)] obtain b q where "tpBaseSymbol (preload_assets db p) = Some b"
    "tpQuoteSymbol (preload_assets db p) = Some q" "Some b \<in> asSymbol ` set (ldAssets db)"
    "Some q \<in> asSymbol ` set (ldAssets db)" by metis
  with assms(1) that show thesis
    by (force simp: bookable_def list_all_iff preload_assets_def split: option.splits)
qed

lemma NewSupportedPairLight_dash:
  assumes "CHR ''-'' \<notin> set b" "CHR ''/'' \<notin> set b" "CHR ''-'' \<notin> set q" "CHR ''/'' \<notin> set q"
  shows "NewSupportedPairLight i (b @ ''/'' @ q) = Some \<lparr> spID = i, spSymbol = Some (b @ ''-'' @ q) \<rparr>"
  using assms by (simp add: NewSupportedPairLight_def fixSupportedPairLight_def contains_char_def split_on_append)

lemma light_pairs_bookable:
  assumes "bookable db" and "set ps \<subseteq> set (active_pairs db)"
  shows "light_pairs (map (preload_assets db) ps) =
     Some (map (\<lambda>p. \<lparr> spID = tpID p, spSymbol = Some (pair_symbol db p) \<rparr>) ps)"
  using assms(2)
proof (induction ps)
  case (Cons p ps)
  then have "p \<in> set (active_pairs db)" by simp
  from bookable_symbols [OF assms(1) this] obtain b q where bq: "symbol_of db (tpBaseAssetID p) = Some b"
    "symbol_of db (tpQuoteAssetID p) = Some q" "CHR ''-'' \<notin> set b" "CHR ''/'' \<notin> set b" "CHR ''-'' \<notin> set q" "CHR ''/'' \<notin> set q" .
  have "tpID (preload_assets db p) = tpID p" by (simp add: preload_assets_def)
  moreover have "tp_Symbol (preload_assets db p) = Some (b @ ''/'' @ q)" "pair_symbol db p = b @ ''-'' @ q"
    using bq(1,2) by (simp_all add: tp_Symbol_def preload_assets_def pair_symbol_def)
  ultimately show ?case using Cons NewSupportedPairLight_dash [OF bq(3-), of "tpID p"] by simp
qed simp

lemma check_pairs_dash: "\<forall>a \<in> set as. \<exists>s. spSymbol a = Some s \<and> CHR ''-'' \<in> set s \<Longrightarrow> check_pairs as = Some True"
  by (induction as) (auto simp: fixSupportedPairLight_def contains_char_def)

lemma fold_symbols:
  "foldl (\<lambda>w a. case spSymbol a of None \<Rightarrow> w | Some s \<Rightarrow> w(s \<mapsto> f s)) m (map (\<lambda>p. \<lparr> spID = i p, spSymbol = Some (g p) \<rparr>) ps) =
     (\<lambda>x. if x \<in> g ` set ps then Some (f x) else m x)"
  by (induction ps arbitrary: m) auto

text \<open>The engine of a process whose pairs could be read: a book and a channel, both empty, for each active pair.\<close>

lemma boot_engine_bookable:
  assumes "bookable (beListings B)" and "bePairsFault B = None" and "beEngineKafka B = None"
  obtains me :: "'d::linordered_idom engine" where "boot_engine B = Some me" "meReaper me = []"
    "meBooks me = (\<lambda>x. if x \<in> pair_symbol (beListings B) ` set (active_pairs (beListings B)) then Some (empty_book x) else None)"
    "meRouter me = Some (\<lambda>x. if x \<in> pair_symbol (beListings B) ` set (active_pairs (beListings B)) then Some [] else None)"
    "\<exists>pairs. meBooks me = initializeOrderbooks pairs \<and> initializeOrderRouter pairs = Some (meRouter me)"
proof -
  let ?db = "beListings B" and ?f = "\<lambda>p. \<lparr> spID = tpID p, spSymbol = Some (pair_symbol (beListings B) p) \<rparr>"
  let ?pairs = "map ?f (active_pairs ?db)"
  have light: "light_pairs (map (preload_assets ?db) (active_pairs ?db)) = Some ?pairs"
    by (rule light_pairs_bookable [OF assms(1)]) simp
  have check: "check_pairs ?pairs = Some True" by (rule check_pairs_dash) (auto simp: pair_symbol_def)
  have router: "initializeOrderRouter ?pairs = Some (Some (\<lambda>x. if x \<in> pair_symbol ?db ` set (active_pairs ?db)
      then Some ([] :: 'd order list) else None))"
    by (simp add: initializeOrderRouter_def check fold_symbols [of "\<lambda>_. []"])
  let ?me = "\<lparr> meBooks = initializeOrderbooks ?pairs, meRouter = Some (\<lambda>x. if x \<in> pair_symbol ?db ` set (active_pairs ?db)
      then Some [] else None), meReaper = [] \<rparr> :: 'd engine"
  have "boot_engine B = Some ?me"
    by (simp add: boot_engine_def GetActivePairs_def assms(2,3) light NewMatchEngine_def router initializeReaper_def)
  then show thesis
    by (rule that) (use router in \<open>simp_all add: initializeOrderbooks_def fold_symbols exI [of _ ?pairs]\<close>)
qed

text \<open>An environment in which nothing fails.\<close>

definition calm :: "'s boot_env \<Rightarrow> configuration \<Rightarrow> bool" where
  "calm B cfg = (beMnemonic B (appHDWalletMnemonic cfg) = None \<and> beOpenDB B (storageDatabaseUrl cfg) = None \<and>
     bePing B = None \<and> beCachePing B = None \<and> beDial B (fst (eth_urls cfg)) = None \<and>
     beDial B (snd (eth_urls cfg)) = None \<and> beEngineKafka B = None \<and> beKafka B = None \<and> bePairsFault B = None \<and>
     beCountFault B = None)"

text \<open>What a command's \<^verbatim>\<open>Run\<close> reads of the application.\<close>

definition command_has :: "app_options \<Rightarrow> 'd application \<Rightarrow> bool" where
  "command_has opts app =
     (if opts = api_options then apWalletService app \<noteq> None \<and> apRedisClient app \<noteq> None \<and> apAuthGmailCache app \<noteq> None \<and>
        apRateLimiterCache app \<noteq> None \<and> apPendingTransactionsCache app \<noteq> None \<and> apAsynqClient app \<noteq> None \<and>
        apOrderMatchEngine app \<noteq> None \<and> apEngineEventProducer app \<noteq> None \<and> apMarketPriceFeed app \<noteq> None \<and>
        apKafkaTopicManager app \<noteq> None \<and> apWebsocket app \<noteq> None \<and> has_database app
      else if opts = engine_options then apEngineEventProducer app \<noteq> None \<and> apOrderMatchEngine app \<noteq> None \<and> has_database app
      else if opts = worker_options then apMySqlGorm app \<noteq> None \<and> apAsynqClient app \<noteq> None \<and> apETHClient app \<noteq> None \<and>
        apRedisClient app \<noteq> None \<and> apMailDialer app \<noteq> None \<and> apAuthGmailCache app \<noteq> None \<and>
        apPendingTransactionsCache app \<noteq> None \<and> has_database app
      else if opts = watcher_options then apAsynqClient app \<noteq> None \<and> apETHWebsocketClient app \<noteq> None \<and>
        apPendingTransactionsCache app \<noteq> None \<and> has_database app
      else if opts = migrate_options then apMySqlGorm app \<noteq> None
      else has_database app \<and> apWebsocket app \<noteq> None)"

text \<open>The connections an application holds.\<close>

definition opened :: "bool \<Rightarrow> 'd application \<Rightarrow> conn \<Rightarrow> bool" where
  "opened consumerSet app c =
     (case c of
        ProducerConn \<Rightarrow> apEngineEventProducer app \<noteq> None
      | EngineProducerConn \<Rightarrow> apOrderMatchEngine app \<noteq> None
      | EngineConsumerConn \<Rightarrow> apOrderMatchEngine app \<noteq> None \<and> consumerSet
      | ConsumerConn \<Rightarrow> apOrderEventConsumer app \<noteq> None
      | AsynqClientConn \<Rightarrow> apAsynqClient app \<noteq> None
      | AsynqInspectorConn \<Rightarrow> apAsynqInspector app \<noteq> None
      | ETHConn \<Rightarrow> apETHClient app \<noteq> None
      | ETHWebsocketConn \<Rightarrow> apETHWebsocketClient app \<noteq> None
      | RedisConn \<Rightarrow> apRedisClient app \<noteq> None
      | MySqlConn \<Rightarrow> apMySqlGorm app \<noteq> None)"

lemma Shutdown_filter:
  "Shutdown consumerSet sqlErr app =
     filter (\<lambda>c. opened consumerSet app c \<and> c \<noteq> AsynqInspectorConn \<and> \<not> (sqlErr \<and> c = MySqlConn))
       [ProducerConn, EngineProducerConn, EngineConsumerConn, ConsumerConn, AsynqClientConn, AsynqInspectorConn,
        ETHConn, ETHWebsocketConn, RedisConn, MySqlConn]"
  by (simp add: Shutdown_def opened_def engine_Close_def)

lemma all_conns: "c \<in> set [ProducerConn, EngineProducerConn, EngineConsumerConn, ConsumerConn, AsynqClientConn,
    AsynqInspectorConn, ETHConn, ETHWebsocketConn, RedisConn, MySqlConn]"
  by (cases c) simp_all

text \<open>A sample environment: two assets, one active pair, three partitions a topic.\<close>

definition sample_token :: "string \<Rightarrow> string \<Rightarrow> asset" where
  "sample_token i symb = \<lparr> asID = i, asName = Some symb, asSymbol = Some symb, asMaxSize = 1,
     asNetworkAvailability = \<lparr> naSpotTestnet = True, naSpotMainnet = True, naPerpTestnet = False, naPerpMainnet = False \<rparr>,
     asStatus = AssetStatusActive, asAddress = Some (''0x'' @ i), asNetwork = TestnetAsset \<rparr>"

definition sample_pair :: trading_pair where
  "sample_pair = \<lparr> tpID = ''p-1'', tpBaseAssetID = ''1'', tpBaseSymbol = None, tpQuoteAssetID = ''2'', tpQuoteSymbol = None,
     tpMaxLeverage = 1, tpSzDecimal = 2, tpTickSize = 1, tpAvailability = \<lparr> paTestnet = True, paMainnet = False \<rparr>,
     tpStatus = TradingPairStatusActive \<rparr>"

definition sample_boot :: "string option \<Rightarrow> (string \<Rightarrow> nat option) boot_env" where
  "sample_boot pairsFault = \<lparr> beMnemonic = (\<lambda>_. None), beOpenDB = (\<lambda>_. None), bePing = None, beCachePing = None,
     beDial = (\<lambda>_. None), beEngineKafka = None, beKafka = None, bePairsFault = pairsFault, beCountFault = None,
     beListings = \<lparr> ldAssets = [sample_token ''1'' ''BTC'', sample_token ''2'' ''USDT''], ldPairs = [sample_pair] \<rparr>,
     beAdmin = sample_admin, beClients = (\<lambda>_. NewClient [] []) \<rparr>"

lemma sample_boot_facts:
  "calm (sample_boot None) cfg" "bookable (beListings (sample_boot f))"
  "topics_synced (sample_boot f) (\<lambda>_. Some 3) (\<lambda>_. Some 3)" "bePairsFault (sample_boot f) = f"
  "pair_symbol (beListings (sample_boot f)) ` set (active_pairs (beListings (sample_boot f))) = {''BTC-USDT''}"
proof -
  have act: "active_pairs (beListings (sample_boot f)) = [sample_pair]"
    by (simp add: active_pairs_def sample_boot_def sample_pair_def)
  show "calm (sample_boot None) cfg" by (simp add: calm_def sample_boot_def)
  show "bookable (beListings (sample_boot f))" by code_simp
  show "bePairsFault (sample_boot f) = f" by (simp add: sample_boot_def)
  have "SyncPartitions sample_admin CoinhubAllCurrentOrderTopics 1 (\<lambda>_. Some 3) = (None, \<lambda>_. Some 3)"
    by (simp add: SyncPartitions_def sample_admin_def CoinhubAllCurrentOrderTopics_def word_sle_eq word_sless_alt)
  moreover have "GetActivePairsCount (beCountFault (sample_boot f)) (beListings (sample_boot f)) = Inr 1"
    by (simp only: GetActivePairsCount_def act) (simp add: sample_boot_def)
  moreover have "beAdmin (sample_boot f) = sample_admin" by (simp add: sample_boot_def)
  ultimately show "topics_synced (sample_boot f) (\<lambda>_. Some 3) (\<lambda>_. Some 3)"
    by (simp add: topics_synced_def word_sless_alt)
  show "pair_symbol (beListings (sample_boot f)) ` set (active_pairs (beListings (sample_boot f))) = {''BTC-USDT''}"
    by (simp add: act) (simp add: pair_symbol_def symbol_of_def sample_boot_def sample_token_def sample_pair_def)
qed

lemma sample_up:
  "NewApplication (sample_boot None) cfg [engine_options] (\<lambda>_. Some 3) =
     Up (wired_application (sample_boot None) cfg engine_options :: int application, \<lambda>_. Some 3)"
proof -
  obtain me :: "int engine" where "boot_engine (sample_boot None) = Some me"
    by (rule boot_engine_bookable [OF sample_boot_facts(2,4)]) (simp add: sample_boot_def)
  with sample_boot_facts(1) [of cfg] sample_boot_facts(3) [of None] show ?thesis
    by (simp add: NewApplication_Up can_boot_def calm_def command_options_defs)
qed

subsection \<open>Properties\<close>

text \<open>C22: A process comes up exactly when each subsystem that its options wire can be opened and has the subsystems it
  rests on wired as well (the caches Redis; the engine and the brokers the repositories and the database); and then
  every pointer of the application is what the options and the configuration say, and only the topics were touched,
  when the brokers are wired.\<close>

theorem starts_exactly_when:
  fixes cfg :: configuration and app :: "'d::linordered_idom application"
  shows "NewApplication B cfg [opts] s = Up (app, s') \<longleftrightarrow>
     can_boot B (boot_engine B :: 'd engine option) cfg opts s s' \<and> app = wired_application B cfg opts"
  by (rule NewApplication_Up)

text \<open>When nothing outside fails and the listed symbols are usable, every command of the binary comes up, and the
  application has each pointer that the command reads.\<close>

theorem every_command_starts:
  assumes "opts \<in> set command_options" and "calm B cfg" and "bookable (beListings B)" and "topics_synced B s s1"
  shows "\<exists>app s'. (NewApplication B cfg [opts] s :: ('d::linordered_idom, 's) boot_state boot) = Up (app, s') \<and>
     command_has opts app"
proof -
  have f: "bePairsFault B = None" "beEngineKafka B = None" using assms(2) by (simp_all add: calm_def)
  obtain me :: "'d engine" where me: "boot_engine B = Some me" by (rule boot_engine_bookable [OF assms(3) f])
  let ?app = "wired_application B cfg opts :: 'd application"
  have "opts = api_options \<or> opts = migrate_options \<or> opts = worker_options \<or> opts = watcher_options \<or>
      opts = engine_options \<or> opts = projection_consumer_options \<or> opts = notification_consumer_options"
    using assms(1) by (simp add: command_options_def)
  note cases = this
  note none = assms(2) [unfolded calm_def]
  have "can_boot B (boot_engine B :: 'd engine option) cfg opts s (if SkipMessageBroker opts then s else s1)"
    using cases by (elim disjE; simp add: can_boot_def me none assms(4) command_options_defs)
  then have "NewApplication B cfg [opts] s = Up (?app, if SkipMessageBroker opts then s else s1)"
    by (simp add: NewApplication_Up)
  moreover have "command_has opts ?app"
    using cases
    by (elim disjE; simp add: command_has_def command_options_defs wired_application_def given_def has_database_def me)
  ultimately show ?thesis by blast
qed

theorem every_command_starts_witness:
  "\<exists>app s'. (NewApplication (sample_boot None) empty_configuration [api_options] (\<lambda>_. Some 3) ::
       (int, string \<Rightarrow> nat option) boot_state boot) = Up (app, s') \<and> command_has api_options app"
  by (rule every_command_starts [OF _ sample_boot_facts(1-3)]) (simp add: command_options_def)

text \<open>C18: A process whose pairs could be read has an engine that starts as the engine's step system does, with an empty
  book and an empty channel for each active pair, named by the two symbols of the pair's assets, and for no other.\<close>

theorem booted_engine_is_initial:
  assumes "NewApplication B cfg [opts] s = Up (app, s')" and "\<not> SkipMatchEngine opts" and "bePairsFault B = None"
    and "bookable (beListings B)"
  shows "\<exists>me. apOrderMatchEngine app = Some (me :: 'd::linordered_idom engine) \<and>
     sys_init \<lparr> sysEngine = me, sysDb = db, sysTopic = [], sysRouted = (\<lambda>_. []), sysDone = (\<lambda>_. []), sysTrades = [] \<rparr> \<and>
     (\<forall>x. meBooks me x = (if x \<in> pair_symbol (beListings B) ` set (active_pairs (beListings B))
            then Some (empty_book x) else None) \<and>
          has_worker x me = (x \<in> pair_symbol (beListings B) ` set (active_pairs (beListings B))))"
proof -
  from assms(1) have up: "can_boot B (boot_engine B :: 'd engine option) cfg opts s s'" "app = wired_application B cfg opts"
    by (simp_all add: NewApplication_Up)
  then obtain m0 :: "'d engine" where "boot_engine B = Some m0" using assms(2) by (auto simp: can_boot_def)
  then have k: "beEngineKafka B = None"
    by (cases "beEngineKafka B") (auto simp: boot_engine_def NewMatchEngine_def split: option.splits)
  obtain me :: "'d engine" where me: "boot_engine B = Some me" "meReaper me = []"
    "meBooks me = (\<lambda>x. if x \<in> pair_symbol (beListings B) ` set (active_pairs (beListings B)) then Some (empty_book x) else None)"
    "meRouter me = Some (\<lambda>x. if x \<in> pair_symbol (beListings B) ` set (active_pairs (beListings B)) then Some [] else None)"
    "\<exists>pairs. meBooks me = initializeOrderbooks pairs \<and> initializeOrderRouter pairs = Some (meRouter me)"
    by (rule boot_engine_bookable [OF assms(4,3) k])
  have "apOrderMatchEngine app = Some me" using up(2) assms(2) me(1) by (simp add: wired_application_def)
  then show ?thesis using me(2,5) by (auto simp: sys_init_def me(3,4) has_worker_def)
qed

theorem booted_engine_is_initial_witness:
  "\<exists>me. apOrderMatchEngine (wired_application (sample_boot None) empty_configuration engine_options) = Some (me :: int engine) \<and>
     meBooks me ''BTC-USDT'' = Some (empty_book ''BTC-USDT'') \<and> meBooks me ''USDT-BTC'' = None"
proof -
  have "\<not> SkipMatchEngine engine_options" by (simp add: command_options_defs)
  from booted_engine_is_initial [OF sample_up this sample_boot_facts(4,2), of empty_configuration no_rows]
  obtain me where "apOrderMatchEngine (wired_application (sample_boot None) empty_configuration engine_options) = Some (me :: int engine)"
    "\<forall>x. meBooks me x = (if x \<in> {''BTC-USDT''} then Some (empty_book x) else None)"
    unfolding sample_boot_facts(5) by blast
  then show ?thesis by simp
qed

text \<open>A start-up that cannot read the pairs goes on as if there were none: its engine has no book and no channel, and
  drops every order that is routed to it.\<close>

theorem failed_pair_query_is_not_noticed:
  assumes "NewApplication B cfg [opts] s = Up (app, s')" and "\<not> SkipMatchEngine opts" and "bePairsFault B = Some err"
  shows "\<exists>me. apOrderMatchEngine app = Some (me :: 'd::linordered_idom engine) \<and> meBooks me = Map.empty \<and>
     (\<forall>e n ev. routeOrderEventFanOut e n ev me = Sent me)"
proof -
  from assms(1) have up: "can_boot B (boot_engine B :: 'd engine option) cfg opts s s'" "app = wired_application B cfg opts"
    by (simp_all add: NewApplication_Up)
  then obtain me :: "'d engine" where me: "boot_engine B = Some me" using assms(2) by (auto simp: can_boot_def)
  have "meBooks me = Map.empty \<and> meRouter me = Some Map.empty"
    using me by (auto simp: boot_engine_def GetActivePairs_def assms(3) NewMatchEngine_def initializeOrderbooks_def
        initializeOrderRouter_def split: option.splits)
  moreover from this have "routeOrderEventFanOut e n ev me = Sent me" for e n ev
    by (simp add: routeOrderEventFanOut_def addOrder_def)
  moreover have "apOrderMatchEngine app = Some me" using up(2) assms(2) me by (simp add: wired_application_def)
  ultimately show ?thesis by auto
qed

theorem failed_pair_query_is_not_noticed_witness:
  "\<exists>me. apOrderMatchEngine (wired_application (sample_boot (Some ''down'')) empty_configuration engine_options) =
      Some (me :: int engine) \<and> routeOrderEventFanOut sample_env 1 sample_event me = Sent me"
proof -
  let ?B = "sample_boot (Some ''down'')"
  have "boot_engine ?B = Some \<lparr> meBooks = Map.empty, meRouter = Some Map.empty, meReaper = ([] :: int expiryEntity list) \<rparr>"
    by (simp add: boot_engine_def sample_boot_def GetActivePairs_def NewMatchEngine_def initializeOrderRouter_def
        initializeOrderbooks_def initializeReaper_def)
  then have up: "NewApplication ?B empty_configuration [engine_options] (\<lambda>_. Some 3) =
      Up (wired_application ?B empty_configuration engine_options :: int application, \<lambda>_. Some 3)"
    using sample_boot_facts(3) [of "Some ''down''"]
    by (simp add: NewApplication_Up can_boot_def command_options_defs) (simp add: sample_boot_def)
  have "\<not> SkipMatchEngine engine_options" by (simp add: command_options_defs)
  from failed_pair_query_is_not_noticed [OF up this sample_boot_facts(4)] show ?thesis by blast
qed

text \<open>Shutting down closes each connection the application holds exactly once, except the one of the task inspector,
  which stays open, and the database's when its pool cannot be had; it closes nothing it does not hold.\<close>

theorem shutdown_leaves_the_inspector:
  "distinct (Shutdown consumerSet sqlErr app) \<and>
   set (Shutdown consumerSet sqlErr app) =
     {c. opened consumerSet app c \<and> c \<noteq> AsynqInspectorConn \<and> \<not> (sqlErr \<and> c = MySqlConn)}"
  unfolding Shutdown_filter set_filter using all_conns by (intro conjI distinct_filter) (simp, blast)

text \<open>A migration that fails is not reported: the command still seeds the three roles and returns, the outcome of the
  process is that of a successful migration, and without a signal the process does not end.\<close>

theorem failed_migration_is_not_reported:
  assumes "calm B cfg" and "mvAutoMigrate E mgModels = Some err" and "mvRolesFault E = None"
  shows "RunMigrate B E cfg broker True seedFlag (udb, s) =
       RunMigrate B (E\<lparr>mvAutoMigrate := (\<lambda>_. None)\<rparr>) cfg broker True seedFlag (udb, s) \<and>
     (\<exists>s1. RunMigrate B E cfg broker True seedFlag (udb, s) =
        (Returned, udb\<lparr>udRoles := insert_roles (mvFirstRoleID E) [RoleUser, RoleAdmin, RoleSystem] (udRoles udb)\<rparr>, s1)) \<and>
     Execute cfg None False (fst (RunMigrate B E cfg broker True seedFlag (udb, s))) = WaitsForSignal"
proof -
  let ?app = "wired_application B cfg migrate_options :: int application"
  have "can_boot B (boot_engine B :: int engine option) cfg migrate_options broker broker"
    using assms(1) by (simp add: can_boot_def calm_def migrate_options_def all_wired_def)
  then have up: "NewApplication B cfg [migrate_options] broker = Up (?app, broker)" by (simp add: NewApplication_Up)
  show ?thesis by (simp add: RunMigrate_def up role_Seed_def assms(3) Execute_def Let_def split: prod.split)
qed


definition sample_migration :: "nat migrate_env" where
  "sample_migration = \<lparr> mvAutoMigrate = (\<lambda>_. Some ''column type''), mvRolesFault = None, mvFirstRoleID = 1,
     mvGlob = (\<lambda>_. Inr [''000_roles.sql'']), mvReadFile = (\<lambda>_. Inr ''sql''), mvExec = (\<lambda>_ n. (None, n + 1)) \<rparr>"

theorem failed_migration_is_not_reported_witness:
  "Execute empty_configuration None False (fst (RunMigrate (sample_boot None) sample_migration empty_configuration
     (\<lambda>_. Some 3) True True (\<lparr> udRoles = [], udUsers = [], udWallets = [] \<rparr>, 0))) = WaitsForSignal"
proof -
  have "mvAutoMigrate sample_migration mgModels = Some ''column type''" "mvRolesFault sample_migration = None"
    by (simp_all add: sample_migration_def)
  from failed_migration_is_not_reported [OF sample_boot_facts(1) this] show ?thesis by blast
qed

end
