(* ===== verification/Consumer_Runner.thy ===== *)
theory Consumer_Runner
  imports Event_Types "HOL-Library.Word"
begin

text \<open>
  \<^verbatim>\<open>internal/infrastructure/kafka/consumer/consumer.go\<close>: the runner every consumer process is built on. The
  Kafka client, the JSON decoder and the handler are parameters: \<open>unmarshal\<close> decodes a payload,
  \<open>handler\<close> is the message handler on a state \<open>'s\<close> of its own, \<open>stopped k\<close> says whether the context ends
  while the runner backs off after attempt \<open>k\<close>, \<open>produce\<close> is the error of the dead-letter producer. An
  error is its text. The counters are \<^verbatim>\<open>uint64\<close> and wrap.
\<close>

record 'b kgo_record =
  rcTopic :: string
  rcKey :: string
  rcValue :: 'b
  rcHeaders :: "(string \<times> string) list"

record runner =
  rnName :: string
  rnMaxRetries :: int
  rnDlqTopic :: string
  rnHasDlq :: bool
  rnProcessed :: "64 word"
  rnRetried :: "64 word"
  rnDlqMessages :: "64 word"
  rnFailed :: "64 word"

definition NewRunner :: "string \<Rightarrow> int \<Rightarrow> runner" where
  "NewRunner name maxRetries = \<lparr> rnName = name, rnMaxRetries = maxRetries, rnDlqTopic = [], rnHasDlq = False,
     rnProcessed = 0, rnRetried = 0, rnDlqMessages = 0, rnFailed = 0 \<rparr>"

definition WithDLQ :: "bool \<Rightarrow> string \<Rightarrow> runner \<Rightarrow> runner" where
  "WithDLQ dlqProducer dlqTopic r = r\<lparr>rnHasDlq := dlqProducer, rnDlqTopic := dlqTopic\<rparr>"

text \<open>What the runner is connected to.\<close>

record ('d, 'b, 's) runner_io =
  ioUnmarshal :: "'b \<Rightarrow> string + 'd order_event"
  ioHandler :: "'d order_event \<Rightarrow> 'b kgo_record \<Rightarrow> 's \<Rightarrow> string option \<times> 's"
  ioStopped :: "nat \<Rightarrow> bool"
  ioProduce :: "'b kgo_record \<Rightarrow> string option"

subsection \<open>Dead letters\<close>

definition dead_letter :: "string \<Rightarrow> string \<Rightarrow> 'b kgo_record \<Rightarrow> 'b kgo_record" where
  "dead_letter dlqTopic failure rec = \<lparr> rcTopic = dlqTopic, rcKey = rcKey rec, rcValue = rcValue rec,
     rcHeaders = rcHeaders rec @ [(''x_failure_reason'', failure), (''x_source_topic'', rcTopic rec)] \<rparr>"

text \<open>The result of a call: its error, the runner, and the dead letters the producer has accepted.\<close>

definition sendToDLQ ::
  "('d, 'b, 's) runner_io \<Rightarrow> 'b kgo_record \<Rightarrow> string \<Rightarrow> runner \<Rightarrow> string option \<times> runner \<times> 'b kgo_record list" where
  "sendToDLQ io rec failure r =
     (if \<not> rnHasDlq r \<or> rnDlqTopic r = [] then (Some failure, r, [])
      else let dlqRecord = dead_letter (rnDlqTopic r) failure rec
           in case ioProduce io dlqRecord of
                Some err \<Rightarrow> (Some (failure @ [CHR 0x0A] @ err), r, [])
              | None \<Rightarrow> (None, r\<lparr>rnDlqMessages := rnDlqMessages r + 1\<rparr>, [dlqRecord]))"

subsection \<open>One record\<close>

text \<open>
  The attempts from \<open>attempt\<close> on, which the code counts from 0 up to and including \<^verbatim>\<open>maxRetries\<close>; with a negative
  limit the loop body never runs.
\<close>

function attempts ::
  "('d, 'b, 's) runner_io \<Rightarrow> 'd order_event \<Rightarrow> 'b kgo_record \<Rightarrow> nat \<Rightarrow> runner \<Rightarrow> 's \<Rightarrow>
   (string option \<times> runner \<times> 'b kgo_record list) \<times> 's" where
  "attempts io event rec attempt r s =
     (if int attempt \<le> rnMaxRetries r then
        (case ioHandler io event rec s of
           (None, s') \<Rightarrow> ((None, r, []), s')
         | (Some err, s') \<Rightarrow>
             (if int attempt = rnMaxRetries r then (sendToDLQ io rec err r, s')
              else let r' = r\<lparr>rnRetried := rnRetried r + 1\<rparr>
                   in if ioStopped io attempt then ((Some ''context canceled'', r', []), s')
                      else attempts io event rec (Suc attempt) r' s'))
      else ((None, r, []), s))"
  by pat_completeness auto
termination
  by (relation "measure (\<lambda>(io, event, rec, attempt, r, s). nat (rnMaxRetries r + 1 - int attempt))") auto

declare attempts.simps [simp del]

definition processRecord ::
  "('d, 'b, 's) runner_io \<Rightarrow> 'b kgo_record \<Rightarrow> runner \<Rightarrow> 's \<Rightarrow> (string option \<times> runner \<times> 'b kgo_record list) \<times> 's" where
  "processRecord io rec r s =
     (case ioUnmarshal io (rcValue rec) of
        Inl _ \<Rightarrow> (sendToDLQ io rec ''invalid payload'' r, s)
      | Inr event \<Rightarrow>
          if hEventID (eHeader event) = [] then (sendToDLQ io rec ''missing event_id'' r, s)
          else attempts io event rec 0 r s)"

subsection \<open>The poll loop\<close>

text \<open>
  The records of one poll, in sequence: the runner, the handler's state, the records to commit and the dead
  letters. A nil record is skipped.
\<close>

fun process_batch ::
  "('d, 'b, 's) runner_io \<Rightarrow> 'b kgo_record option list \<Rightarrow> runner \<Rightarrow> 's \<Rightarrow>
   runner \<times> 's \<times> 'b kgo_record list \<times> 'b kgo_record list" where
  "process_batch io [] r s = (r, s, [], [])"
| "process_batch io (None # recs) r s = process_batch io recs r s"
| "process_batch io (Some rec # recs) r s =
     (case processRecord io rec r s of
        ((Some err, r1, dead), s1) \<Rightarrow>
          (case process_batch io recs (r1\<lparr>rnFailed := rnFailed r1 + 1\<rparr>) s1 of
             (r2, s2, toCommit, dead2) \<Rightarrow> (r2, s2, toCommit, dead @ dead2))
      | ((None, r1, dead), s1) \<Rightarrow>
          (case process_batch io recs (r1\<lparr>rnProcessed := rnProcessed r1 + 1\<rparr>) s1 of
             (r2, s2, toCommit, dead2) \<Rightarrow> (r2, s2, rec # toCommit, dead @ dead2)))"

text \<open>One round: the fetched records, then one commit of those that went through; \<open>commitErr\<close> is its error.\<close>

definition poll_round ::
  "('d, 'b, 's) runner_io \<Rightarrow> string option \<Rightarrow> 'b kgo_record option list \<Rightarrow> runner \<Rightarrow> 's \<Rightarrow>
   runner \<times> 's \<times> 'b kgo_record list \<times> 'b kgo_record list" where
  "poll_round io commitErr recs r s =
     (case process_batch io recs r s of
        (r1, s1, toCommit, dead) \<Rightarrow>
          if toCommit = [] then (r1, s1, [], dead)
          else case commitErr of
                 None \<Rightarrow> (r1, s1, toCommit, dead)
               | Some _ \<Rightarrow> (r1\<lparr>rnFailed := rnFailed r1 + of_nat (length toCommit)\<rparr>, s1, [], dead))"

text \<open>\<^verbatim>\<open>Run\<close>: the rounds until the context ends; the committed records and the dead letters of all of them.\<close>

fun Run ::
  "('d, 'b, 's) runner_io \<Rightarrow> (string option \<times> 'b kgo_record option list) list \<Rightarrow> runner \<Rightarrow> 's \<Rightarrow>
   runner \<times> 's \<times> 'b kgo_record list \<times> 'b kgo_record list" where
  "Run io [] r s = (r, s, [], [])"
| "Run io ((commitErr, recs) # rounds) r s =
     (case poll_round io commitErr recs r s of
        (r1, s1, committed, dead) \<Rightarrow>
          (case Run io rounds r1 s1 of
             (r2, s2, committed2, dead2) \<Rightarrow> (r2, s2, committed @ committed2, dead @ dead2)))"

subsection \<open>Lemmas\<close>

text \<open>The handler's state after \<open>k\<close> calls for an event, and the error of the call after those.\<close>

definition after_calls :: "('d, 'b, 's) runner_io \<Rightarrow> 'd order_event \<Rightarrow> 'b kgo_record \<Rightarrow> nat \<Rightarrow> 's \<Rightarrow> 's" where
  "after_calls io event rec k = (\<lambda>s. snd (ioHandler io event rec s)) ^^ k"

definition call_error :: "('d, 'b, 's) runner_io \<Rightarrow> 'd order_event \<Rightarrow> 'b kgo_record \<Rightarrow> nat \<Rightarrow> 's \<Rightarrow> string option" where
  "call_error io event rec k s = fst (ioHandler io event rec (after_calls io event rec k s))"

lemma after_calls_Suc:
  "ioHandler io event rec s = (x, s1) \<Longrightarrow> after_calls io event rec (Suc k) s = after_calls io event rec k s1"
  by (simp add: after_calls_def funpow_Suc_right del: funpow.simps)

lemma call_error_Suc:
  "ioHandler io event rec s = (x, s1) \<Longrightarrow> call_error io event rec (Suc k) s = call_error io event rec k s1"
  by (simp add: call_error_def after_calls_Suc)

lemma call_error_0: "ioHandler io event rec s = (x, s1) \<Longrightarrow> call_error io event rec 0 s = x"
  by (simp add: call_error_def after_calls_def)

lemma sendToDLQ_cases:
  "sendToDLQ io rec failure r = (None, r', dead) \<Longrightarrow> \<exists>reason. dead = [dead_letter (rnDlqTopic r) reason rec]"
  "sendToDLQ io rec failure r = (Some err, r', dead) \<Longrightarrow> dead = []"
  "sendToDLQ io rec failure r = (x, r', dead) \<Longrightarrow> rnDlqTopic r' = rnDlqTopic r \<and> rnMaxRetries r' = rnMaxRetries r"
  by (auto simp: sendToDLQ_def Let_def split: if_splits option.splits)

text \<open>
  What the attempts amount to: \<open>k\<close> calls, all of them failed but perhaps the last; without an error
  either the last call succeeded, or the limit is reached and the record is a dead letter.
\<close>

definition attempted ::
  "('d, 'b, 's) runner_io \<Rightarrow> 'd order_event \<Rightarrow> 'b kgo_record \<Rightarrow> runner \<Rightarrow> nat \<Rightarrow> 's \<Rightarrow>
   (string option \<times> runner \<times> 'b kgo_record list) \<times> 's \<Rightarrow> bool" where
  "attempted io event rec r left s res = (case res of ((err, r', dead), s') \<Rightarrow>
     \<exists>k \<le> left. s' = after_calls io event rec k s \<and> 0 < k \<and> (\<forall>i. Suc i < k \<longrightarrow> call_error io event rec i s \<noteq> None) \<and>
       (err = None \<longrightarrow> (call_error io event rec (k - 1) s = None \<and> dead = []) \<or>
          (k = left \<and> call_error io event rec (k - 1) s \<noteq> None \<and>
             (\<exists>reason. dead = [dead_letter (rnDlqTopic r) reason rec]))) \<and>
       (err \<noteq> None \<longrightarrow> dead = [] \<and> call_error io event rec (k - 1) s \<noteq> None))"

lemma attempted_Suc:
  assumes "ioHandler io event rec s = (Some err, s1)" and "attempted io event rec r left s1 res"
  shows "attempted io event rec r (Suc left) s res"
proof -
  obtain e r' dead s' where res: "res = ((e, r', dead), s')" by (metis surj_pair)
  from assms(2) obtain k where k: "k \<le> left" "s' = after_calls io event rec k s1" "0 < k"
    "\<forall>i. Suc i < k \<longrightarrow> call_error io event rec i s1 \<noteq> None"
    "e = None \<longrightarrow> (call_error io event rec (k - 1) s1 = None \<and> dead = []) \<or>
          (k = left \<and> call_error io event rec (k - 1) s1 \<noteq> None \<and> (\<exists>reason. dead = [dead_letter (rnDlqTopic r) reason rec]))"
    "e \<noteq> None \<longrightarrow> dead = [] \<and> call_error io event rec (k - 1) s1 \<noteq> None"
    unfolding attempted_def res by auto
  note suc = call_error_Suc [OF assms(1)] after_calls_Suc [OF assms(1)] call_error_0 [OF assms(1)]
  have last: "call_error io event rec (Suc k - 1) s = call_error io event rec (k - 1) s1"
    using k(3) suc(1) [of "k - 1"] by simp
  have "call_error io event rec i s \<noteq> None" if "Suc i < Suc k" for i
    using that k(4) suc by (cases i) auto
  then show ?thesis unfolding attempted_def res split
    using k last suc(2) [of k] by (intro exI [of _ "Suc k"]) auto
qed

lemma attempts_attempted:
  assumes "int a \<le> rnMaxRetries r"
  shows "attempted io event rec r (nat (rnMaxRetries r + 1 - int a)) s (attempts io event rec a r s)"
  using assms
proof (induction io event rec a r s rule: attempts.induct)
  case (1 io event rec a r s)
  obtain x s1 where h: "ioHandler io event rec s = (x, s1)" by fastforce
  note first = call_error_0 [OF h] after_calls_Suc [OF h, of 0]
  let ?left = "nat (rnMaxRetries r + 1 - int a)"
  have left: "1 \<le> ?left" using 1(2) by simp
  show ?case
  proof (cases x)
    case None
    then have eq: "attempts io event rec a r s = ((None, r, []), s1)" using 1(2) h by (subst attempts.simps) simp
    show ?thesis unfolding eq attempted_def split
      using first left None by (intro exI [of _ "1::nat"]) (simp add: after_calls_def)
  next
    case (Some err)
    show ?thesis
    proof (cases "int a = rnMaxRetries r")
      case True
      then have eq: "attempts io event rec a r s = (sendToDLQ io rec err r, s1)"
        using h Some by (subst attempts.simps) simp
      obtain e r' dead where d: "sendToDLQ io rec err r = (e, r', dead)" by (metis surj_pair)
      show ?thesis unfolding eq attempted_def d split
        using first left Some True d sendToDLQ_cases(1,2) [of io rec err r]
        by (intro exI [of _ "1::nat"]) (cases e; auto simp: after_calls_def)
    next
      case False
      let ?r' = "r\<lparr>rnRetried := rnRetried r + 1\<rparr>"
      have more: "int (Suc a) \<le> rnMaxRetries ?r'" using 1(2) False by simp
      show ?thesis
      proof (cases "ioStopped io a")
        case True
        then have eq: "attempts io event rec a r s = ((Some ''context canceled'', ?r', []), s1)"
          using 1(2) h Some False by (subst attempts.simps) (simp add: Let_def)
        show ?thesis unfolding eq attempted_def split
          using first left Some by (intro exI [of _ "1::nat"]) (simp add: after_calls_def)
      next
        case go: False
        then have eq: "attempts io event rec a r s = attempts io event rec (Suc a) ?r' s1"
          using 1(2) h Some False by (subst attempts.simps) (simp add: Let_def)
        have "attempted io event rec ?r' (nat (rnMaxRetries ?r' + 1 - int (Suc a))) s1 (attempts io event rec (Suc a) ?r' s1)"
          by (rule 1(1) [OF 1(2) h [symmetric] Some False refl go more])
        then have "attempted io event rec r (nat (rnMaxRetries r - int a)) s1 (attempts io event rec a r s)"
          unfolding eq by (simp add: attempted_def)
        moreover have "Suc (nat (rnMaxRetries r - int a)) = nat (rnMaxRetries r + 1 - int a)" using 1(2) by linarith
        ultimately show ?thesis using attempted_Suc [OF h [unfolded Some]] by metis
      qed
    qed
  qed
qed


subsection \<open>What a run amounts to\<close>

definition fetched :: "(string option \<times> 'b kgo_record option list) list \<Rightarrow> 'b kgo_record set" where
  "fetched rounds = {rec. \<exists>(commitErr, recs) \<in> set rounds. Some rec \<in> set recs}"

text \<open>
  A run from runner \<open>r\<close> and state \<open>s\<close> has an outcome: the handler's state keeps \<open>Inv\<close> and whatever was
  \<open>Done\<close>, each record that went through is done or a dead letter, and without a producer there are no dead letters.
\<close>

definition outcome :: "('s \<Rightarrow> bool) \<Rightarrow> ('b kgo_record \<Rightarrow> 's \<Rightarrow> bool) \<Rightarrow> runner \<Rightarrow> 's \<Rightarrow>
   runner \<times> 's \<times> 'b kgo_record list \<times> 'b kgo_record list \<Rightarrow> bool" where
  "outcome Inv Done r s res = (case res of (r', s', through, dead) \<Rightarrow>
     Inv s' \<and> (\<forall>rec. Done rec s \<longrightarrow> Done rec s') \<and>
     rnDlqTopic r' = rnDlqTopic r \<and> rnMaxRetries r' = rnMaxRetries r \<and> rnHasDlq r' = rnHasDlq r \<and>
     (\<not> rnHasDlq r \<longrightarrow> dead = []) \<and>
     (\<forall>rec \<in> set through. Done rec s' \<or> (\<exists>reason. dead_letter (rnDlqTopic r) reason rec \<in> set dead)))"

lemma outcome_refl: "Inv s \<Longrightarrow> outcome Inv Done r s (r, s, [], [])"
  by (simp add: outcome_def)

lemma outcome_trans:
  assumes "outcome Inv Done r s (r1, s1, c1, d1)" and "outcome Inv Done r1 s1 (r2, s2, c2, d2)"
  shows "outcome Inv Done r s (r2, s2, c1 @ c2, d1 @ d2)"
  using assms by (simp add: outcome_def) blast

text \<open>Counting does not matter.\<close>

lemma outcome_counts [simp]:
  "outcome Inv Done (r\<lparr>rnRetried := n\<rparr>) s res = outcome Inv Done r s res"
  "outcome Inv Done r s (r'\<lparr>rnRetried := n\<rparr>, rest) = outcome Inv Done r s (r', rest)"
  "outcome Inv Done r s (r'\<lparr>rnProcessed := n\<rparr>, rest) = outcome Inv Done r s (r', rest)"
  "outcome Inv Done r s (r'\<lparr>rnFailed := n\<rparr>, rest) = outcome Inv Done r s (r', rest)"
  "outcome Inv Done r s (r'\<lparr>rnDlqMessages := n\<rparr>, rest) = outcome Inv Done r s (r', rest)"
  by (auto simp: outcome_def split: prod.split)

lemma outcome_fewer: "outcome Inv Done r s (r', s', c, d) \<Longrightarrow> outcome Inv Done r s (r', s', [], d)"
  by (simp add: outcome_def)

text \<open>What the runner asks of a handler, on the records \<open>Ok\<close> it may be given: every call keeps the invariant and what is
  done, and a call without an error has done its record.\<close>

locale record_handler =
  fixes io :: "('d, 'b, 's) runner_io" and Ok :: "'b kgo_record \<Rightarrow> bool" and Inv :: "'s \<Rightarrow> bool"
    and Done :: "'b kgo_record \<Rightarrow> 's \<Rightarrow> bool"
  assumes handled: "Inv s \<Longrightarrow> Ok rec \<Longrightarrow> ioUnmarshal io (rcValue rec) = Inr event \<Longrightarrow> hEventID (eHeader event) \<noteq> [] \<Longrightarrow>
    ioHandler io event rec s = (err, s') \<Longrightarrow>
    Inv s' \<and> (\<forall>rc. Done rc s \<longrightarrow> Done rc s') \<and> (err = None \<longrightarrow> Done rec s')"
begin

lemma sendToDLQ_outcome:
  assumes "Inv s" and "sendToDLQ io rec failure r = (err, r', dead)"
  shows "outcome Inv Done r s (r', s, if err = None then [rec] else [], dead)"
  using assms by (auto simp: sendToDLQ_def outcome_def Let_def split: if_splits option.splits)

lemma call_outcome:
  assumes "Inv s" and "Ok rec" and "ioUnmarshal io (rcValue rec) = Inr event" and "hEventID (eHeader event) \<noteq> []"
    and "ioHandler io event rec s = (err, s')"
  shows "outcome Inv Done r s (r, s', if err = None then [rec] else [], [])" and "Inv s'"
  using handled [OF assms] by (simp_all add: outcome_def)

lemma attempts_outcome:
  assumes "attempts io event rec a r s = ((err, r', dead), s')" and "int a \<le> rnMaxRetries r" and "Inv s" and "Ok rec"
    and "ioUnmarshal io (rcValue rec) = Inr event" and "hEventID (eHeader event) \<noteq> []"
  shows "outcome Inv Done r s (r', s', if err = None then [rec] else [], dead)"
  using assms
proof (induction "nat (rnMaxRetries r + 1 - int a)" arbitrary: a r s)
  case (Suc n)
  obtain x s1 where h: "ioHandler io event rec s = (x, s1)" by fastforce
  note call = call_outcome(1) [OF Suc(5-8) h, of r] call_outcome(2) [OF Suc(5-8) h]
  show ?case
  proof (cases x)
    case None
    then show ?thesis using Suc(3,4) h call by (subst (asm) attempts.simps) auto
  next
    case (Some e)
    let ?r' = "r\<lparr>rnRetried := rnRetried r + 1\<rparr>"
    consider "int a = rnMaxRetries r" | "int a < rnMaxRetries r" "ioStopped io a"
      | "int a < rnMaxRetries r" "\<not> ioStopped io a" using Suc(4) by fastforce
    then show ?thesis
    proof cases
      case 1
      then have "sendToDLQ io rec e r = (err, r', dead)" "s' = s1"
        using Suc(3) h Some by (subst (asm) attempts.simps; simp)+
      from outcome_trans [OF call(1) sendToDLQ_outcome [OF call(2) this(1)]] this(2) Some show ?thesis by simp
    next
      case 2
      then show ?thesis using Suc(3) h Some call(1) by (subst (asm) attempts.simps) (auto simp: Let_def)
    next
      case 3
      then have "attempts io event rec (Suc a) ?r' s1 = ((err, r', dead), s')"
        using Suc(3) h Some by (subst (asm) attempts.simps) (simp add: Let_def)
      moreover have "n = nat (rnMaxRetries ?r' + 1 - int (Suc a))" using Suc(2) 3(1) by simp
      moreover have "int (Suc a) \<le> rnMaxRetries ?r'" using 3(1) by simp
      ultimately have "outcome Inv Done r s1 (r', s', if err = None then [rec] else [], dead)"
        using Suc(1) [of ?r' "Suc a"] call(2) Suc(6-8) by simp
      from outcome_trans [OF call(1) this] Some show ?thesis by simp
    qed
  qed
qed simp

lemma processRecord_outcome:
  assumes "processRecord io rec r s = ((err, r', dead), s')" and "0 \<le> rnMaxRetries r" and "Inv s" and "Ok rec"
  shows "outcome Inv Done r s (r', s', if err = None then [rec] else [], dead)"
proof (cases "ioUnmarshal io (rcValue rec)")
  case (Inl e)
  then show ?thesis using assms(1) sendToDLQ_outcome [OF assms(3), of rec "''invalid payload''" r err r' dead]
    by (auto simp: processRecord_def)
next
  case (Inr event)
  show ?thesis
  proof (cases "hEventID (eHeader event) = []")
    case True
    then show ?thesis using assms(1) Inr sendToDLQ_outcome [OF assms(3), of rec "''missing event_id''" r err r' dead]
      by (auto simp: processRecord_def)
  next
    case False
    then have "attempts io event rec 0 r s = ((err, r', dead), s')" using assms(1) Inr by (simp add: processRecord_def)
    from attempts_outcome [OF this _ assms(3,4) Inr False] assms(2) show ?thesis by simp
  qed
qed

lemma process_batch_outcome:
  "0 \<le> rnMaxRetries r \<Longrightarrow> Inv s \<Longrightarrow> (\<And>rec. Some rec \<in> set recs \<Longrightarrow> Ok rec) \<Longrightarrow>
     outcome Inv Done r s (process_batch io recs r s)"
proof (induction recs arbitrary: r s)
  case (Cons x recs)
  show ?case
  proof (cases x)
    case (Some rec)
    obtain err r1 dead1 s1 where p: "processRecord io rec r s = ((err, r1, dead1), s1)" by (metis surj_pair)
    have "Ok rec" using Cons(4) Some by simp
    note one = processRecord_outcome [OF p Cons(2,3) this]
    let ?r1 = "if err = None then r1\<lparr>rnProcessed := rnProcessed r1 + 1\<rparr> else r1\<lparr>rnFailed := rnFailed r1 + 1\<rparr>"
    have "Inv s1" "0 \<le> rnMaxRetries ?r1" using one Cons(2) by (auto simp: outcome_def)
    with Cons(1,4) have rest: "outcome Inv Done ?r1 s1 (process_batch io recs ?r1 s1)" by simp
    obtain r2 s2 c2 d2 where b: "process_batch io recs ?r1 s1 = (r2, s2, c2, d2)" by (metis surj_pair)
    have "outcome Inv Done r s (?r1, s1, if err = None then [rec] else [], dead1)" using one by (cases err) simp_all
    from outcome_trans [OF this rest [unfolded b]] b p Some show ?thesis by (cases err) auto
  qed (use Cons in simp)
qed (simp add: outcome_refl)

lemma poll_round_outcome:
  assumes "0 \<le> rnMaxRetries r" and "Inv s" and "\<And>rec. Some rec \<in> set recs \<Longrightarrow> Ok rec"
  shows "outcome Inv Done r s (poll_round io commitErr recs r s)"
proof -
  obtain r1 s1 c1 d1 where b: "process_batch io recs r s = (r1, s1, c1, d1)" by (metis surj_pair)
  then have "outcome Inv Done r s (r1, s1, c1, d1)" using process_batch_outcome [OF assms, of recs] by simp
  then show ?thesis using outcome_fewer by (fastforce simp: poll_round_def b split: option.split)
qed

lemma Run_outcome:
  "0 \<le> rnMaxRetries r \<Longrightarrow> Inv s \<Longrightarrow> (\<And>rec. rec \<in> fetched rounds \<Longrightarrow> Ok rec) \<Longrightarrow>
     outcome Inv Done r s (Run io rounds r s)"
proof (induction rounds arbitrary: r s)
  case (Cons x rounds)
  obtain ce recs where x: "x = (ce, recs)" by fastforce
  obtain r1 s1 c1 d1 where p: "poll_round io ce recs r s = (r1, s1, c1, d1)" by (metis surj_pair)
  obtain r2 s2 c2 d2 where rest: "Run io rounds r1 s1 = (r2, s2, c2, d2)" by (metis surj_pair)
  have one: "outcome Inv Done r s (r1, s1, c1, d1)" 
    using poll_round_outcome [OF Cons(2,3), of recs ce] Cons(4) p by (simp add: x fetched_def)
  then have "0 \<le> rnMaxRetries r1" "Inv s1" using Cons(2) by (auto simp: outcome_def)
  moreover have "rec \<in> fetched rounds \<Longrightarrow> Ok rec" for rec using Cons(4) by (auto simp: fetched_def)
  ultimately have "outcome Inv Done r1 s1 (r2, s2, c2, d2)" using Cons(1) [of r1 s1] by (simp add: rest)
  from outcome_trans [OF one this] show ?case by (simp add: x p rest)
qed (simp add: outcome_refl)

end

text \<open>The same connections with a log of the handler's calls and their outcomes: a record is done when the log has a
  call for it that succeeded.\<close>

definition logged :: "('d, 'b, 's) runner_io \<Rightarrow>
   ('d, 'b, 's \<times> ('b kgo_record \<times> string option) list) runner_io" where
  "logged io = \<lparr> ioUnmarshal = ioUnmarshal io,
     ioHandler = (\<lambda>event rec (s, log). case ioHandler io event rec s of (err, s') \<Rightarrow> (err, (s', log @ [(rec, err)]))),
     ioStopped = ioStopped io, ioProduce = ioProduce io \<rparr>"

interpretation call_log: record_handler "logged io" "\<lambda>_. True" "\<lambda>_. True" "\<lambda>rec (s, log). (rec, None) \<in> set log" for io
  by unfold_locales (auto simp: logged_def split: prod.splits)

text \<open>The log does not change the run.\<close>

definition forget :: "'x \<times> ('s \<times> 'l) \<times> 'c \<Rightarrow> 'x \<times> 's \<times> 'c" where
  "forget res = (case res of (r, (s, log), rest) \<Rightarrow> (r, s, rest))"

lemma sendToDLQ_logged: "sendToDLQ (logged io) = sendToDLQ io"
  by (intro ext) (simp add: sendToDLQ_def logged_def)

lemma attempts_logged:
  "\<exists>log'. attempts (logged io) event rec a r (s, log) =
     (fst (attempts io event rec a r s), (snd (attempts io event rec a r s), log'))"
proof (induction io event rec a r s arbitrary: log rule: attempts.induct)
  case (1 io event rec a r s)
  obtain x s1 where h: "ioHandler io event rec s = (x, s1)" by fastforce
  then have hl: "ioHandler (logged io) event rec (s, log) = (x, (s1, log @ [(rec, x)]))" by (simp add: logged_def)
  have st: "ioStopped (logged io) = ioStopped io" by (simp add: logged_def)
  consider "int a > rnMaxRetries r" | "int a \<le> rnMaxRetries r" "x = None"
    | e where "x = Some e" "int a = rnMaxRetries r"
    | e where "x = Some e" "int a < rnMaxRetries r" "ioStopped io a"
    | e where "x = Some e" "int a < rnMaxRetries r" "\<not> ioStopped io a" by (cases x) fastforce+
  then show ?case
  proof cases
    case (5 e)
    let ?r' = "r\<lparr>rnRetried := rnRetried r + 1\<rparr>"
    have "attempts io event rec a r s = attempts io event rec (Suc a) ?r' s1"
      "attempts (logged io) event rec a r (s, log) =
         attempts (logged io) event rec (Suc a) ?r' (s1, log @ [(rec, x)])"
      using 5 h hl st by (subst attempts.simps; simp add: Let_def)+
    moreover obtain log' where "attempts (logged io) event rec (Suc a) ?r' (s1, log @ [(rec, x)]) =
        (fst (attempts io event rec (Suc a) ?r' s1), (snd (attempts io event rec (Suc a) ?r' s1), log'))"
      using 1(1) [OF _ h [symmetric] 5(1) _ refl 5(3)] 5(2) by fastforce
    ultimately show ?thesis by simp
  qed (subst attempts.simps, subst (2 3) attempts.simps, simp add: h hl st Let_def sendToDLQ_logged)+
qed

lemma processRecord_logged:
  "\<exists>log'. processRecord (logged io) rec r (s, log) = (fst (processRecord io rec r s), (snd (processRecord io rec r s), log'))"
proof -
  have "ioUnmarshal (logged io) = ioUnmarshal io" by (simp add: logged_def)
  then show ?thesis using attempts_logged [of io _ rec 0 r s log]
    by (auto simp: processRecord_def sendToDLQ_logged split: sum.split)
qed

lemma process_batch_logged:
  "forget (process_batch (logged io) recs r (s, log)) = process_batch io recs r s"
proof (induction recs arbitrary: r s log)
  case (Cons x recs)
  show ?case
  proof (cases x)
    case (Some rec)
    obtain err r1 d1 s1 where p: "processRecord io rec r s = ((err, r1, d1), s1)" by (metis surj_pair)
    obtain log1 where "processRecord (logged io) rec r (s, log) = ((err, r1, d1), (s1, log1))"
      using processRecord_logged [of io rec r s log] p by auto
    with p Some show ?thesis using Cons [of _ s1 log1, symmetric]
      by (cases err) (simp_all add: forget_def split: prod.split)
  qed (simp add: Cons)
qed (simp add: forget_def)

lemma poll_round_logged: "forget (poll_round (logged io) ce recs r (s, log)) = poll_round io ce recs r s"
  using process_batch_logged [of io recs r s log, symmetric]
  by (auto simp: poll_round_def forget_def split: prod.split option.split)

lemma Run_logged: "forget (Run (logged io) rounds r (s, log)) = Run io rounds r s"
proof (induction rounds arbitrary: r s log)
  case (Cons x rounds)
  obtain ce recs where x: "x = (ce, recs)" by fastforce
  obtain r1 s1 log1 c1 d1 where p: "poll_round (logged io) ce recs r (s, log) = (r1, (s1, log1), c1, d1)"
    by (metis surj_pair)
  with poll_round_logged [of io ce recs r s log] have "poll_round io ce recs r s = (r1, s1, c1, d1)"
    by (simp add: forget_def)
  with p Cons [of r1 s1 log1, symmetric] show ?case by (auto simp: x forget_def split: prod.split)
qed (simp add: forget_def)

subsection \<open>Properties\<close>

text \<open>C39: A decoded record is handed to the handler at least once and at most one time more than the retry
  limit; every call but the last has failed. The record counts as processed exactly when the last call
  succeeded, or when the limit is reached and the record is in the dead-letter topic.\<close>

theorem processRecord_bounded_retries:
  assumes "ioUnmarshal io (rcValue rec) = Inr event" and "hEventID (eHeader event) \<noteq> []" and "0 \<le> rnMaxRetries r"
    and "processRecord io rec r s = ((err, r', dead), s')"
  shows "\<exists>k. 0 < k \<and> k \<le> nat (rnMaxRetries r) + 1 \<and> s' = after_calls io event rec k s \<and>
     (\<forall>i. Suc i < k \<longrightarrow> call_error io event rec i s \<noteq> None) \<and>
     (err = None \<longrightarrow> call_error io event rec (k - 1) s = None \<and> dead = [] \<or>
        k = nat (rnMaxRetries r) + 1 \<and> call_error io event rec (k - 1) s \<noteq> None \<and>
        (\<exists>reason. dead = [dead_letter (rnDlqTopic r) reason rec])) \<and>
     (err \<noteq> None \<longrightarrow> dead = [] \<and> call_error io event rec (k - 1) s \<noteq> None)"
proof -
  have "attempts io event rec 0 r s = ((err, r', dead), s')" using assms by (simp add: processRecord_def)
  moreover have "nat (rnMaxRetries r + 1 - int 0) = nat (rnMaxRetries r) + 1" using assms(3) by simp
  ultimately have "attempted io event rec r (nat (rnMaxRetries r) + 1) s ((err, r', dead), s')"
    using attempts_attempted [of 0 r io event rec s] assms(3) by simp
  then show ?thesis unfolding attempted_def split
    by (elim exE conjE) (intro exI conjI; assumption)
qed

text \<open>A handler that counts its calls and succeeds from the third one on.\<close>

definition sample_io :: "(int, int order_event, nat) runner_io" where
  "sample_io = \<lparr> ioUnmarshal = Inr, ioHandler = (\<lambda>_ _ n. (if n < 2 then Some ''busy'' else None, Suc n)),
     ioStopped = (\<lambda>_. False), ioProduce = (\<lambda>_. None) \<rparr>"

definition sample_record :: "int order_event kgo_record" where
  "sample_record = \<lparr> rcTopic = ''coinhub.order.filled'', rcKey = ''BTC-USDT'', rcValue =
     \<lparr> eHeader = \<lparr> hEventID = ''e1'', hEventType = ''ORDER_FILLED'', hVersion = ''v1'', hOccuredAt = 7 \<rparr>,
       eID = ''o1'', eUserID = ''alice'', ePair = ''BTC-USDT'', eType = ''limit'', eSide = ''buy'',
       eBehavior = ''GTC'', eExpiresAt = 9, ePrice = 10, eQuantity = 5, eFilled = 5, eStatus = ''filled'',
       eRemainingQty = 0 \<rparr>, rcHeaders = [] \<rparr>"

lemma sample_run:
  "processRecord sample_io sample_record (NewRunner ''r'' 3) 0 =
     ((None, (NewRunner ''r'' 3)\<lparr>rnRetried := 2\<rparr>, []), 3)"
  by code_simp

theorem processRecord_bounded_retries_witness:
  "\<exists>k. 0 < k \<and> k \<le> 4 \<and> (3 :: nat) = after_calls sample_io (rcValue sample_record) sample_record k 0"
proof -
  have a: "ioUnmarshal sample_io (rcValue sample_record) = Inr (rcValue sample_record)"
    "hEventID (eHeader (rcValue sample_record)) \<noteq> []" "0 \<le> rnMaxRetries (NewRunner ''r'' 3)"
    by (simp_all add: sample_io_def sample_record_def NewRunner_def)
  from processRecord_bounded_retries [OF a sample_run] show ?thesis by (auto simp: NewRunner_def)
qed

text \<open>No record is lost between the broker and the handler: every record whose offset is committed has a
  handler call that succeeded, or is in the dead-letter topic, over any number of polls and with any faults
  of the handler, the producer and the commit.\<close>

theorem Run_commits_only_settled:
  assumes "0 \<le> rnMaxRetries r"
    and "Run (logged io) rounds r (s, []) = (r', (s', log), committed, dead)" and "rec \<in> set committed"
  shows "(rec, None) \<in> set log \<or> (\<exists>reason. dead_letter (rnDlqTopic r) reason rec \<in> set dead)"
  using call_log.Run_outcome [OF assms(1), where s = "(s, [])" and io = io and rounds = rounds] assms(2,3) by (auto simp: outcome_def)

lemma sample_polls:
  "fst (snd (Run (logged sample_io) [(None, [None, Some sample_record])] (NewRunner ''r'' 3) (0, []))) =
     (3, [(sample_record, Some ''busy''), (sample_record, Some ''busy''), (sample_record, None)])"
  "snd (snd (Run (logged sample_io) [(None, [None, Some sample_record])] (NewRunner ''r'' 3) (0, []))) =
     ([sample_record], [])"
  by code_simp+

theorem Run_commits_only_settled_witness:
  "\<exists>r' log. Run (logged sample_io) [(None, [None, Some sample_record])] (NewRunner ''r'' 3) (0, []) =
       (r', (3, log), [sample_record], []) \<and> (sample_record, None) \<in> set log"
proof -
  obtain r' log where run: "Run (logged sample_io) [(None, [None, Some sample_record])] (NewRunner ''r'' 3) (0, []) =
       (r', (3, log), [sample_record], [])"
    using sample_polls by (cases "Run (logged sample_io) [(None, [None, Some sample_record])] (NewRunner ''r'' 3) (0, [])") auto
  have "0 \<le> rnMaxRetries (NewRunner ''r'' 3)" by (simp add: NewRunner_def)
  from Run_commits_only_settled [OF this run, of sample_record] run show ?thesis by auto
qed

end
