(* ===== verification/Engine_Service.thy ===== *)
theory Engine_Service
  imports Commands Consumer_Runner
begin

text \<open>
  The engine as a process: the clients it opens and the goroutines of \<^verbatim>\<open>MatchEngine.Run\<close> (engine.go) under the command
  \<^verbatim>\<open>cmd/engine.go\<close>. What the goroutines do to orders is in \<open>Engine_Steps\<close>; here are their lives. \<open>newClient\<close> is
  \<^verbatim>\<open>kgo.NewClient\<close>, an address and the topics consumed giving an error.
\<close>

definition initializeEventProducer :: "(string \<Rightarrow> string list \<Rightarrow> string option) \<Rightarrow> configuration \<Rightarrow> string + string" where
  "initializeEventProducer newClient cfg =
     (case newClient (broker_address cfg) [] of Some err \<Rightarrow> Inl err | None \<Rightarrow> Inr (broker_address cfg))"

text \<open>\<open>None\<close> is the process ended by the fatal log.\<close>

definition initializeOrderSubmittionEventConsumer ::
  "(string \<Rightarrow> string list \<Rightarrow> string option) \<Rightarrow> configuration \<Rightarrow> string list option" where
  "initializeOrderSubmittionEventConsumer newClient cfg =
     (let selectedTopics = engine_topics
      in case newClient (broker_address cfg) selectedTopics of Some _ \<Rightarrow> None | None \<Rightarrow> Some selectedTopics)"

text \<open>The error of opening the dead-letter client is logged and not returned; the client is then nil.\<close>

definition initializeOrderSubmittionEventDLQ ::
  "(string \<Rightarrow> string list \<Rightarrow> string option) \<Rightarrow> configuration \<Rightarrow> string option \<times> bool" where
  "initializeOrderSubmittionEventDLQ newClient cfg = (None, newClient (broker_address cfg) [] = None)"

definition OrderSubmittedConsumerDLQTopic :: string where
  "OrderSubmittedConsumerDLQTopic = ''order-submitted-consumer.dlq''"

definition main_runner :: "(string \<Rightarrow> string list \<Rightarrow> string option) \<Rightarrow> configuration \<Rightarrow> string + runner" where
  "main_runner newClient cfg =
     (let runner = NewRunner OrderSubmittedConsumerGroupID 3
      in case initializeOrderSubmittionEventDLQ newClient cfg of
           (Some err, _) \<Rightarrow> Inl err
         | (None, submittionEventDLQ) \<Rightarrow> Inr (WithDLQ submittionEventDLQ OrderSubmittedConsumerDLQTopic runner))"

subsection \<open>The goroutines\<close>

text \<open>
  Where the command is: inside \<^verbatim>\<open>SetupMatchEngine\<close>, waiting for the goroutines; at its select; waiting once more; or done,
  after the shutdown. A worker ends when its channel is closed, the consumer and the reaper when the context is.
\<close>

datatype main_at = InSetup | AtSelect | AtWait | ShutDown

record engine_process =
  epMain :: main_at
  epWorkers :: "string set"
  epConsumer :: bool
  epReaper :: bool
  epCancelled :: bool
  epClosed :: "string set"
  epSignal :: bool

definition idle_goroutines :: "engine_process \<Rightarrow> bool" where
  "idle_goroutines p = (epWorkers p = {} \<and> \<not> epConsumer p \<and> \<not> epReaper p)"

inductive proc_step :: "engine_process \<Rightarrow> engine_process \<Rightarrow> bool" where
  signal: "proc_step p (p\<lparr>epSignal := True\<rparr>)"
| worker_ends: "w \<in> epWorkers p \<Longrightarrow> w \<in> epClosed p \<Longrightarrow> proc_step p (p\<lparr>epWorkers := epWorkers p - {w}\<rparr>)"
| consumer_ends: "epConsumer p \<Longrightarrow> epCancelled p \<Longrightarrow> proc_step p (p\<lparr>epConsumer := False\<rparr>)"
| reaper_ends: "epReaper p \<Longrightarrow> epCancelled p \<Longrightarrow> proc_step p (p\<lparr>epReaper := False\<rparr>)"
| setup_returns: "epMain p = InSetup \<Longrightarrow> idle_goroutines p \<Longrightarrow> proc_step p (p\<lparr>epMain := AtSelect\<rparr>)"
| signal_taken: "epMain p = AtSelect \<Longrightarrow> epSignal p \<Longrightarrow>
     proc_step p (p\<lparr>epMain := AtWait, epSignal := False, epCancelled := True\<rparr>)"
| waited: "epMain p = AtWait \<Longrightarrow> idle_goroutines p \<Longrightarrow> proc_step p (p\<lparr>epMain := ShutDown\<rparr>)"

inductive_cases proc_stepE: "proc_step p p'"

inductive proc_reach :: "engine_process \<Rightarrow> engine_process \<Rightarrow> bool" for p0 where
  start: "proc_reach p0 p0"
| step: "proc_reach p0 p \<Longrightarrow> proc_step p p' \<Longrightarrow> proc_reach p0 p'"

subsection \<open>The command\<close>

text \<open>\<^verbatim>\<open>Run\<close> sets the consumer, starts a worker for each channel of the router, the consumer and the reaper, and waits.\<close>

datatype engine_start = EngineExited nat | EngineRuns engine_process

definition engine_Run ::
  "(string \<Rightarrow> string list \<Rightarrow> string option) \<Rightarrow> configuration \<Rightarrow> 'd engine \<Rightarrow> engine_start" where
  "engine_Run newClient cfg me =
     (case initializeOrderSubmittionEventConsumer newClient cfg of
        None \<Rightarrow> EngineExited 1
      | Some _ \<Rightarrow>
          (case meRouter me of
             None \<Rightarrow> EngineExited 2
           | Some workers \<Rightarrow> EngineRuns \<lparr> epMain = InSetup, epWorkers = {p. workers p \<noteq> None}, epConsumer = True,
               epReaper = True, epCancelled = False, epClosed = {}, epSignal = False \<rparr>))"

definition SetupMatchEngine ::
  "(string \<Rightarrow> string list \<Rightarrow> string option) \<Rightarrow> configuration \<Rightarrow> 'd engine option \<Rightarrow> engine_start" where
  "SetupMatchEngine newClient cfg matchEngine =
     (case matchEngine of None \<Rightarrow> EngineExited 2 | Some me \<Rightarrow> engine_Run newClient cfg me)"

definition RunOrderMatchEngine ::
  "'s boot_env \<Rightarrow> (string \<Rightarrow> string list \<Rightarrow> string option) \<Rightarrow> configuration \<Rightarrow> 's \<Rightarrow> engine_start" where
  "RunOrderMatchEngine B newClient cfg s =
     (case (NewApplication B cfg [engine_options] s :: (int application \<times> 's) boot) of
        Fatal _ _ \<Rightarrow> EngineExited 1
      | BootPanic \<Rightarrow> EngineExited 2
      | Up (app, _) \<Rightarrow> SetupMatchEngine newClient cfg (apOrderMatchEngine app))"

subsection \<open>Lemmas\<close>

text \<open>Inside \<^verbatim>\<open>SetupMatchEngine\<close> nothing cancels the context and nothing closes a channel.\<close>

definition stuck_in_setup :: "string set \<Rightarrow> engine_process \<Rightarrow> bool" where
  "stuck_in_setup pairs p = (epMain p = InSetup \<and> \<not> epCancelled p \<and> epClosed p = {} \<and> epWorkers p = pairs \<and>
     epConsumer p \<and> epReaper p)"

lemma stuck_in_setup_step: "proc_step p p' \<Longrightarrow> stuck_in_setup pairs p \<Longrightarrow> stuck_in_setup pairs p'"
  by (erule proc_stepE) (auto simp: stuck_in_setup_def idle_goroutines_def)

lemma stuck_in_setup_reach:
  "proc_reach p0 p \<Longrightarrow> stuck_in_setup pairs p0 \<Longrightarrow> stuck_in_setup pairs p"
  by (induction rule: proc_reach.induct) (auto intro: stuck_in_setup_step)

subsection \<open>Properties\<close>



end
