(* ===== verification/Json_Text.thy ===== *)
theory Json_Text
  imports Text_Numbers
begin

text \<open>
  The part of Go's \<^verbatim>\<open>encoding/json\<close> that the sources use on messages, tasks and columns: the text \<^verbatim>\<open>Marshal\<close> writes for a
  value, the reader behind \<^verbatim>\<open>Unmarshal\<close>, and the assignment of an object's members to the fields of a struct. Texts are
  ASCII; a text nested deeper than Go's limit of 10000 is not refused here. The lemmas are the round trips.
\<close>

datatype json = JNull | JBool bool | JNum string | JStr string | JArr "json list" | JObj "(string \<times> json) list"

abbreviation quote_char :: char where "quote_char \<equiv> CHR 0x22"
abbreviation backslash :: char where "backslash \<equiv> CHR 0x5C"

subsection \<open>Writing\<close>

text \<open>Control characters and those that mean something in HTML are escaped.\<close>

definition json_escape :: "char \<Rightarrow> string" where
  "json_escape c =
     (if c = quote_char \<or> c = backslash then [backslash, c]
      else if c = CHR 0x08 then [backslash, CHR ''b'']
      else if c = CHR 0x0C then [backslash, CHR ''f'']
      else if c = CHR 0x0A then [backslash, CHR ''n'']
      else if c = CHR 0x0D then [backslash, CHR ''r'']
      else if c = CHR 0x09 then [backslash, CHR ''t'']
      else if (of_char c :: nat) < 32 \<or> c \<in> {CHR ''<'', CHR ''>'', CHR ''&''}
      then [backslash, CHR ''u'', CHR ''0'', CHR ''0'', hex_digit (of_char c div 16), hex_digit (of_char c mod 16)]
      else [c])"

definition json_quote :: "string \<Rightarrow> string" where
  "json_quote s = quote_char # concat (map json_escape s) @ [quote_char]"

fun json_text :: "json \<Rightarrow> string" and elems_text :: "json list \<Rightarrow> string" and
  members_text :: "(string \<times> json) list \<Rightarrow> string" where
  "json_text JNull = ''null''"
| "json_text (JBool b) = (if b then ''true'' else ''false'')"
| "json_text (JNum s) = s"
| "json_text (JStr s) = json_quote s"
| "json_text (JArr js) = CHR ''['' # elems_text js @ '']''"
| "json_text (JObj ms) = CHR ''{'' # members_text ms @ ''}''"
| "elems_text [] = []"
| "elems_text (j # js) = json_text j @ (if js = [] then [] else CHR '','' # elems_text js)"
| "members_text [] = []"
| "members_text ((k, v) # ms) = json_quote k @ CHR '':'' # json_text v @ (if ms = [] then [] else CHR '','' # members_text ms)"

subsection \<open>Reading\<close>

definition is_json_space :: "char \<Rightarrow> bool" where
  "is_json_space c = (c \<in> {CHR '' '', CHR 0x09, CHR 0x0A, CHR 0x0D})"

definition skip_ws :: "string \<Rightarrow> string" where
  "skip_ws s = dropWhile is_json_space s"

definition number_char :: "char \<Rightarrow> bool" where
  "number_char c = (is_digit c \<or> c \<in> {CHR ''-'', CHR ''+'', CHR ''.'', CHR ''e'', CHR ''E''})"

text \<open>A number: a sign, digits without a leading zero, then a fraction and an exponent.\<close>

definition number_ok :: "string \<Rightarrow> bool" where
  "number_ok s =
     (let t = (if s \<noteq> [] \<and> hd s = CHR ''-'' then tl s else s);
          whole = takeWhile is_digit t; u = dropWhile is_digit t;
          frac = (if u \<noteq> [] \<and> hd u = CHR ''.'' then Some (takeWhile is_digit (tl u)) else None);
          v = (if u \<noteq> [] \<and> hd u = CHR ''.'' then dropWhile is_digit (tl u) else u);
          ex = (if v \<noteq> [] \<and> (hd v = CHR ''e'' \<or> hd v = CHR ''E'')
                then Some (let w = tl v in if w \<noteq> [] \<and> (hd w = CHR ''+'' \<or> hd w = CHR ''-'') then tl w else w) else None)
      in whole \<noteq> [] \<and> (hd whole = CHR ''0'' \<longrightarrow> tl whole = []) \<and> frac \<noteq> Some [] \<and>
         (case ex of None \<Rightarrow> v = [] | Some w \<Rightarrow> w \<noteq> [] \<and> list_all is_digit w))"

text \<open>UTF-8 of a code point.\<close>

definition utf8 :: "nat \<Rightarrow> string" where
  "utf8 n =
     (if n < 0x80 then [char_of n]
      else if n < 0x800 then [char_of (0xC0 + n div 64), char_of (0x80 + n mod 64)]
      else if n < 0x10000 then [char_of (0xE0 + n div 4096), char_of (0x80 + n div 64 mod 64), char_of (0x80 + n mod 64)]
      else [char_of (0xF0 + n div 262144), char_of (0x80 + n div 4096 mod 64), char_of (0x80 + n div 64 mod 64),
        char_of (0x80 + n mod 64)])"

definition read_u4 :: "string \<Rightarrow> (nat \<times> string) option" where
  "read_u4 s = (if length (take 4 s) = 4 \<and> list_all is_hex (take 4 s)
     then Some (foldl (\<lambda>a c. 16 * a + hex_value c) 0 (take 4 s), drop 4 s) else None)"

text \<open>A surrogate and the escape after it: the two of a pair give one code point, one alone the replacement character.\<close>

definition unescape_u :: "string \<Rightarrow> (string \<times> string) option" where
  "unescape_u s =
     (case read_u4 s of
        None \<Rightarrow> None
      | Some (u, r) \<Rightarrow>
          if 0xD800 \<le> u \<and> u < 0xE000 then
            (case (if take 2 r = [backslash, CHR ''u''] then read_u4 (drop 2 r) else None) of
               Some (v, r') \<Rightarrow>
                 if u < 0xDC00 \<and> 0xDC00 \<le> v \<and> v < 0xE000
                 then Some (utf8 (0x10000 + (u - 0xD800) * 1024 + (v - 0xDC00)), r') else Some (utf8 0xFFFD, r)
             | None \<Rightarrow> Some (utf8 0xFFFD, r))
          else Some (utf8 u, r))"

lemma read_u4_length: "read_u4 s = Some (u, r) \<Longrightarrow> length r < length s"
  by (auto simp: read_u4_def split: if_splits)

lemma unescape_u_length: "unescape_u s = Some (t, r) \<Longrightarrow> length r < length s"
  by (auto simp: unescape_u_def split: option.splits if_splits dest!: read_u4_length)

definition simple_escapes :: "(char \<times> char) list" where
  "simple_escapes = [(quote_char, quote_char), (backslash, backslash), (CHR ''/'', CHR ''/''), (CHR ''b'', CHR 0x08),
     (CHR ''f'', CHR 0x0C), (CHR ''n'', CHR 0x0A), (CHR ''r'', CHR 0x0D), (CHR ''t'', CHR 0x09)]"

text \<open>The rest of a string after its opening quote, with what follows the closing one.\<close>

function read_string :: "string \<Rightarrow> (string \<times> string) option" where
  "read_string s =
     (case s of
        [] \<Rightarrow> None
      | c # r \<Rightarrow>
          if c = quote_char then Some ([], r)
          else if c = backslash then
            (case r of
               [] \<Rightarrow> None
             | e # r' \<Rightarrow>
                 if e = CHR ''u'' then
                   (case unescape_u r' of
                      None \<Rightarrow> None | Some (t, r'') \<Rightarrow> map_option (\<lambda>(u, rest). (t @ u, rest)) (read_string r''))
                 else (case map_of simple_escapes e of
                         None \<Rightarrow> None | Some d \<Rightarrow> map_option (\<lambda>(u, rest). (d # u, rest)) (read_string r')))
          else if (of_char c :: nat) < 32 then None
          else map_option (\<lambda>(u, rest). (c # u, rest)) (read_string r))"
  by pat_completeness auto
termination
  by (relation "measure length") (auto dest!: unescape_u_length)

declare read_string.simps [simp del]

definition read_word :: "string \<Rightarrow> json \<Rightarrow> string \<Rightarrow> (json \<times> string) option" where
  "read_word w j s = (if take (length w) s = w then Some (j, drop (length w) s) else None)"

definition read_number :: "string \<Rightarrow> (json \<times> string) option" where
  "read_number s = (let tok = takeWhile number_char s
     in if number_ok tok then Some (JNum tok, dropWhile number_char s) else None)"

text \<open>The reader takes a step off its fuel at each value and member; twice the length of the text is enough, and more
  fuel changes nothing.\<close>

fun read_value :: "nat \<Rightarrow> string \<Rightarrow> (json \<times> string) option" and
  read_elems :: "nat \<Rightarrow> string \<Rightarrow> (json list \<times> string) option" and
  read_members :: "nat \<Rightarrow> string \<Rightarrow> ((string \<times> json) list \<times> string) option" where
  "read_value 0 s = None"
| "read_value (Suc n) s =
     (case skip_ws s of
        [] \<Rightarrow> None
      | c # r \<Rightarrow>
          if c = quote_char then map_option (\<lambda>(t, rest). (JStr t, rest)) (read_string r)
          else if c = CHR ''{'' then
            (if take 1 (skip_ws r) = ''}'' then Some (JObj [], drop 1 (skip_ws r))
             else map_option (\<lambda>(ms, rest). (JObj ms, rest)) (read_members n r))
          else if c = CHR ''['' then
            (if take 1 (skip_ws r) = '']'' then Some (JArr [], drop 1 (skip_ws r))
             else map_option (\<lambda>(js, rest). (JArr js, rest)) (read_elems n r))
          else if c = CHR ''n'' then read_word ''null'' JNull (c # r)
          else if c = CHR ''t'' then read_word ''true'' (JBool True) (c # r)
          else if c = CHR ''f'' then read_word ''false'' (JBool False) (c # r)
          else read_number (c # r))"
| "read_elems 0 s = None"
| "read_elems (Suc n) s =
     (case read_value n s of
        None \<Rightarrow> None
      | Some (j, r) \<Rightarrow>
          (case skip_ws r of
             [] \<Rightarrow> None
           | c # r' \<Rightarrow>
               if c = CHR '','' then map_option (\<lambda>(js, rest). (j # js, rest)) (read_elems n r')
               else if c = CHR '']'' then Some ([j], r') else None))"
| "read_members 0 s = None"
| "read_members (Suc n) s =
     (case skip_ws s of
        [] \<Rightarrow> None
      | q # r \<Rightarrow>
          if q \<noteq> quote_char then None
          else (case read_string r of
             None \<Rightarrow> None
           | Some (k, r1) \<Rightarrow>
               if take 1 (skip_ws r1) \<noteq> '':'' then None
               else (case read_value n (drop 1 (skip_ws r1)) of
                  None \<Rightarrow> None
                | Some (v, r2) \<Rightarrow>
                    (case skip_ws r2 of
                       [] \<Rightarrow> None
                     | c # r3 \<Rightarrow>
                         if c = CHR '','' then map_option (\<lambda>(ms, rest). ((k, v) # ms, rest)) (read_members n r3)
                         else if c = CHR ''}'' then Some ([(k, v)], r3) else None))))"

definition read_json :: "string \<Rightarrow> json option" where
  "read_json s =
     (case read_value (Suc (2 * length s)) s of
        None \<Rightarrow> None | Some (j, r) \<Rightarrow> if skip_ws r = [] then Some j else None)"

subsection \<open>Fuel\<close>

lemma skip_ws_length: "length (skip_ws s) \<le> length s"
  by (simp add: skip_ws_def length_dropWhile_le)

lemma read_string_eqs:
  "read_string [] = None"
  "read_string (quote_char # r) = Some ([], r)"
  "read_string [backslash] = None"
  "read_string (backslash # CHR ''u'' # r) = (case unescape_u r of
      None \<Rightarrow> None | Some (t, r') \<Rightarrow> map_option (\<lambda>(u, rest). (t @ u, rest)) (read_string r'))"
  "e \<noteq> CHR ''u'' \<Longrightarrow> read_string (backslash # e # r) = (case map_of simple_escapes e of
      None \<Rightarrow> None | Some d \<Rightarrow> map_option (\<lambda>(u, rest). (d # u, rest)) (read_string r))"
  "c \<noteq> quote_char \<Longrightarrow> c \<noteq> backslash \<Longrightarrow> read_string (c # r) =
     (if (of_char c :: nat) < 32 then None else map_option (\<lambda>(u, rest). (c # u, rest)) (read_string r))"
  by (subst read_string.simps, simp)+

text \<open>Case analysis on what a string begins with.\<close>

lemma string_start_cases:
  obtains "s = []" | r where "s = quote_char # r" | "s = [backslash]" | r where "s = backslash # CHR ''u'' # r"
  | e r where "s = backslash # e # r" "e \<noteq> CHR ''u''" | c r where "s = c # r" "c \<noteq> quote_char" "c \<noteq> backslash"
  by (metis neq_Nil_conv)

lemma read_string_length: "read_string s = Some (t, r) \<Longrightarrow> length r < length s"
proof (induction "length s" arbitrary: s t r rule: less_induct)
  case less
  show ?case
  proof (cases s rule: string_start_cases)
    case (4 s')
    then obtain x s'' y where "unescape_u s' = Some (x, s'')" "read_string s'' = Some (y, r)"
      using less(2) by (auto simp: read_string_eqs split: option.splits)
    with less(1) [of s''] unescape_u_length [of s' x s''] 4 show ?thesis by fastforce
  next
    case (5 e s')
    then show ?thesis using less(1) [of s'] less(2) by (fastforce simp: read_string_eqs split: option.splits)
  next
    case (6 c s')
    then show ?thesis using less(1) [of s'] less(2) by (fastforce simp: read_string_eqs split: if_splits)
  qed (use less(2) in \<open>auto simp: read_string_eqs\<close>)
qed

lemma read_word_length: "read_word w j s = Some (j', r) \<Longrightarrow> w \<noteq> [] \<Longrightarrow> length r < length s"
  by (cases s; cases w) (auto simp: read_word_def split: if_splits)

lemma number_ok_Nil [simp]: "\<not> number_ok []"
  by (simp add: number_ok_def)

lemma read_number_length: "read_number s = Some (j, r) \<Longrightarrow> length r < length s"
proof -
  assume "read_number s = Some (j, r)"
  then have "takeWhile number_char s \<noteq> []" "r = dropWhile number_char s"
    by (auto simp: read_number_def Let_def split: if_splits)
  moreover have "length (takeWhile number_char s) + length (dropWhile number_char s) = length s"
    by (metis length_append takeWhile_dropWhile_id)
  ultimately show ?thesis by (cases "takeWhile number_char s") auto
qed

lemma drop1_skip_length: "length (drop 1 (skip_ws s)) \<le> length s"
  using skip_ws_length [of s] by simp

lemma skip_ws_Cons: "skip_ws s = c # r \<Longrightarrow> length r < length s"
  using skip_ws_length [of s] by simp

lemmas read_lengths = skip_ws_Cons read_string_length read_word_length read_number_length

lemma read_members_SomeE:
  assumes "read_members (Suc n) s = Some (ms, r)"
  obtains s0 k s1 v s2 c s3 where "skip_ws s = quote_char # s0" and "read_string s0 = Some (k, s1)"
    and "take 1 (skip_ws s1) = '':''" and "read_value n (drop 1 (skip_ws s1)) = Some (v, s2)" and "skip_ws s2 = c # s3"
    and "c = CHR '','' \<and> (\<exists>ms'. read_members n s3 = Some (ms', r)) \<or> r = s3"
  using assms by (fastforce split: list.splits option.splits if_splits)

text \<open>Every read leaves less than it was given.\<close>

lemma read_shrinks:
  "read_value n s = Some (j, r) \<Longrightarrow> length r < length s"
  "read_elems n s = Some (js, r) \<Longrightarrow> length r < length s"
  "read_members n s = Some (ms, r) \<Longrightarrow> length r < length s"
proof (induction n s and n s and n s arbitrary: j r and js r and ms r rule: read_value_read_elems_read_members.induct)
  case (2 n s)
  then obtain c s' where s: "skip_ws s = c # s'" by (auto split: list.splits)
  have l: "length s' < length s" by (rule skip_ws_Cons [OF s])
  have d: "length (drop 1 (skip_ws s')) \<le> length s'" by (rule drop1_skip_length)
  have w: "length (c # s') \<le> length s" using skip_ws_length [of s] s by simp
  show ?case using 2 s l d w
    by (fastforce split: if_splits dest: read_string_length read_word_length read_number_length)
next
  case (4 n s)
  then show ?case by (fastforce split: option.splits list.splits if_splits dest: skip_ws_Cons)
next
  case (6 n s)
  from 6(3) obtain s0 k s1 v s2 c s3 where m: "skip_ws s = quote_char # s0" "read_string s0 = Some (k, s1)"
      "take 1 (skip_ws s1) = '':''" "read_value n (drop 1 (skip_ws s1)) = Some (v, s2)" "skip_ws s2 = c # s3"
      "c = CHR '','' \<and> (\<exists>ms'. read_members n s3 = Some (ms', r)) \<or> r = s3"
    by (rule read_members_SomeE)
  have "length s0 < length s" "length s1 < length s0" "length s3 < length s2" using m read_lengths by blast+
  moreover have "length s2 < length (drop 1 (skip_ws s1))" using m 6(1) by (metis (no_types))
  moreover have "length (drop 1 (skip_ws s1)) \<le> length s1" by (rule drop1_skip_length)
  moreover have "length r \<le> length s3" using m 6(2) by (metis less_imp_le order_refl)
  ultimately show ?case by linarith
qed simp_all

text \<open>Fuel beyond twice the length of the text changes nothing.\<close>

lemma read_fuel_Suc:
  "2 * length s < n \<Longrightarrow> read_value (Suc n) s = read_value n s"
  "Suc (2 * length s) < n \<Longrightarrow> read_elems (Suc n) s = read_elems n s"
  "2 * length s < n \<Longrightarrow> read_members (Suc n) s = read_members n s"
proof (induction n s and n s and n s rule: read_value_read_elems_read_members.induct)
  case (2 n s)
  show ?case
  proof (cases "skip_ws s")
    case (Cons c r)
    have "length r < length s" by (rule skip_ws_Cons [OF Cons])
    then have "2 * length r < n" "Suc (2 * length r) < n" using 2(3) by simp_all
    then show ?thesis
      unfolding read_value.simps(2) [of "Suc n" s] read_value.simps(2) [of n s] Cons list.case
      using 2(1,2) Cons by (intro if_cong refl) auto
  qed (simp only: read_value.simps(2) list.case)
next
  case (4 n s)
  have v: "read_value (Suc n) s = read_value n s" using 4 by simp
  show ?case
  proof (cases "read_value n s")
    case (Some jr)
    obtain j r where jr: "jr = (j, r)" by fastforce
    then have l: "length r < length s" using Some read_shrinks(1) by blast
    show ?thesis
    proof (cases "skip_ws r")
      case (Cons c r')
      have "length r' < length r" by (rule skip_ws_Cons [OF Cons])
      then have "Suc (2 * length r') < n" using l 4(3) by simp
      then show ?thesis unfolding read_elems.simps(2) [of "Suc n" s] read_elems.simps(2) [of n s] v Some jr
        using 4(2) Some jr Cons by auto
    qed (unfold read_elems.simps(2) [of "Suc n" s] read_elems.simps(2) [of n s] v Some jr, simp)
  qed (simp only: read_elems.simps(2) v option.case)
next
  case (6 n s)
  note eqs = read_members.simps(2) [of "Suc n" s] read_members.simps(2) [of n s]
  show ?case
  proof (cases "\<exists>s0 k s1. skip_ws s = quote_char # s0 \<and> read_string s0 = Some (k, s1) \<and> take 1 (skip_ws s1) = '':''")
    case True
    then obtain s0 k s1 where m: "skip_ws s = quote_char # s0" "read_string s0 = Some (k, s1)" "take 1 (skip_ws s1) = '':''"
      by blast
    let ?t = "drop 1 (skip_ws s1)"
    have "length s0 < length s" "length s1 < length s0" using m read_lengths by blast+
    then have t: "length ?t < length s" using drop1_skip_length [of s1] by simp
    then have v: "read_value (Suc n) ?t = read_value n ?t" using 6(1,3) m by simp
    show ?thesis
    proof (cases "read_value n ?t")
      case (Some vr)
      obtain v r where vr: "vr = (v, r)" by fastforce
      then have l: "length r < length ?t" using Some read_shrinks(1) by blast
      show ?thesis
      proof (cases "skip_ws r")
        case (Cons c r')
        have "length r' < length r" by (rule skip_ws_Cons [OF Cons])
        then have "2 * length r' < n" using l t 6(3) by simp
        then show ?thesis unfolding eqs using 6(2) m v Some vr Cons by auto
      qed (unfold eqs, use m v Some vr in simp)
    qed (unfold eqs, use m v in simp)
  next
    case False
    then show ?thesis unfolding eqs by (auto split: list.split option.split)
  qed
qed simp_all

lemma read_fuel: "2 * length s < n \<Longrightarrow> read_value n s = read_value (Suc (2 * length s)) s"
proof (induction n)
  case (Suc n)
  then show ?case using read_fuel_Suc(1) [of s n] by (cases "2 * length s < n") (simp_all add: less_Suc_eq)
qed simp

subsection \<open>What is written is read back\<close>

definition ascii :: "string \<Rightarrow> bool" where
  "ascii s = list_all (\<lambda>c. (of_char c :: nat) < 128) s"

lemma ascii_simps [simp]:
  "ascii []" "ascii (c # s) \<longleftrightarrow> (of_char c :: nat) < 128 \<and> ascii s" "ascii (s @ s') \<longleftrightarrow> ascii s \<and> ascii s'"
  by (simp_all add: ascii_def)

fun json_wf :: "json \<Rightarrow> bool" and elems_wf :: "json list \<Rightarrow> bool" and members_wf :: "(string \<times> json) list \<Rightarrow> bool" where
  "json_wf JNull = True"
| "json_wf (JBool b) = True"
| "json_wf (JNum s) = (number_ok s \<and> list_all number_char s)"
| "json_wf (JStr s) = ascii s"
| "json_wf (JArr js) = elems_wf js"
| "json_wf (JObj ms) = members_wf ms"
| "elems_wf [] = True"
| "elems_wf (j # js) = (json_wf j \<and> elems_wf js)"
| "members_wf [] = True"
| "members_wf ((k, v) # ms) = (ascii k \<and> json_wf v \<and> members_wf ms)"

lemma unescape_control:
  assumes "(of_char c :: nat) < 128"
  shows "unescape_u (CHR ''0'' # CHR ''0'' # hex_digit (of_char c div 16) # hex_digit (of_char c mod 16) # x) = Some ([c], x)"
proof -
  have d: "(of_char c :: nat) div 16 < 16" "(of_char c :: nat) mod 16 < 16" using assms by (simp_all add: less_mult_imp_div_less)
  have z: "is_hex CHR ''0''" "hex_value CHR ''0'' = 0" by (simp_all add: is_hex_def is_digit_def hex_value_def)
  have "read_u4 (CHR ''0'' # CHR ''0'' # hex_digit (of_char c div 16) # hex_digit (of_char c mod 16) # x) = Some (of_char c, x)"
    using d by (simp add: read_u4_def z)
  then show ?thesis using assms by (simp add: unescape_u_def utf8_def)
qed

lemma read_escape:
  assumes "(of_char c :: nat) < 128"
  shows "read_string (json_escape c @ x) = map_option (\<lambda>(u, rest). (c # u, rest)) (read_string x)"
proof -
  have "read_string (backslash # CHR ''u'' # CHR ''0'' # CHR ''0'' # hex_digit (of_char c div 16) # hex_digit (of_char c mod 16) # x) =
      map_option (\<lambda>(u, rest). (c # u, rest)) (read_string x)"
    by (simp add: read_string_eqs(4) unescape_control [OF assms])
  then show ?thesis
    by (auto simp: json_escape_def read_string_eqs simple_escapes_def)
qed

lemma read_quoted: "ascii s \<Longrightarrow> read_string (concat (map json_escape s) @ quote_char # r) = Some (s, r)"
  by (induction s) (simp_all add: read_string_eqs read_escape)

lemma skip_ws_simps [simp]:
  "skip_ws [] = []" "skip_ws (c # s) = (if is_json_space c then skip_ws s else c # s)"
  by (simp_all add: skip_ws_def)

lemma not_json_space [simp]: "number_char c \<Longrightarrow> \<not> is_json_space c"
  by (auto simp: number_char_def is_json_space_def is_digit_def)

text \<open>A written value starts with a character that is not a space and does not end an array or an object.\<close>

lemma json_text_start:
  "json_wf j \<Longrightarrow> \<exists>c s. json_text j = c # s \<and> \<not> is_json_space c \<and> c \<noteq> CHR '']'' \<and> c \<noteq> CHR ''}''"
proof (cases j)
  case (JNum s)
  assume "json_wf j"
  then show ?thesis using JNum by (cases s) (auto simp: number_char_def is_digit_def)
qed (auto simp: json_quote_def is_json_space_def)

lemma read_number_text:
  assumes "number_ok s" and "list_all number_char s" and "r = [] \<or> \<not> number_char (hd r)"
  shows "read_number (s @ r) = Some (JNum s, r)"
proof -
  have "takeWhile number_char (s @ r) = s" "dropWhile number_char (s @ r) = r"
    using assms(2,3) by (cases r; simp add: takeWhile_append dropWhile_append list_all_iff)+
  then show ?thesis using assms(1) by (simp add: read_number_def)
qed

lemma number_head: "number_ok s \<Longrightarrow> list_all number_char s \<Longrightarrow> \<exists>c t. s = c # t \<and> number_char c"
  by (cases s) auto

lemma read_text:
  "json_wf j \<Longrightarrow> 2 * length (json_text j @ r) < n \<Longrightarrow> r = [] \<or> \<not> number_char (hd r) \<Longrightarrow>
     read_value n (json_text j @ r) = Some (j, r)"
  "elems_wf js \<Longrightarrow> js \<noteq> [] \<Longrightarrow> Suc (2 * length (elems_text js @ CHR '']'' # r)) < n \<Longrightarrow>
     read_elems n (elems_text js @ CHR '']'' # r) = Some (js, r)"
  "members_wf ms \<Longrightarrow> ms \<noteq> [] \<Longrightarrow> 2 * length (members_text ms @ CHR ''}'' # r) < n \<Longrightarrow>
     read_members n (members_text ms @ CHR ''}'' # r) = Some (ms, r)"
proof (induction j and js and ms arbitrary: n r and n r and n r rule: json_text_elems_text_members_text.induct)
  case (2 b)
  obtain m where "n = Suc m" using 2(2) by (cases n) auto
  then show ?case by (simp add: read_word_def is_json_space_def)
next
  case (3 s)
  then obtain c t where s: "s = c # t" "number_char c" using number_head [of s] by auto
  obtain m where "n = Suc m" using 3(2) by (cases n) auto
  moreover have "c \<notin> {quote_char, CHR ''{'', CHR ''['', CHR ''n'', CHR ''t'', CHR ''f''}"
    using s(2) by (auto simp: number_char_def is_digit_def)
  ultimately show ?case using read_number_text [of s r] 3(1,3) s by simp
next
  case (4 s)
  obtain m where "n = Suc m" using 4(2) by (cases n) auto
  with 4(1) show ?case by (simp add: json_quote_def read_quoted is_json_space_def)
next
  case (5 js)
  obtain m where n: "n = Suc m" using 5(3) by (cases n) auto
  show ?case
  proof (cases "js = []")
    case False
    then obtain j js' where js: "js = j # js'" by (cases js) auto
    then obtain c x where "json_text j = c # x" "\<not> is_json_space c" "c \<noteq> CHR '']''"
      using json_text_start [of j] 5(2) by auto
    then have "take 1 (skip_ws (elems_text js @ CHR '']'' # r)) \<noteq> '']''" by (simp add: js)
    then show ?thesis using 5(1) [of r m] 5(2,3) False by (simp add: n is_json_space_def)
  qed (simp add: n is_json_space_def)
next
  case (6 ms)
  obtain m where n: "n = Suc m" using 6(3) by (cases n) auto
  show ?case
  proof (cases "ms = []")
    case False
    then have "take 1 (skip_ws (members_text ms @ CHR ''}'' # r)) \<noteq> ''}''"
      by (cases ms) (auto simp: json_quote_def is_json_space_def)
    then show ?thesis using 6(1) [of r m] 6(2,3) False by (simp add: n is_json_space_def)
  qed (simp add: n is_json_space_def)
next
  case (8 j js)
  obtain m where n: "n = Suc m" using 8(5) by (cases n) auto
  let ?r = "(if js = [] then [] else CHR '','' # elems_text js) @ CHR '']'' # r"
  have v: "read_value m (json_text j @ ?r) = Some (j, ?r)"
    using 8(1) [of ?r m] 8(3,5) by (simp add: n number_char_def is_digit_def)
  show ?case
  proof (cases "js = []")
    case False
    then have "read_elems m (elems_text js @ CHR '']'' # r) = Some (js, r)" using 8(2) [of r m] 8(3,5) by (simp add: n)
    with v False show ?thesis by (simp add: n is_json_space_def)
  qed (use v in \<open>simp add: n is_json_space_def\<close>)
next
  case (10 k v ms)
  obtain m where n: "n = Suc m" using 10(5) by (cases n) auto
  let ?r = "(if ms = [] then [] else CHR '','' # members_text ms) @ CHR ''}'' # r"
  have v: "read_value m (json_text v @ ?r) = Some (v, ?r)"
    using 10(1) [of ?r m] 10(3,5) by (simp add: n json_quote_def number_char_def is_digit_def)
  have k: "read_string (concat (map json_escape k) @ quote_char # CHR '':'' # json_text v @ ?r) = Some (k, CHR '':'' # json_text v @ ?r)"
    using 10(3) by (simp only: members_wf.simps read_quoted)
  show ?case
  proof (cases "ms = []")
    case False
    then have "read_members m (members_text ms @ CHR ''}'' # r) = Some (ms, r)"
      using 10(2) [of r m] 10(3,5) by (simp add: n json_quote_def)
    with v k False show ?thesis by (simp add: n json_quote_def is_json_space_def)
  qed (use v k in \<open>simp add: n json_quote_def is_json_space_def\<close>)
qed (auto simp: gr0_conv_Suc read_word_def is_json_space_def elim!: Suc_lessE)

lemma read_json_text: "json_wf j \<Longrightarrow> read_json (json_text j) = Some j"
  using read_text(1) [of j "[]" "Suc (2 * length (json_text j))"] by (simp add: read_json_def)

text \<open>Written integers are numbers.\<close>

lemma is_digit_number: "is_digit c \<Longrightarrow> number_char c"
  by (simp add: number_char_def)

lemma dec_digits_lead: "hd (dec_digits n) = CHR ''0'' \<longrightarrow> tl (dec_digits n) = []"
proof (induction n rule: dec_digits.induct)
  case (1 n)
  show ?case
  proof (cases "n < 10")
    case False
    have z: "read_nat [CHR ''0''] = 0" by (simp add: read_nat_def)
    have "dec_digits (n div 10) = [CHR ''0''] \<Longrightarrow> n div 10 = 0" using z read_nat_dec_digits by metis
    then have "hd (dec_digits (n div 10)) \<noteq> CHR ''0''"
      using 1 False by (metis dec_digits_not_Nil div_eq_0_iff list.exhaust_sel not_less numeral_neq_zero)
    then show ?thesis using False by (simp add: dec_digits.simps [of n])
  qed (simp add: dec_digits.simps [of n])
qed

lemma digits_number:
  assumes "s \<noteq> []" and "list_all is_digit s" and "hd s = CHR ''0'' \<longrightarrow> tl s = []"
  shows "number_ok s" and "number_ok (CHR ''-'' # s)"
proof -
  have w: "takeWhile is_digit s = s" "dropWhile is_digit s = []" using assms(2) by (simp_all add: list_all_iff)
  have "hd s \<noteq> CHR ''-''" using assms(1,2) by (cases s) (auto simp: is_digit_def)
  then have "(if s \<noteq> [] \<and> hd s = CHR ''-'' then tl s else s) = s" by simp
  then show "number_ok s" unfolding number_ok_def Let_def using assms(1,3) by (simp add: w del: takeWhile_eq_all_conv dropWhile_eq_Nil_conv)
  show "number_ok (CHR ''-'' # s)" unfolding number_ok_def Let_def using assms(1,3)
    by (simp add: w del: takeWhile_eq_all_conv dropWhile_eq_Nil_conv)
qed

lemma fmt_int_number [simp]: "number_ok (fmt_int i)" "list_all number_char (fmt_int i)"
proof -
  have d: "list_all is_digit (dec_digits n)" for n using dec_digits_digits by (auto simp: list_all_iff)
  show "number_ok (fmt_int i)" using digits_number [OF dec_digits_not_Nil d dec_digits_lead] by (simp add: fmt_int_def)
  show "list_all number_char (fmt_int i)"
    using dec_digits_digits by (auto simp: fmt_int_def list_all_iff number_char_def)
qed

subsection \<open>Structs\<close>

text \<open>
  A field is its name and what a member with that name does to the struct: \<open>None\<close> is a value of the wrong type. A member
  is for the field of its exact name, or else for the first whose name differs in case alone; a member for no field is
  ignored, and null leaves the field.
\<close>

type_synonym 'r field = "string \<times> (json \<Rightarrow> 'r \<Rightarrow> 'r option)"

definition field_str :: "string \<Rightarrow> (string \<Rightarrow> 'r \<Rightarrow> 'r) \<Rightarrow> 'r field" where
  "field_str name upd = (name, \<lambda>j r. case j of JStr s \<Rightarrow> Some (upd s r) | JNull \<Rightarrow> Some r | _ \<Rightarrow> None)"

definition field_bool :: "string \<Rightarrow> (bool \<Rightarrow> 'r \<Rightarrow> 'r) \<Rightarrow> 'r field" where
  "field_bool name upd = (name, \<lambda>j r. case j of JBool b \<Rightarrow> Some (upd b r) | JNull \<Rightarrow> Some r | _ \<Rightarrow> None)"

text \<open>A number for an integer field is its digits alone, within the range of the type.\<close>

definition int_member :: "int \<Rightarrow> int \<Rightarrow> (int \<Rightarrow> 'r \<Rightarrow> 'r) \<Rightarrow> json \<Rightarrow> 'r \<Rightarrow> 'r option" where
  "int_member lo hi upd j r = (case j of
      JNum s \<Rightarrow>
        (let t = (if s \<noteq> [] \<and> hd s = CHR ''-'' then tl s else s);
             i = (if t = s then int (read_nat t) else - int (read_nat t))
         in if t \<noteq> [] \<and> list_all is_digit t \<and> lo \<le> i \<and> i < hi then Some (upd i r) else None)
    | JNull \<Rightarrow> Some r | _ \<Rightarrow> None)"

definition field_int :: "int \<Rightarrow> int \<Rightarrow> string \<Rightarrow> (int \<Rightarrow> 'r \<Rightarrow> 'r) \<Rightarrow> 'r field" where
  "field_int lo hi name upd = (name, int_member lo hi upd)"

text \<open>A type with a reader of its own, which gets the text of a string or, where \<open>bare\<close> allows, of a number.\<close>

definition field_text :: "bool \<Rightarrow> (string \<Rightarrow> 'x option) \<Rightarrow> string \<Rightarrow> ('x \<Rightarrow> 'r \<Rightarrow> 'r) \<Rightarrow> 'r field" where
  "field_text bare readText name upd = (name, \<lambda>j r. case j of
      JStr s \<Rightarrow> map_option (\<lambda>x. upd x r) (readText s)
    | JNum s \<Rightarrow> if bare then map_option (\<lambda>x. upd x r) (readText s) else None
    | JNull \<Rightarrow> Some r | _ \<Rightarrow> None)"

definition find_field :: "'r field list \<Rightarrow> string \<Rightarrow> (json \<Rightarrow> 'r \<Rightarrow> 'r option) option" where
  "find_field fs k =
     (case map_of fs k of
        Some f \<Rightarrow> Some f | None \<Rightarrow> map_of (map (\<lambda>(name, f). (to_lower name, f)) fs) (to_lower k))"

fun set_members :: "'r field list \<Rightarrow> (string \<times> json) list \<Rightarrow> 'r \<Rightarrow> 'r option" where
  "set_members fs [] r = Some r"
| "set_members fs ((k, v) # ms) r =
     (case find_field fs k of
        None \<Rightarrow> set_members fs ms r
      | Some upd \<Rightarrow> (case upd v r of None \<Rightarrow> None | Some r' \<Rightarrow> set_members fs ms r'))"

definition decode_struct :: "'r field list \<Rightarrow> string \<Rightarrow> 'r \<Rightarrow> string + 'r" where
  "decode_struct fs payload r =
     (case read_json payload of
        None \<Rightarrow> Inl ''invalid character in JSON''
      | Some JNull \<Rightarrow> Inr r
      | Some (JObj ms) \<Rightarrow> (case set_members fs ms r of None \<Rightarrow> Inl ''cannot unmarshal value'' | Some r' \<Rightarrow> Inr r')
      | Some _ \<Rightarrow> Inl ''cannot unmarshal value'')"

lemma decode_struct_text:
  "members_wf ms \<Longrightarrow> decode_struct fs (json_text (JObj ms)) r =
     (case set_members fs ms r of None \<Rightarrow> Inl ''cannot unmarshal value'' | Some r' \<Rightarrow> Inr r')"
  using read_json_text [of "JObj ms"] by (simp add: decode_struct_def del: json_text.simps)

text \<open>Members of other names leave a struct as it is.\<close>

lemmas field_defs = field_str_def field_bool_def field_text_def field_int_def

definition field_names :: "'r field list \<Rightarrow> string list" where
  "field_names fs = map (\<lambda>(name, f). to_lower name) fs"

lemma find_field_None:
  assumes "to_lower k \<notin> set (field_names fs)"
  shows "find_field fs k = None"
proof -
  have "map_of fs k = None" using assms by (force simp: field_names_def map_of_eq_None_iff)
  moreover have "map_of (map (\<lambda>(name, f). (to_lower name, f)) fs) (to_lower k) = None"
    using assms by (force simp: field_names_def map_of_eq_None_iff)
  ultimately show ?thesis by (simp add: find_field_def)
qed

lemma set_members_other:
  "list_all (\<lambda>k. to_lower k \<notin> set (field_names fs)) (map fst ms) \<Longrightarrow> set_members fs ms r = Some r"
  by (induction fs ms r rule: set_members.induct) (simp_all add: find_field_None)

lemma int_member_fmt:
  "lo \<le> i \<Longrightarrow> i < hi \<Longrightarrow> int_member lo hi upd (JNum (fmt_int i)) r = Some (upd i r)"
proof -
  assume b: "lo \<le> i" "i < hi"
  have h: "hd (dec_digits n) \<noteq> CHR ''-''" for n using hd_dec_digits [of n "[]"] digit_clean by auto
  have d: "list_all is_digit (dec_digits n)" for n using dec_digits_digits by (auto simp: list_all_iff)
  have neq: "CHR ''-'' # s \<noteq> s" for s :: string by (metis not_Cons_self2)
  show ?thesis using b h d neq by (auto simp: int_member_def fmt_int_def Let_def)
qed

text \<open>A reader of integers without bounds.\<close>

definition read_int :: "string \<Rightarrow> int" where
  "read_int s = (if s \<noteq> [] \<and> hd s = CHR ''-'' then - int (read_nat (tl s)) else int (read_nat s))"

lemma read_int_fmt: "read_int (fmt_int i) = i"
  using hd_dec_digits [of "nat i" "[]"] digit_clean by (auto simp: read_int_def fmt_int_def)

lemma ascii_fmt_int: "ascii (fmt_int i)"
  using dec_digits_digits by (fastforce simp: fmt_int_def ascii_def list_all_iff is_digit_def)

end
