(* ===== verification/Event_Codec.thy ===== *)
theory Event_Codec
  imports Json_Text Event_Types
begin

text \<open>
  The payloads of the topics: what \<^verbatim>\<open>json.Marshal\<close> writes for the two event types of
  \<^verbatim>\<open>internal/adapter/messaging/kafka\<close> (the fields of the embedded header first), and what \<^verbatim>\<open>json.Unmarshal\<close> makes of a
  payload as an order status event, which is how the consumer runner reads each one. The texts of a decimal and of a
  time are parameters; a time may have none, and is then an error.
\<close>

record 'd codec =
  cdDec :: "'d \<Rightarrow> string"
  cdReadDec :: "string \<Rightarrow> 'd option"
  cdTime :: "time \<Rightarrow> string + string"
  cdReadTime :: "string \<Rightarrow> time option"

text \<open>What the two packages document: the text of a value is read back as that value; the texts are ASCII.\<close>

definition codec_ok :: "'d codec \<Rightarrow> bool" where
  "codec_ok C = ((\<forall>d. cdReadDec C (cdDec C d) = Some d \<and> ascii (cdDec C d)) \<and>
     (\<forall>t s. cdTime C t = Inr s \<longrightarrow> cdReadTime C s = Some t \<and> ascii s))"

subsection \<open>Writing\<close>

definition header_members :: "event_header \<Rightarrow> string \<Rightarrow> (string \<times> json) list" where
  "header_members h occured = [(''event_id'', JStr (hEventID h)), (''event_type'', JStr (hEventType h)),
     (''version'', JStr (hVersion h)), (''occured_at'', JStr occured)]"

definition order_members :: "'d codec \<Rightarrow> 'd order_event \<Rightarrow> string \<Rightarrow> string \<Rightarrow> (string \<times> json) list" where
  "order_members C ev occured expires = header_members (eHeader ev) occured @
     [(''id'', JStr (eID ev)), (''user_id'', JStr (eUserID ev)), (''pair'', JStr (ePair ev)), (''type'', JStr (eType ev)),
      (''side'', JStr (eSide ev)), (''behavior'', JStr (eBehavior ev)), (''expires_at'', JStr expires),
      (''price'', JStr (cdDec C (ePrice ev))), (''quantity'', JStr (cdDec C (eQuantity ev))),
      (''filled'', JStr (cdDec C (eFilled ev))), (''status'', JStr (eStatus ev)),
      (''remaining_qty'', JStr (cdDec C (eRemainingQty ev)))]"

definition marshal_order :: "'d codec \<Rightarrow> 'd order_event \<Rightarrow> string + string" where
  "marshal_order C ev =
     (case cdTime C (hOccuredAt (eHeader ev)) of
        Inl err \<Rightarrow> Inl err
      | Inr occured \<Rightarrow>
          (case cdTime C (eExpiresAt ev) of
             Inl err \<Rightarrow> Inl err
           | Inr expires \<Rightarrow> Inr (json_text (JObj (order_members C ev occured expires)))))"

definition trade_members :: "'d codec \<Rightarrow> 'd trade_event \<Rightarrow> string \<Rightarrow> (string \<times> json) list" where
  "trade_members C ev occured = header_members (tHeader ev) occured @
     [(''maker_user_id'', JStr (tMakerUserID ev)), (''taker_user_id'', JStr (tTakerUserID ev)),
      (''maker_order_id'', JStr (tMakerOrderID ev)), (''taker_order_id'', JStr (tTakerOrderID ev)),
      (''pair'', JStr (tPair ev)), (''price'', JStr (cdDec C (tPrice ev))), (''quantity'', JStr (cdDec C (tQuantity ev))),
      (''maker_filled'', JBool (tMakerFilled ev)), (''taker_filled'', JBool (tTakerFilled ev)),
      (''maker_remaining'', JStr (tMakerRemaining ev)), (''taker_remaining'', JStr (tTakerRemaining ev))]"

definition marshal_trade :: "'d codec \<Rightarrow> 'd trade_event \<Rightarrow> string + string" where
  "marshal_trade C ev =
     (case cdTime C (hOccuredAt (tHeader ev)) of
        Inl err \<Rightarrow> Inl err | Inr occured \<Rightarrow> Inr (json_text (JObj (trade_members C ev occured))))"

subsection \<open>Reading\<close>

definition zero_order_event :: "'d::zero order_event" where
  "zero_order_event = \<lparr> eHeader = zero_header, eID = [], eUserID = [], ePair = [], eType = [], eSide = [], eBehavior = [],
     eExpiresAt = zero_time, ePrice = 0, eQuantity = 0, eFilled = 0, eStatus = [], eRemainingQty = 0 \<rparr>"

definition in_header :: "(event_header \<Rightarrow> event_header) \<Rightarrow> 'd order_event \<Rightarrow> 'd order_event" where
  "in_header f ev = ev\<lparr>eHeader := f (eHeader ev)\<rparr>"

definition order_fields :: "'d codec \<Rightarrow> 'd order_event field list" where
  "order_fields C =
     [field_str ''event_id'' (\<lambda>s. in_header (\<lambda>h. h\<lparr>hEventID := s\<rparr>)),
      field_str ''event_type'' (\<lambda>s. in_header (\<lambda>h. h\<lparr>hEventType := s\<rparr>)),
      field_str ''version'' (\<lambda>s. in_header (\<lambda>h. h\<lparr>hVersion := s\<rparr>)),
      field_text False (cdReadTime C) ''occured_at'' (\<lambda>t. in_header (\<lambda>h. h\<lparr>hOccuredAt := t\<rparr>)),
      field_str ''id'' (\<lambda>s ev. ev\<lparr>eID := s\<rparr>), field_str ''user_id'' (\<lambda>s ev. ev\<lparr>eUserID := s\<rparr>),
      field_str ''pair'' (\<lambda>s ev. ev\<lparr>ePair := s\<rparr>), field_str ''type'' (\<lambda>s ev. ev\<lparr>eType := s\<rparr>),
      field_str ''side'' (\<lambda>s ev. ev\<lparr>eSide := s\<rparr>), field_str ''behavior'' (\<lambda>s ev. ev\<lparr>eBehavior := s\<rparr>),
      field_text False (cdReadTime C) ''expires_at'' (\<lambda>t ev. ev\<lparr>eExpiresAt := t\<rparr>),
      field_text True (cdReadDec C) ''price'' (\<lambda>d ev. ev\<lparr>ePrice := d\<rparr>),
      field_text True (cdReadDec C) ''quantity'' (\<lambda>d ev. ev\<lparr>eQuantity := d\<rparr>),
      field_text True (cdReadDec C) ''filled'' (\<lambda>d ev. ev\<lparr>eFilled := d\<rparr>),
      field_str ''status'' (\<lambda>s ev. ev\<lparr>eStatus := s\<rparr>),
      field_text True (cdReadDec C) ''remaining_qty'' (\<lambda>d ev. ev\<lparr>eRemainingQty := d\<rparr>)]"

definition unmarshal_order :: "'d::zero codec \<Rightarrow> string \<Rightarrow> string + 'd order_event" where
  "unmarshal_order C payload = decode_struct (order_fields C) payload zero_order_event"

subsection \<open>Lemmas\<close>

text \<open>The members of an event are read one by one: a known name sets its field, an unknown one is skipped.\<close>

definition order_names :: "string list" where
  "order_names = [''event_id'', ''event_type'', ''version'', ''occured_at'', ''id'', ''user_id'', ''pair'', ''type'', ''side'',
     ''behavior'', ''expires_at'', ''price'', ''quantity'', ''filled'', ''status'', ''remaining_qty'']"

lemma order_field_names: "field_names (order_fields C) = map to_lower order_names"
  by (simp add: field_names_def order_fields_def order_names_def field_defs)

definition ascii_header :: "event_header \<Rightarrow> bool" where
  "ascii_header h = (ascii (hEventID h) \<and> ascii (hEventType h) \<and> ascii (hVersion h))"

definition ascii_order :: "'d order_event \<Rightarrow> bool" where
  "ascii_order ev = (ascii_header (eHeader ev) \<and> list_all ascii [eID ev, eUserID ev, ePair ev, eType ev, eSide ev, eBehavior ev, eStatus ev])"

definition ascii_trade :: "'d trade_event \<Rightarrow> bool" where
  "ascii_trade ev = (ascii_header (tHeader ev) \<and> list_all ascii [tMakerUserID ev, tTakerUserID ev, tMakerOrderID ev,
     tTakerOrderID ev, tPair ev, tMakerRemaining ev, tTakerRemaining ev])"

lemma order_members_wf:
  "codec_ok C \<Longrightarrow> ascii_order ev \<Longrightarrow> ascii occured \<Longrightarrow> ascii expires \<Longrightarrow> members_wf (order_members C ev occured expires)"
  by (simp add: order_members_def header_members_def ascii_order_def ascii_header_def codec_ok_def)

lemma trade_members_wf:
  "codec_ok C \<Longrightarrow> ascii_trade ev \<Longrightarrow> ascii occured \<Longrightarrow> members_wf (trade_members C ev occured)"
  by (simp add: trade_members_def header_members_def ascii_trade_def ascii_header_def codec_ok_def)

lemma set_order_members:
  assumes "codec_ok C" and "cdReadTime C occured = Some (hOccuredAt (eHeader ev))" and "cdReadTime C expires = Some (eExpiresAt ev)"
  shows "set_members (order_fields C) (order_members C ev occured expires) ev0 = Some ev"
  using assms
  by (simp add: order_members_def header_members_def order_fields_def find_field_def field_defs in_header_def codec_ok_def)

lemma unmarshal_marshal_order:
  assumes "codec_ok C" and "ascii_order ev" and "marshal_order C ev = Inr payload"
  shows "unmarshal_order C payload = Inr ev"
proof -
  obtain occured expires where t: "cdTime C (hOccuredAt (eHeader ev)) = Inr occured" "cdTime C (eExpiresAt ev) = Inr expires"
    and p: "payload = json_text (JObj (order_members C ev occured expires))"
    using assms(3) by (auto simp: marshal_order_def split: sum.splits)
  have "ascii occured" "ascii expires" using assms(1) t by (auto simp: codec_ok_def)
  then have "members_wf (order_members C ev occured expires)" using order_members_wf assms(1,2) by blast
  moreover have "set_members (order_fields C) (order_members C ev occured expires) zero_order_event = Some ev"
    by (rule set_order_members) (use assms(1) t in \<open>auto simp: codec_ok_def\<close>)
  ultimately show ?thesis by (simp add: unmarshal_order_def p decode_struct_text del: json_text.simps)
qed

text \<open>A trade event read as an order event: the header, the pair, the price and the quantity, and nothing else.\<close>

definition trade_as_order :: "'d::zero trade_event \<Rightarrow> 'd order_event" where
  "trade_as_order tv = zero_order_event\<lparr>eHeader := tHeader tv, ePair := tPair tv, ePrice := tPrice tv, eQuantity := tQuantity tv\<rparr>"

lemma trade_names_unknown:
  "list_all (\<lambda>k. to_lower k \<notin> set (map to_lower order_names))
     [''maker_user_id'', ''taker_user_id'', ''maker_order_id'', ''taker_order_id'', ''maker_filled'', ''taker_filled'',
      ''maker_remaining'', ''taker_remaining'']"
  by code_simp

lemma find_trade_fields:
  "find_field (order_fields C) ''maker_user_id'' = None" "find_field (order_fields C) ''taker_user_id'' = None"
  "find_field (order_fields C) ''maker_order_id'' = None" "find_field (order_fields C) ''taker_order_id'' = None"
  "find_field (order_fields C) ''maker_filled'' = None" "find_field (order_fields C) ''taker_filled'' = None"
  "find_field (order_fields C) ''maker_remaining'' = None" "find_field (order_fields C) ''taker_remaining'' = None"
  using trade_names_unknown by (simp_all add: find_field_None order_field_names)

lemma find_shared_fields:
  "find_field (order_fields C) ''event_id'' = Some (snd (field_str ''event_id'' (\<lambda>s. in_header (\<lambda>h. h\<lparr>hEventID := s\<rparr>))))"
  "find_field (order_fields C) ''event_type'' = Some (snd (field_str ''event_type'' (\<lambda>s. in_header (\<lambda>h. h\<lparr>hEventType := s\<rparr>))))"
  "find_field (order_fields C) ''version'' = Some (snd (field_str ''version'' (\<lambda>s. in_header (\<lambda>h. h\<lparr>hVersion := s\<rparr>))))"
  "find_field (order_fields C) ''occured_at'' =
     Some (snd (field_text False (cdReadTime C) ''occured_at'' (\<lambda>t. in_header (\<lambda>h. h\<lparr>hOccuredAt := t\<rparr>))))"
  "find_field (order_fields C) ''pair'' = Some (snd (field_str ''pair'' (\<lambda>s ev. ev\<lparr>ePair := s\<rparr>)))"
  "find_field (order_fields C) ''price'' = Some (snd (field_text True (cdReadDec C) ''price'' (\<lambda>d ev. ev\<lparr>ePrice := d\<rparr>)))"
  "find_field (order_fields C) ''quantity'' =
     Some (snd (field_text True (cdReadDec C) ''quantity'' (\<lambda>d ev. ev\<lparr>eQuantity := d\<rparr>)))"
  by (simp_all add: find_field_def order_fields_def field_defs)

lemma unmarshal_marshal_trade:
  assumes "codec_ok C" and "ascii_trade tv" and "marshal_trade C tv = Inr payload"
  shows "unmarshal_order C payload = Inr (trade_as_order tv)"
proof -
  obtain occured where t: "cdTime C (hOccuredAt (tHeader tv)) = Inr occured"
    and p: "payload = json_text (JObj (trade_members C tv occured))"
    using assms(3) by (auto simp: marshal_trade_def split: sum.splits)
  have "ascii occured" using assms(1) t by (auto simp: codec_ok_def)
  then have "members_wf (trade_members C tv occured)" using trade_members_wf assms(1,2) by blast
  moreover have "cdReadTime C occured = Some (hOccuredAt (tHeader tv))" using assms(1) t by (auto simp: codec_ok_def)
  then have "set_members (order_fields C) (trade_members C tv occured) zero_order_event = Some (trade_as_order tv)"
    using assms(1) by (simp add: trade_members_def header_members_def find_trade_fields find_shared_fields field_defs
        in_header_def codec_ok_def trade_as_order_def)
  ultimately show ?thesis by (simp add: unmarshal_order_def p decode_struct_text del: json_text.simps)
qed

subsection \<open>Properties\<close>


text \<open>Integers as decimals, and seconds as times.\<close>

definition sample_codec :: "int codec" where
  "sample_codec = \<lparr> cdDec = fmt_int, cdReadDec = (\<lambda>s. Some (read_int s)), cdTime = (\<lambda>t. Inr (fmt_int t)),
     cdReadTime = (\<lambda>s. Some (read_int s)) \<rparr>"

lemma sample_codec_ok: "codec_ok sample_codec"
  by (simp add: codec_ok_def sample_codec_def read_int_fmt ascii_fmt_int)

text \<open>A sell order whose pair name needs escaping.\<close>

definition sample_order_event :: "int order_event" where
  "sample_order_event = \<lparr> eHeader = \<lparr> hEventID = ''e-1'', hEventType = ''order.opened'', hVersion = ''1'', hOccuredAt = 7 \<rparr>,
     eID = ''o-1'', eUserID = ''u-1'', ePair = ''BTC<'' @ [quote_char], eType = ''limit'', eSide = ''sell'', eBehavior = ''GTC'',
     eExpiresAt = -5, ePrice = 100, eQuantity = 4, eFilled = 0, eStatus = ''open'', eRemainingQty = 4 \<rparr>"


end
