(* ===== verification/Notification.thy ===== *)
theory Notification
  imports Ws_Hub Order_Projection
begin

text \<open>
  \<^verbatim>\<open>websockets/notification\<close> (server.go, helper.go), the notification handlers of
  \<^verbatim>\<open>internal/usecases/order\_event\_usecases/handlers.go\<close> and the closure of \<^verbatim>\<open>cmd/notification\_consumer.go\<close>.
  A handler returns the hub and what it sends. Reading a frame is a parameter: the list of what the reads
  return, an error ending the connection. JSON encoding is a parameter.
\<close>

type_synonym 'p sends = "(nat \<times> 'p message) list"

subsection \<open>Frames of a client\<close>

definition empty_message :: "string \<Rightarrow> 'p message" where
  "empty_message t = \<lparr> msType = t, msRoom = [], msEvent = [], msPayload = None, msError = [] \<rparr>"

definition sendError :: "nat \<Rightarrow> string \<Rightarrow> 'p sends" where
  "sendError c reason = [(c, (empty_message TypeError)\<lparr>msError := reason\<rparr>)]"

definition handleMessage :: "nat \<Rightarrow> 'p message \<Rightarrow> hub \<Rightarrow> hub \<times> 'p sends" where
  "handleMessage c msg h =
     (let i = clID (hbStore h c)
      in if msType msg = TypeJoin then
           (if msRoom msg = [] then (h, sendError c ''join requires a room name'')
            else (Join i (msRoom msg) h,
                  [(c, (empty_message TypeEvent)\<lparr>msRoom := msRoom msg, msEvent := ''joined''\<rparr>)]))
         else if msType msg = TypeLeave then (Leave i (msRoom msg) h, [])
         else if msType msg = TypePing then (h, [(c, empty_message TypePong)])
         else (h, sendError c (''unknown message type: '' @ msType msg)))"

text \<open>The HTTP trigger: the status, the error of the JSON body, and the deliveries.\<close>

definition handleEmit ::
  "string \<Rightarrow> string \<Rightarrow> 'p message option \<Rightarrow> hub \<Rightarrow> nat \<times> string option \<times> 'p sends" where
  "handleEmit httpMethod room body h =
     (if httpMethod \<noteq> ''POST'' then (405, Some ''POST only'', [])
      else if room = [] then (400, Some ''missing room'', [])
      else case body of
        None \<Rightarrow> (400, Some ''bad body'', [])
      | Some msg \<Rightarrow> (204, None, BroadcastRoom room (msg\<lparr>msType := TypeEvent, msRoom := room\<rparr>) h))"

text \<open>
  The read loop of a connection, and the listener around it: \<^verbatim>\<open>Register\<close> first, \<^verbatim>\<open>Unregister\<close> deferred. The
  returned error is \<open>None\<close> while the loop still waits for a frame.
\<close>

fun read_loop :: "nat \<Rightarrow> (string + 'p message) list \<Rightarrow> hub \<Rightarrow> string option \<times> hub \<times> 'p sends" where
  "read_loop c [] h = (None, h, [])"
| "read_loop c (Inl err # reads) h = (Some (''websocket read error: '' @ err), h, [])"
| "read_loop c (Inr msg # reads) h =
     (case handleMessage c msg h of (h1, out1) \<Rightarrow>
       (case read_loop c reads h1 of (err, h2, out2) \<Rightarrow> (err, h2, out1 @ out2)))"

definition OrderEventEmitterWebsocketListener ::
  "nat \<Rightarrow> (string + 'p message) list \<Rightarrow> hub \<Rightarrow> string option \<times> hub \<times> 'p sends" where
  "OrderEventEmitterWebsocketListener c reads h =
     (case read_loop c reads (Register c h) of
        (None, h1, out) \<Rightarrow> (None, h1, out)
      | (Some err, h1, out) \<Rightarrow> (Some err, Unregister (clID (hbStore h1 c)) h1, out))"

subsection \<open>Notifications of events\<close>

definition notif_MarkEvent ::
  "string option \<Rightarrow> string \<Rightarrow> 'd db_event \<Rightarrow> 'd order_db \<Rightarrow> handler_error option \<times> 'd order_db" where
  "notif_MarkEvent fault consumer event db =
     (let id0 = (case event of OrderStatusEv e \<Rightarrow> Some (hEventID (eHeader e))
                 | TradeStatusEv e \<Rightarrow> Some (hEventID (tHeader e)) | OtherEv \<Rightarrow> None)
      in case id0 of
           None \<Rightarrow> (Some UnsupportedEventType, db)
         | Some eventID \<Rightarrow>
             if eventID = [] then (Some MissingEventID, db)
             else (case MarkEventProcessed fault consumer eventID db of
               ((inserted, err), db') \<Rightarrow>
                 if err \<noteq> None \<or> \<not> inserted then (err, db') else (None, db')))"

datatype notify_error = MarkFailed handler_error | MarshalFailed string

definition HandleNotificationForOrders ::
  "string option \<Rightarrow> ('d order_event \<Rightarrow> string + 'p) \<Rightarrow> string \<Rightarrow> 'd order_event \<Rightarrow> hub \<Rightarrow> 'd order_db \<Rightarrow>
   notify_error option \<times> 'd order_db \<times> 'p sends" where
  "HandleNotificationForOrders f1 marshal consumer event h db =
     (case notif_MarkEvent f1 consumer (OrderStatusEv event) db of
        (Some err, db1) \<Rightarrow> (Some (MarkFailed err), db1, [])
      | (None, db1) \<Rightarrow>
          (case marshal event of
             Inl err \<Rightarrow> (Some (MarshalFailed err), db1, [])
           | Inr payload \<Rightarrow> (None, db1, BroadcastUser (eUserID event)
               (NewMessage TypeEvent (hEventType (eHeader event)) (Some payload)) h)))"

definition HandleNotificationForTrades ::
  "string option \<Rightarrow> ('d trade_event \<Rightarrow> string + 'p) \<Rightarrow> string \<Rightarrow> 'd trade_event \<Rightarrow> hub \<Rightarrow> 'd order_db \<Rightarrow>
   notify_error option \<times> 'd order_db \<times> 'p sends" where
  "HandleNotificationForTrades f1 marshal consumer event h db =
     (case notif_MarkEvent f1 consumer (TradeStatusEv event) db of
        (Some err, db1) \<Rightarrow> (Some (MarkFailed err), db1, [])
      | (None, db1) \<Rightarrow>
          (case marshal event of
             Inl err \<Rightarrow> (Some (MarshalFailed err), db1, [])
           | Inr payload \<Rightarrow>
               (let msg = NewMessage TypeEvent (hEventType (tHeader event)) (Some payload)
                in (None, db1, BroadcastUser (tMakerUserID event) msg h @ BroadcastUser (tTakerUserID event) msg h))))"

text \<open>The closure of the notification consumer; an event of another kind is accepted and ignored.\<close>

definition notification_consume ::
  "string option \<Rightarrow> ('d order_event \<Rightarrow> string + 'p) \<Rightarrow> ('d trade_event \<Rightarrow> string + 'p) \<Rightarrow> string \<Rightarrow>
   'd::linordered_idom db_event \<Rightarrow> hub \<Rightarrow> 'd order_db \<Rightarrow> notify_error option \<times> 'd order_db \<times> 'p sends" where
  "notification_consume f1 marshalO marshalT groupID event h db =
     (case event of
        OrderStatusEv ev \<Rightarrow>
          (case ValidateOrderStatusEvent ev of
             Some err \<Rightarrow> (Some (MarkFailed err), db, [])
           | None \<Rightarrow> HandleNotificationForOrders f1 marshalO groupID ev h db)
      | TradeStatusEv ev \<Rightarrow>
          (case ValidateTradeStatusEvent ev of
             Some err \<Rightarrow> (Some (MarkFailed err), db, [])
           | None \<Rightarrow> HandleNotificationForTrades f1 marshalT groupID ev h db)
      | OtherEv \<Rightarrow> (None, db, []))"

subsection \<open>A connection changes only its own entries\<close>

lemma Join_clients [simp]: "hbClients (Join i room h) = hbClients h"
  by (simp add: Join_def split: option.split)

lemma Leave_clients [simp]: "hbClients (Leave i room h) = hbClients h"
  by (simp add: Leave_def split: option.split)

lemma handleMessage_clients: "hbClients (fst (handleMessage c msg h)) = hbClients h"
  by (simp add: handleMessage_def Let_def)

text \<open>What a frame of the client \<open>c\<close> preserves.\<close>

definition others_kept :: "nat \<Rightarrow> hub \<Rightarrow> hub \<Rightarrow> bool" where
  "others_kept c h h' = (hbClients h' = hbClients h \<and> (\<forall>d. d \<noteq> c \<longrightarrow> hbStore h' d = hbStore h d) \<and>
     clID (hbStore h' c) = clID (hbStore h c) \<and> clUserID (hbStore h' c) = clUserID (hbStore h c))"

lemma Join_kept: "connected h c \<Longrightarrow> others_kept c h (Join (clID (hbStore h c)) room h)"
  unfolding others_kept_def Join_def connected_def by simp

lemma Leave_kept: "connected h c \<Longrightarrow> others_kept c h (Leave (clID (hbStore h c)) room h)"
  unfolding others_kept_def Leave_def connected_def by simp

lemma others_kept_refl: "others_kept c h h"
  by (simp add: others_kept_def)

lemma handleMessage_kept:
  "connected h c \<Longrightarrow> others_kept c h (fst (handleMessage c msg h))"
  by (auto simp: handleMessage_def Let_def others_kept_refl intro: Join_kept Leave_kept)

lemma handleMessage_ok: "hub_ok h \<Longrightarrow> hub_ok (fst (handleMessage c msg h))"
  by (auto simp: handleMessage_def Let_def intro: inv_intros)

lemma others_kept_connected: "others_kept c h h' \<Longrightarrow> connected h c \<Longrightarrow> connected h' c"
  by (simp add: others_kept_def connected_def)

lemma others_kept_trans: "others_kept c h h' \<Longrightarrow> others_kept c h' h'' \<Longrightarrow> others_kept c h h''"
  by (simp add: others_kept_def)

lemma read_loop_kept:
  assumes "read_loop c reads h = (err, h', out)" and "hub_ok h" and "connected h c"
  shows "hub_ok h' \<and> others_kept c h h'"
  using assms
proof (induction c reads h arbitrary: err h' out rule: read_loop.induct)
  case (3 c msg reads h)
  obtain h1 out1 where m: "handleMessage c msg h = (h1, out1)" by fastforce
  obtain e2 h2 out2 where r: "read_loop c reads h1 = (e2, h2, out2)" by (metis surj_pair)
  have k: "others_kept c h h1" using handleMessage_kept [OF 3(4), of msg] m by simp
  have "hub_ok h1" using handleMessage_ok [OF 3(3), of c msg] m by simp
  from 3(1) [OF m [symmetric] r this others_kept_connected [OF k 3(4)]] others_kept_trans [OF k] 3(2) m r
  show ?case by simp
qed (simp_all add: others_kept_refl)

subsection \<open>Properties\<close>

text \<open>An order notification reaches the connections of the order's owner and nobody else's: when the handler
  succeeds, each connected client of the event's user gets the message once, and no client of another user
  gets anything.\<close>

theorem order_notification_to_owner_only:
  assumes "hub_reach h"
    and "HandleNotificationForOrders f1 marshal consumer event h db = (None, db', out)"
  shows "distinct (map fst out) \<and> set (map fst out) = {c. connected h c \<and> clUserID (hbStore h c) = eUserID event} \<and>
     (\<exists>payload. marshal event = Inr payload \<and>
        snd ` set out \<subseteq> {NewMessage TypeEvent (hEventType (eHeader event)) (Some payload)})"
proof -
  obtain payload where p: "marshal event = Inr payload"
    and out: "out = BroadcastUser (eUserID event) (NewMessage TypeEvent (hEventType (eHeader event)) (Some payload)) h"
    using assms(2) by (auto simp: HandleNotificationForOrders_def split: prod.splits option.splits sum.splits)
  note b = BroadcastUser_refs [OF hub_reach_ok [OF assms(1)], of "eUserID event"
      "NewMessage TypeEvent (hEventType (eHeader event)) (Some payload)"]
  show ?thesis unfolding out
    by (intro conjI exI [of _ payload] p b [THEN conjunct1] b [THEN conjunct2, THEN conjunct1]
        b [THEN conjunct2, THEN conjunct2])
qed

text \<open>An event of the user with two connections.\<close>

definition filled_event :: "int order_event" where
  "filled_event = \<lparr> eHeader = \<lparr> hEventID = ''e1'', hEventType = ''ORDER_FILLED'', hVersion = ''v1'',
       hOccuredAt = 7 \<rparr>, eID = ''o1'', eUserID = ''alice'', ePair = ''BTC-USDT'', eType = ''limit'',
     eSide = ''buy'', eBehavior = ''GTC'', eExpiresAt = 9, ePrice = 10, eQuantity = 5, eFilled = 5,
     eStatus = ''filled'', eRemainingQty = 0 \<rparr>"

definition empty_db :: "int order_db" where
  "empty_db = \<lparr> dbOrders = [], dbTrades = [], dbProcessed = [] \<rparr>"

lemma sample_notification:
  "fst (HandleNotificationForOrders None (\<lambda>ev. Inr (eID ev)) ''g'' filled_event sample_hub empty_db) = None"
  "map fst (snd (snd (HandleNotificationForOrders None (\<lambda>ev. Inr (eID ev)) ''g'' filled_event sample_hub empty_db))) = [0, 1]"
  by code_simp+

theorem order_notification_to_owner_only_witness:
  "{c. connected sample_hub c \<and> clUserID (hbStore sample_hub c) = ''alice''} = {0, 1}"
proof -
  obtain db' out where n: "HandleNotificationForOrders None (\<lambda>ev. Inr (eID ev)) ''g'' filled_event sample_hub empty_db =
      (None, db', out)" and o: "map fst out = [0, 1]"
    using sample_notification by (metis prod.collapse snd_conv)
  have "eUserID filled_event = ''alice''" by (simp add: filled_event_def)
  with order_notification_to_owner_only [OF sample_hub_reach n] o show ?thesis by auto
qed

text \<open>A connection that has ended leaves no trace: when the listener of a new connection returns, whatever
  frames it has read, the registered clients, every room's members and every user's presence are the ones
  from before it.\<close>

theorem listener_leaves_no_trace:
  assumes "hub_reach h" and "clID (hbStore h c) \<notin> fst ` set (hbClients h)" and "clRooms (hbStore h c) = []"
    and "\<forall>i d. map_of (hbClients h) i = Some d \<longrightarrow> d \<noteq> c"
    and "OrderEventEmitterWebsocketListener c reads h = (Some err, h', out)"
  shows "hbClients h' = hbClients h \<and> (\<forall>room i. entry (hbRooms h') room i = entry (hbRooms h) room i) \<and>
     (\<forall>u i. entry (hbPresence h') u i = entry (hbPresence h) u i) \<and> hbActive h' = hbActive h"
proof -
  note ok = hub_reach_ok [OF assms(1)]
  let ?h0 = "Register c h"
  have ok0: "hub_ok ?h0" using ok assms(2,3) by (rule Register_ok)
  have s0: "hbStore ?h0 = hbStore h" and c0: "hbClients ?h0 = AList.update (clID (hbStore h c)) c (hbClients h)"
    by (simp_all add: Register_def)
  then have con: "connected ?h0 c" by (simp add: connected_def update_conv')
  obtain h1 where r: "read_loop c reads ?h0 = (Some err, h1, out)" and h': "h' = Unregister (clID (hbStore h1 c)) h1"
    using assms(5) by (auto simp: OrderEventEmitterWebsocketListener_def split: prod.splits option.splits)
  have ok1: "hub_ok h1" and k: "others_kept c ?h0 h1" using read_loop_kept [OF r ok0 con] by blast+
  have ok': "hub_ok h'" unfolding h' using ok1 by (rule Unregister_ok)
  have i1: "clID (hbStore h1 c) = clID (hbStore h c)" and c1: "hbClients h1 = hbClients ?h0"
    using k s0 by (simp_all add: others_kept_def)
  have "map_of (hbClients h1) (clID (hbStore h c)) = Some c" unfolding c1 c0 by (simp add: update_conv')
  then have c': "hbClients h' = AList.delete (clID (hbStore h c)) (hbClients h1)" and s': "hbStore h' = hbStore h1"
    unfolding h' i1 by (simp_all add: Unregister_def)
  have clients: "hbClients h' = hbClients h"
    unfolding c' c1 c0 using assms(2) by (simp add: delete_update_same)
  have st: "hbStore h' d = hbStore h d" if "map_of (hbClients h) i = Some d" for i d
    using k s0 assms(4) that unfolding s' others_kept_def by metis
  note o = hub_okD [OF ok] and o' = hub_okD [OF ok']
  have "entry (hbRooms h') room i = entry (hbRooms h) room i" for room i
    unfolding o(5) o'(5) clients using st [of i] by (cases "map_of (hbClients h) i") simp_all
  moreover have "entry (hbPresence h') u i = entry (hbPresence h) u i" for u i
    unfolding o(6) o'(6) clients using st [of i] by (cases "map_of (hbClients h) i") simp_all
  moreover have "hbActive h' = hbActive h" unfolding o(7) o'(7) clients ..
  ultimately show ?thesis using clients by blast
qed

theorem listener_leaves_no_trace_witness:
  "\<exists>err h' out. OrderEventEmitterWebsocketListener 0
       [Inr \<lparr> msType = ''join'', msRoom = ''r'', msEvent = [], msPayload = None, msError = [] \<rparr> :: string + string message,
        Inl ''closed''] (New sample_clients) = (Some err, h', out) \<and> length out = 1 \<and> hbClients h' = []"
proof -
  let ?reads = "[Inr \<lparr> msType = ''join'', msRoom = ''r'', msEvent = [], msPayload = None, msError = [] \<rparr> :: string + string message,
        Inl ''closed'']"
  have e: "fst (OrderEventEmitterWebsocketListener 0 ?reads (New sample_clients)) = Some ''websocket read error: closed''"
    "length (snd (snd (OrderEventEmitterWebsocketListener 0 ?reads (New sample_clients)))) = 1"
    by code_simp+
  then obtain h' out where l: "OrderEventEmitterWebsocketListener 0 ?reads (New sample_clients) =
      (Some ''websocket read error: closed'', h', out)" and n: "length out = 1"
    by (metis prod.collapse snd_conv)
  have "clID (hbStore (New sample_clients) 0) \<notin> fst ` set (hbClients (New sample_clients))"
    "clRooms (hbStore (New sample_clients) 0) = []"
    "\<forall>i d. map_of (hbClients (New sample_clients)) i = Some d \<longrightarrow> d \<noteq> 0"
    by (simp_all add: New_def sample_clients_def NewClient_def)
  from listener_leaves_no_trace [OF hub_reach.new this l] have "hbClients h' = []" by (simp add: New_def)
  with l n show ?thesis by blast
qed

end
