(* ===== verification/Consumer_Services.thy ===== *)
theory Consumer_Services
  imports Commands Consumer_Runner Notification
begin

text \<open>
  The two consumer processes, \<^verbatim>\<open>cmd/order\_projection\_consumer.go\<close> and \<^verbatim>\<open>cmd/notification\_consumer.go\<close>: a runner on
  the order topics with the projection or the notification closure as its handler. A signal cancels the context: the
  polls until then are \<open>rounds\<close>, and the process then shuts down.
\<close>

text \<open>
  What the processes are connected to: \<open>seNewClient\<close> is \<^verbatim>\<open>kgo.NewClient\<close>, an address and the topics consumed giving an
  error; \<open>seFaults k\<close> are the errors of the two database calls in the \<open>k\<close>-th call of the handler; \<open>seStopped\<close> and
  \<open>seProduce\<close> as in the runner; \<open>seText\<close> and \<open>seNotifyText\<close> are the texts of errors, which only the log and the dead
  letters show; \<open>seSqlErr\<close> is the error of asking gorm for its connection pool.
\<close>

record ('d, 'b, 'p) service_env =
  seNewClient :: "string \<Rightarrow> string list \<Rightarrow> string option"
  seUnmarshal :: "'b \<Rightarrow> string + 'd order_event"
  seMarshal :: "'d order_event \<Rightarrow> string + 'p"
  seMarshalTrade :: "'d trade_event \<Rightarrow> string + 'p"
  seStopped :: "nat \<Rightarrow> bool"
  seProduce :: "'b kgo_record \<Rightarrow> string option"
  seFaults :: "nat \<Rightarrow> string option \<times> string option"
  seText :: "handler_error \<Rightarrow> string"
  seNotifyText :: "notify_error \<Rightarrow> string"
  seSqlErr :: bool

definition OrderProjectionConsumerDLQTopic :: string where
  "OrderProjectionConsumerDLQTopic = ''order-projection-consumer.dlq''"

text \<open>How a service ends: the exit code of a fatal error, or after a signal the connections closed, the runner, the
  handler's state, the records committed and the dead letters.\<close>

datatype ('b, 's) service_end =
    ServiceExited nat
  | ServiceStopped "conn list" runner 's "'b kgo_record list" "'b kgo_record list"

subsection \<open>The projection consumer\<close>

type_synonym 'd projection_state = "'d order_db \<times> nat"

definition projection_handler ::
  "('d, 'b, 'p) service_env \<Rightarrow> string \<Rightarrow> 'd order_event \<Rightarrow> 'b kgo_record \<Rightarrow> 'd projection_state \<Rightarrow>
   string option \<times> 'd projection_state" where
  "projection_handler E groupID event rec st =
     (case st of (db, k) \<Rightarrow>
       (case projection_consume (fst (seFaults E k)) (snd (seFaults E k)) groupID event db of
          (err, db') \<Rightarrow> (map_option (seText E) err, (db', Suc k))))"

definition projection_io ::
  "('d, 'b, 'p) service_env \<Rightarrow> string \<Rightarrow> ('d, 'b, 'd projection_state) runner_io" where
  "projection_io E groupID = \<lparr> ioUnmarshal = seUnmarshal E, ioHandler = projection_handler E groupID,
     ioStopped = seStopped E, ioProduce = seProduce E \<rparr>"

text \<open>The runner the command builds; \<open>None\<close> is a client that cannot be created, which ends the process.\<close>

definition projection_runner :: "('d, 'b, 'p) service_env \<Rightarrow> configuration \<Rightarrow> string \<Rightarrow> bool \<Rightarrow> runner option" where
  "projection_runner E cfg groupID enableDLQ =
     (let selectedTopics = projection_topics; runner = NewRunner groupID 3
      in if seNewClient E (broker_address cfg) selectedTopics \<noteq> None then None
         else if enableDLQ
         then (if seNewClient E (broker_address cfg) [] \<noteq> None then None
               else Some (WithDLQ True OrderProjectionConsumerDLQTopic runner))
         else Some runner)"

definition RunOrderProjectionConsumer ::
  "'k boot_env \<Rightarrow> ('d::linordered_idom, 'b, 'p) service_env \<Rightarrow> configuration \<Rightarrow> 'k \<Rightarrow> string \<Rightarrow> bool \<Rightarrow>
   (string option \<times> 'b kgo_record option list) list \<Rightarrow> 'd order_db \<Rightarrow> ('b, 'd projection_state) service_end" where
  "RunOrderProjectionConsumer B E cfg broker groupID enableDLQ rounds db =
     (case (NewApplication B cfg [projection_consumer_options] broker :: ('d application \<times> 'k) boot) of
        Fatal _ _ \<Rightarrow> ServiceExited 1
      | BootPanic \<Rightarrow> ServiceExited 2
      | Up (app, _) \<Rightarrow>
          (case projection_runner E cfg groupID enableDLQ of
             None \<Rightarrow> ServiceExited 1
           | Some runner \<Rightarrow>
               (case Run (projection_io E groupID) rounds runner (db, 0) of
                  (r, s, committed, dead) \<Rightarrow> ServiceStopped (Shutdown False (seSqlErr E) app) r s committed dead)))"

subsection \<open>The notification consumer\<close>

type_synonym ('d, 'p) notification_state = "'d order_db \<times> nat \<times> 'p sends"

text \<open>The runner decodes every payload as an order status event. The hub is the process's own.\<close>

definition notification_handler ::
  "('d::linordered_idom, 'b, 'p) service_env \<Rightarrow> string \<Rightarrow> hub \<Rightarrow> 'd order_event \<Rightarrow> 'b kgo_record \<Rightarrow>
   ('d, 'p) notification_state \<Rightarrow> string option \<times> ('d, 'p) notification_state" where
  "notification_handler E groupID h event rec st =
     (case st of (db, k, sends) \<Rightarrow>
       (case notification_consume (fst (seFaults E k)) (seMarshal E) (seMarshalTrade E) groupID (OrderStatusEv event) h db of
          (err, db', out) \<Rightarrow> (map_option (seNotifyText E) err, (db', Suc k, sends @ out))))"

definition notification_io ::
  "('d::linordered_idom, 'b, 'p) service_env \<Rightarrow> string \<Rightarrow> hub \<Rightarrow> ('d, 'b, ('d, 'p) notification_state) runner_io" where
  "notification_io E groupID h = \<lparr> ioUnmarshal = seUnmarshal E, ioHandler = notification_handler E groupID h,
     ioStopped = seStopped E, ioProduce = seProduce E \<rparr>"

definition notification_runner :: "('d, 'b, 'p) service_env \<Rightarrow> configuration \<Rightarrow> string \<Rightarrow> runner option" where
  "notification_runner E cfg groupID =
     (if seNewClient E (broker_address cfg) CoinhubAllCurrentOrderTopics \<noteq> None then None
      else if seNewClient E (broker_address cfg) [] \<noteq> None then None
      else Some (WithDLQ True OrderProjectionConsumerDLQTopic (NewRunner groupID 3)))"

text \<open>An event on a nil hub panics; the options of the command wire one.\<close>

definition RunNotificationConsumer ::
  "'k boot_env \<Rightarrow> ('d::linordered_idom, 'b, 'p) service_env \<Rightarrow> configuration \<Rightarrow> 'k \<Rightarrow> string \<Rightarrow>
   (string option \<times> 'b kgo_record option list) list \<Rightarrow> 'd order_db \<Rightarrow> ('b, ('d, 'p) notification_state) service_end" where
  "RunNotificationConsumer B E cfg broker groupID rounds db =
     (case (NewApplication B cfg [notification_consumer_options] broker :: ('d application \<times> 'k) boot) of
        Fatal _ _ \<Rightarrow> ServiceExited 1
      | BootPanic \<Rightarrow> ServiceExited 2
      | Up (app, _) \<Rightarrow>
          (case notification_runner E cfg groupID of
             None \<Rightarrow> ServiceExited 1
           | Some runner \<Rightarrow>
               (case apWebsocket app of
                  None \<Rightarrow> ServiceExited 2
                | Some h \<Rightarrow>
                    (case Run (notification_io E groupID h) rounds runner (db, 0, []) of
                       (r, s, committed, dead) \<Rightarrow>
                         ServiceStopped (Shutdown False (seSqlErr E) app) r s committed dead))))"

subsection \<open>One call of a handler\<close>

definition processed_ids :: "'d order_db \<Rightarrow> string set" where
  "processed_ids db = peEventID ` set (dbProcessed db)"

text \<open>Marking never forgets an ID, and without an error the ID is there, whether it was new or not.\<close>

lemma MarkEvent_ids:
  assumes "MarkEvent f c (OrderStatusEv ev) db = (err, db')"
  shows "processed_ids db \<subseteq> processed_ids db'" and "dbOrders db' = dbOrders db"
    and "err = None \<Longrightarrow> hEventID (eHeader ev) \<noteq> [] \<and> hEventID (eHeader ev) \<in> processed_ids db'"
  using assms MarkEvent_orders(1) [of f c "OrderStatusEv ev" db]
  by (auto simp: MarkEvent_def MarkEventProcessed_def NewProcessedOrderEvent_def processed_ids_def Let_def
      split: if_splits option.splits)

lemma notif_MarkEvent_eq: "notif_MarkEvent f c ev db = MarkEvent f c ev db"
  by (simp add: notif_MarkEvent_def MarkEvent_def)

text \<open>What a call of the projection does, with any faults: an error leaves the order rows, and without one the event has
  been applied and its ID marked.\<close>

lemma proj_Update_call:
  assumes "proj_UpdateOrderStatus f1 f2 g ev db = (err, db')"
  shows "processed_ids db \<subseteq> processed_ids db' \<and> (err \<noteq> None \<longrightarrow> dbOrders db' = dbOrders db) \<and>
     (err = None \<longrightarrow> hEventID (eHeader ev) \<noteq> [] \<and> hEventID (eHeader ev) \<in> processed_ids db' \<and>
        dbOrders db' = map (\<lambda>d. if dID d = eID ev then d\<lparr>dStatus := eStatus ev, dFilled := eFilled ev\<rparr> else d) (dbOrders db))"
proof -
  obtain e1 db1 where m: "MarkEvent f1 g (OrderStatusEv ev) db = (e1, db1)" by fastforce
  note MarkEvent_ids [OF m]
  then show ?thesis using assms m
    by (auto simp: proj_Update_eq UpdateOrderStatus_def processed_ids_def split: option.splits)
qed

lemma projection_call:
  assumes "projection_consume f1 f2 g ev db = (err, db')"
  shows "processed_ids db \<subseteq> processed_ids db' \<and> (err \<noteq> None \<longrightarrow> dbOrders db' = dbOrders db) \<and>
     (err = None \<longrightarrow> projected ev \<and> hEventID (eHeader ev) \<in> processed_ids db' \<and>
        dbOrders db' = map (apply_event ev) (dbOrders db))"
proof (cases "hEventType (eHeader ev) = EventOrderExpired \<or> ValidateOrderStatusEvent ev = None")
  case True
  then have "proj_UpdateOrderStatus f1 f2 g ev db = (err, db')"
    using assms by (auto simp: projection_consume_def proj_Update_eq(2) split: if_splits)
  from proj_Update_call [OF this] True show ?thesis by (auto simp: projected_def apply_event_def)
next
  case False
  then show ?thesis using assms by (auto simp: projection_consume_def)
qed

subsection \<open>The consumers as handlers of the runner\<close>

text \<open>The events of the calls that succeeded.\<close>

fun succeeded :: "('b \<Rightarrow> string + 'd order_event) \<Rightarrow> ('b kgo_record \<times> string option) list \<Rightarrow> 'd order_event list" where
  "succeeded unmarshal [] = []"
| "succeeded unmarshal ((rec, err) # log) =
     (case (err, unmarshal (rcValue rec)) of (None, Inr ev) \<Rightarrow> ev # succeeded unmarshal log
      | _ \<Rightarrow> succeeded unmarshal log)"

lemma succeeded_append [simp]: "succeeded u (log @ log') = succeeded u log @ succeeded u log'"
  by (induction u log rule: succeeded.induct) (auto split: option.split sum.split)

lemma succeeded_mem:
  "ev \<in> set (succeeded u log) \<longleftrightarrow> (\<exists>rec. (rec, None) \<in> set log \<and> u (rcValue rec) = Inr ev)"
  by (induction u log rule: succeeded.induct) (auto split: option.split sum.split)

definition projection_inv :: "('d, 'b, 'p) service_env \<Rightarrow> 'b kgo_record set \<Rightarrow> 'd order_db \<Rightarrow>
   'd projection_state \<times> ('b kgo_record \<times> string option) list \<Rightarrow> bool" where
  "projection_inv E R db0 st = (case st of ((db, k), log) \<Rightarrow>
     (let evs = succeeded (seUnmarshal E) log
      in dbOrders db = map (view_of evs) (dbOrders db0) \<and> fst ` set log \<subseteq> R \<and>
         (\<forall>ev \<in> set evs. projected ev \<and> hEventID (eHeader ev) \<in> processed_ids db)))"

interpretation projection: record_handler "logged (projection_io E groupID)" "\<lambda>rec. rec \<in> R"
  "projection_inv E R db0" "\<lambda>rec (s, log). (rec, None) \<in> set log \<and> (\<exists>ev. seUnmarshal E (rcValue rec) = Inr ev)"
  for E :: "('d, 'b, 'p) service_env" and groupID R db0
proof (unfold_locales, goal_cases)
  case (1 st rec event err st')
  obtain db k log where st: "st = ((db, k), log)" by (metis surj_pair)
  obtain e db' where c: "projection_consume (fst (seFaults E k)) (snd (seFaults E k)) groupID event db = (e, db')" by fastforce
  have u: "seUnmarshal E (rcValue rec) = Inr event" using 1(3) by (simp add: logged_def projection_io_def)
  have st': "st' = ((db', Suc k), log @ [(rec, err)])" and err: "err = map_option (seText E) e"
    using 1(5) by (auto simp: st logged_def projection_io_def projection_handler_def c)
  note call = projection_call [OF c]
  have "map (apply_event event) (map (view_of evs) ds) = map (view_of (evs @ [event])) ds" for evs and ds :: "'d db_order list"
    by (simp add: apply_view comp_def)
  with 1(1,2) call u have "projection_inv E R db0 st'"
    by (cases e) (auto simp: projection_inv_def st st' err Let_def)
  then show ?case using u by (auto simp: st st')
qed

text \<open>The hub of a process that has just started has nobody to send to.\<close>

lemma New_silent: "BroadcastUser userID msg (New store) = []"
  by (simp add: BroadcastUser_def New_def inner_def)

definition notification_inv :: "('d, 'p) notification_state \<Rightarrow> bool" where
  "notification_inv st = (snd (snd st) = [])"

definition notification_done ::
  "('d, 'b, 'p) service_env \<Rightarrow> 'b kgo_record \<Rightarrow> ('d, 'p) notification_state \<Rightarrow> bool" where
  "notification_done E rec st =
     (\<exists>ev. seUnmarshal E (rcValue rec) = Inr ev \<and> hEventID (eHeader ev) \<in> processed_ids (fst st))"

lemma notification_call:
  assumes "notification_consume f mo mt g (OrderStatusEv ev) (New store) db = (err, db', out)"
  shows "out = [] \<and> processed_ids db \<subseteq> processed_ids db' \<and> (err = None \<longrightarrow> hEventID (eHeader ev) \<in> processed_ids db')"
proof (cases "ValidateOrderStatusEvent ev")
  case None
  obtain e1 db1 where m: "MarkEvent f g (OrderStatusEv ev) db = (e1, db1)" by fastforce
  note MarkEvent_ids [OF m]
  then show ?thesis using assms m None
    by (auto simp: notification_consume_def HandleNotificationForOrders_def notif_MarkEvent_eq New_silent
        split: option.splits sum.splits)
qed (use assms in \<open>auto simp: notification_consume_def\<close>)

interpretation notification: record_handler "notification_io E groupID (New store)" "\<lambda>_. True" notification_inv
  "notification_done E" for E :: "('d::linordered_idom, 'b, 'p) service_env" and groupID store
proof (unfold_locales, goal_cases)
  case (1 st rec event err st')
  obtain db k sends where st: "st = (db, k, sends)" by (metis surj_pair)
  obtain e db' out where c: "notification_consume (fst (seFaults E k)) (seMarshal E) (seMarshalTrade E) groupID
      (OrderStatusEv event) (New store) db = (e, db', out)" by (metis surj_pair)
  have "st' = (db', Suc k, sends @ out)" "err = map_option (seNotifyText E) e" "seUnmarshal E (rcValue rec) = Inr event"
    using 1(3,5) by (auto simp: st notification_io_def notification_handler_def c)
  with notification_call [OF c] 1(1) show ?case
    by (auto simp: notification_inv_def notification_done_def st)
qed

subsection \<open>Samples\<close>

definition sample_service :: "(nat \<Rightarrow> string option \<times> string option) \<Rightarrow> (int, int order_event, nat) service_env" where
  "sample_service faults = \<lparr> seNewClient = (\<lambda>_ _. None), seUnmarshal = Inr, seMarshal = (\<lambda>_. Inr 0),
     seMarshalTrade = (\<lambda>_. Inr 0), seStopped = (\<lambda>_. False), seProduce = (\<lambda>_. None), seFaults = faults,
     seText = (\<lambda>_. ''error''), seNotifyText = (\<lambda>_. ''error''), seSqlErr = False \<rparr>"

definition sample_fill :: "int order_event kgo_record" where
  "sample_fill = \<lparr> rcTopic = ''coinhub.order.filled'', rcKey = ''BTC-USDT'',
     rcValue = status_event ''e1'' ''o1'' ''filled'' 5, rcHeaders = [] \<rparr>"

text \<open>A database that fails once, in the second call of the first attempt.\<close>

definition one_fault :: "nat \<Rightarrow> string option \<times> string option" where
  "one_fault k = (None, if k = 0 then Some ''connection reset'' else None)"

lemma sample_projection:
  "Run (projection_io (sample_service one_fault) ''g'') [(None, [Some sample_fill])] (NewRunner ''g'' 3) (sample_db, 0) =
     ((NewRunner ''g'' 3)\<lparr>rnRetried := 1, rnProcessed := 1\<rparr>,
      (\<lparr> dbOrders = [(sample_row ''o1'')\<lparr>dStatus := ''filled'', dFilled := 5\<rparr>, sample_row ''o2''], dbTrades = [],
         dbProcessed = [\<lparr> peEventID = ''e1'', peConsumer = ''g'' \<rparr>] \<rparr>, 2),
      [sample_fill], [])"
  by code_simp

lemma sample_notification_run:
  "Run (notification_io (sample_service one_fault) ''g'' (New (\<lambda>_. NewClient [] []))) [(None, [Some sample_fill])]
      (WithDLQ True OrderProjectionConsumerDLQTopic (NewRunner ''g'' 3)) (sample_db, 0, []) =
     ((WithDLQ True OrderProjectionConsumerDLQTopic (NewRunner ''g'' 3))\<lparr>rnProcessed := 1\<rparr>,
      (sample_db\<lparr>dbProcessed := [\<lparr> peEventID = ''e1'', peConsumer = ''g'' \<rparr>]\<rparr>, 1, []), [sample_fill], [])"
  by code_simp

subsection \<open>Properties\<close>

text \<open>What a service that stops has done.\<close>

lemma RunOrderProjectionConsumer_Stopped:
  fixes db :: "'d::linordered_idom order_db"
  assumes "RunOrderProjectionConsumer B E cfg broker groupID enableDLQ rounds db = ServiceStopped closed r (db', k) committed dead"
  obtains runner log where "projection_runner E cfg groupID enableDLQ = Some runner"
    and "Run (logged (projection_io E groupID)) rounds runner ((db, 0), []) = (r, ((db', k), log), committed, dead)"
    and "closed = (if seSqlErr E then [] else [MySqlConn])"
proof -
  obtain app broker' where up: "NewApplication B cfg [projection_consumer_options] broker = Up (app :: 'd application, broker')"
    using assms by (auto simp: RunOrderProjectionConsumer_def split: boot.splits)
  then have app: "app = wired_application B cfg projection_consumer_options" by (simp add: NewApplication_Up)
  obtain runner where run: "projection_runner E cfg groupID enableDLQ = Some runner"
    "Run (projection_io E groupID) rounds runner (db, 0) = (r, (db', k), committed, dead)"
    and closed: "closed = Shutdown False (seSqlErr E) app"
    using assms by (auto simp: RunOrderProjectionConsumer_def up split: option.splits prod.splits)
  have "closed = (if seSqlErr E then [] else [MySqlConn])"
    by (simp add: closed app Shutdown_def wired_application_def given_def command_options_defs)
  moreover obtain log where "Run (logged (projection_io E groupID)) rounds runner ((db, 0), []) = (r, ((db', k), log), committed, dead)"
    using Run_logged [of "projection_io E groupID" rounds runner "(db, 0)" "[]"] run(2)
    by (auto simp: forget_def split: prod.splits)
  ultimately show thesis using that run(1) by blast
qed

lemma projection_runner_Some:
  "projection_runner E cfg groupID enableDLQ = Some runner \<Longrightarrow>
     rnMaxRetries runner = 3 \<and> rnHasDlq runner = enableDLQ \<and> (enableDLQ \<longrightarrow> rnDlqTopic runner = OrderProjectionConsumerDLQTopic)"
  by (auto simp: projection_runner_def NewRunner_def WithDLQ_def Let_def split: if_splits)

text \<open>The events a service that stops has applied.\<close>

lemma projection_service_events:
  fixes db :: "'d::linordered_idom order_db"
  assumes "RunOrderProjectionConsumer B E cfg broker groupID enableDLQ rounds db = ServiceStopped closed r (db', k) committed dead"
  shows "\<exists>evs. dbOrders db' = map (\<lambda>d. case last_event (dID d) evs of None \<Rightarrow> d
            | Some ev \<Rightarrow> d\<lparr>dStatus := eStatus ev, dFilled := eFilled ev\<rparr>) (dbOrders db) \<and>
       (\<forall>ev \<in> set evs. projected ev \<and> hEventID (eHeader ev) \<in> peEventID ` set (dbProcessed db') \<and>
          (\<exists>rec \<in> fetched rounds. seUnmarshal E (rcValue rec) = Inr ev)) \<and>
       (\<forall>rec \<in> set committed. (\<exists>ev \<in> set evs. seUnmarshal E (rcValue rec) = Inr ev) \<or>
          (\<exists>reason. dead_letter OrderProjectionConsumerDLQTopic reason rec \<in> set dead)) \<and>
       (\<not> enableDLQ \<longrightarrow> dead = []) \<and> closed = (if seSqlErr E then [] else [MySqlConn])"
proof -
  obtain runner log where runner: "projection_runner E cfg groupID enableDLQ = Some runner"
    and run: "Run (logged (projection_io E groupID)) rounds runner ((db, 0), []) = (r, ((db', k), log), committed, dead)"
    and closed: "closed = (if seSqlErr E then [] else [MySqlConn])"
    by (rule RunOrderProjectionConsumer_Stopped [OF assms])
  note rn = projection_runner_Some [OF runner]
  have "projection_inv E (fetched rounds) db ((db, 0), [])"
    by (auto simp: projection_inv_def view_of_def last_event_def intro!: map_idI [symmetric])
  with rn projection.Run_outcome [where r = runner and s = "((db, 0), [])" and rounds = rounds and E = E and
      groupID = groupID and R = "fetched rounds" and ?db0.0 = db]
  have o: "outcome (projection_inv E (fetched rounds) db)
      (\<lambda>rec (s, log). (rec, None) \<in> set log \<and> (\<exists>ev. seUnmarshal E (rcValue rec) = Inr ev)) runner ((db, 0), [])
      (r, ((db', k), log), committed, dead)" by (simp add: run)
  let ?evs = "succeeded (seUnmarshal E) log"
  from o have inv: "dbOrders db' = map (view_of ?evs) (dbOrders db)" "fst ` set log \<subseteq> fetched rounds"
      "\<forall>ev \<in> set ?evs. projected ev \<and> hEventID (eHeader ev) \<in> processed_ids db'"
    and settled: "\<forall>rec \<in> set committed. ((rec, None) \<in> set log \<and> (\<exists>ev. seUnmarshal E (rcValue rec) = Inr ev)) \<or>
          (\<exists>reason. dead_letter (rnDlqTopic runner) reason rec \<in> set dead)"
    and nodlq: "\<not> enableDLQ \<Longrightarrow> dead = []"
    using rn by (simp_all add: outcome_def projection_inv_def Let_def)
  have com: "\<forall>rec \<in> set committed. (\<exists>ev \<in> set ?evs. seUnmarshal E (rcValue rec) = Inr ev) \<or>
          (\<exists>reason. dead_letter (rnDlqTopic runner) reason rec \<in> set dead)"
    using settled succeeded_mem [of _ "seUnmarshal E" log] by blast
  have "\<exists>rec \<in> fetched rounds. seUnmarshal E (rcValue rec) = Inr ev" if "ev \<in> set ?evs" for ev
    using that inv(2) by (force simp: succeeded_mem)
  moreover have "\<forall>rec \<in> set committed. (\<exists>ev \<in> set ?evs. seUnmarshal E (rcValue rec) = Inr ev) \<or>
          (\<exists>reason. dead_letter OrderProjectionConsumerDLQTopic reason rec \<in> set dead)"
    using com rn nodlq by (cases enableDLQ) auto
  ultimately show ?thesis using inv(1,3) closed nodlq unfolding view_of_def processed_ids_def
    by (intro exI [of _ ?evs]) blast
qed


lemma consumer_up:
  assumes "opts = projection_consumer_options \<or> opts = notification_consumer_options" and "calm B cfg"
  shows "NewApplication B cfg [opts] broker = Up (wired_application B cfg opts :: 'd::linordered_idom application, broker)"
proof -
  note calm = assms(2) [unfolded calm_def]
  have "can_boot B (boot_engine B :: 'd engine option) cfg opts broker broker"
    using assms(1) by (elim disjE; simp add: can_boot_def calm command_options_defs)
  then show ?thesis by (simp add: NewApplication_Up)
qed




end
