(* ===== verification/Event_Journey.thy ===== *)
theory Event_Journey
  imports Event_Codec Event_Producer Consumer_Services
begin

text \<open>
  An event on its way from the engine to the tables: encoded and handed to the broker by the producers of
  \<^verbatim>\<open>adapter/messaging/kafka\<close>, fetched by the runner of the projection consumer, decoded, and applied. The JSON of the
  two ends is that of \<^verbatim>\<open>Event_Codec\<close>. The broker hands out the records as it got them.
\<close>

definition delivered :: "'b kafka_record \<Rightarrow> 'b kgo_record" where
  "delivered r = \<lparr> rcTopic = krTopic r, rcKey = krKey r, rcValue = krValue r,
     rcHeaders = [(''event_type'', krEventType r), (''event_id'', krEventID r), (''event_version'', krVersion r)] \<rparr>"

subsection \<open>Lemmas\<close>

lemma consume_projected:
  assumes "projected ev"
  shows "projection_consume None None g ev db = (None, snd (projection_consume None None g ev db))"
proof -
  have "fst (proj_UpdateOrderStatus None None g ev db) = None"
    using assms MarkEvent_fst(1) [of g ev db]
    by (cases "MarkEvent None g (OrderStatusEv ev) db") (simp add: proj_Update_eq UpdateOrderStatus_def projected_def)
  then have "fst (projection_consume None None g ev db) = None"
    using assms by (auto simp: projection_consume_def proj_Update_eq(2) projected_def)
  then show ?thesis by (metis prod.collapse)
qed

text \<open>A poll of events that are accepted, with a database that answers, applies them in sequence and lets all go through.\<close>

lemma process_projected:
  assumes "\<And>k. seFaults E k = (None, None)"
    and "list_all2 (\<lambda>ev rec. seUnmarshal E (rcValue rec) = Inr ev \<and> projected ev) evs recs" and "0 \<le> rnMaxRetries r"
  shows "\<exists>r'. process_batch (projection_io E g) (map Some recs) r (db, k) =
     (r', (project_all g evs db, k + length evs), recs, [])"
  using assms(2,3)
proof (induction evs recs arbitrary: r db k rule: list_all2_induct)
  case Nil
  show ?case by (simp add: project_all_def)
next
  case (Cons ev evs rec recs)
  let ?db = "snd (projection_consume None None g ev db)" and ?r = "r\<lparr>rnProcessed := rnProcessed r + 1\<rparr>"
  obtain db' where "projection_consume None None g ev db = (None, db')"
    using consume_projected [of ev g db] Cons.hyps(1) by blast
  then have "processRecord (projection_io E g) rec r (db, k) = ((None, r, []), (?db, Suc k))"
    using Cons.hyps(1) Cons.prems assms(1)
    by (simp add: processRecord_def attempts.simps projection_io_def projection_handler_def projected_def)
  moreover obtain r' where "process_batch (projection_io E g) (map Some recs) ?r (?db, Suc k) =
      (r', (project_all g evs ?db, Suc k + length evs), recs, [])"
    using Cons.IH [of ?r ?db "Suc k"] Cons.prems by auto
  ultimately show ?case by (simp add: project_all_def)
qed

text \<open>A published batch, delivered, decodes to the events it was made of.\<close>

lemma published_decodes:
  assumes "codec_ok C" and "list_all ascii_order evs"
    and "prod_PublishOrderEventBatch (marshal_order C) produce evs = Some (None, rs)"
  shows "list_all2 (\<lambda>ev rec. unmarshal_order C (rcValue rec) = Inr ev \<and>
     rcTopic rec = CoinhubOrderEventDispatcher (hEventType (eHeader ev))) evs (map delivered rs)"
proof -
  have "list_all2 (order_record_of (marshal_order C)) evs rs"
    using order_pub.batch_success assms(3) unfolding prod_PublishOrderEventBatch_def by blast
  then show ?thesis using assms(2)
    by (induction evs rs rule: list_all2_induct)
       (simp_all add: delivered_def order_record_of_def unmarshal_marshal_order [OF assms(1)])
qed

lemma projection_topic: "et \<noteq> EventOrderSubmitted \<Longrightarrow> CoinhubOrderEventDispatcher et \<in> set projection_topics"
  by (simp add: projection_topics_def CoinhubAllOrderTopicsByEventTypes_def CoinhubOrderEventDispatcher_def)

text \<open>A trade event read as an order event has neither an order nor a user.\<close>

lemma trade_not_projected:
  "hEventType (tHeader tv) \<noteq> EventOrderExpired \<Longrightarrow> \<not> projected (trade_as_order tv)"
  by (simp add: projected_def trade_as_order_def ValidateOrderStatusEvent_def zero_order_event_def)

text \<open>The other way, from the API to the engine: a valid submission that was published is decoded by the engine's consumer to
  the event that was sent, and its order joins the channel of its pair.\<close>

lemma submission_reaches_channel:
  fixes C :: "'d::linordered_idom codec"
  assumes "codec_ok C" and "ascii_order ev" and "prod_PublishOrderEvent (marshal_order C) produce ev = Some (None, [r])"
    and "ValidateOrderStatusEvent ev = None" and "hEventID (eHeader ev) \<noteq> []"
    and "meRouter me = Some workers" and "workers (ePair ev) = Some ch" and "length ch < OrderChanBufferSize"
  shows "unmarshal_order C (rcValue (delivered r)) = Inr ev \<and>
     (\<exists>db'. engine_consume None e n ev db me =
        Sent (None, db', me\<lparr>meRouter := Some (workers(ePair ev \<mapsto> ch @ [order_of_event e n ev]))\<rparr>))"
proof
  have "marshal_order C ev = Inr (krValue r)" using order_pub.pub_success [OF assms(3)] by (auto simp: order_record_of_def)
  then show "unmarshal_order C (rcValue (delivered r)) = Inr ev"
    by (simp add: delivered_def unmarshal_marshal_order [OF assms(1,2)])
  obtain db' where "MarkEvent None OrderSubmittedConsumerGroupID (OrderStatusEv ev) db = (None, db')"
    using MarkEvent_fst(1) [of OrderSubmittedConsumerGroupID ev db] assms(5) by (metis prod.collapse)
  then show "\<exists>db'. engine_consume None e n ev db me =
        Sent (None, db', me\<lparr>meRouter := Some (workers(ePair ev \<mapsto> ch @ [order_of_event e n ev]))\<rparr>)"
    using assms(4,6-8) by (simp add: engine_consume_def HandleIncmingOrder_def routeOrderEventFanOut_def addOrder_def)
qed

subsection \<open>Properties\<close>

text \<open>The services of the samples: the JSON of \<^verbatim>\<open>Event_Codec\<close> at both ends, a database and a broker without faults.\<close>

definition json_service :: "(int, string, string) service_env" where
  "json_service = \<lparr> seNewClient = (\<lambda>_ _. None), seUnmarshal = unmarshal_order sample_codec,
     seMarshal = marshal_order sample_codec, seMarshalTrade = marshal_trade sample_codec, seStopped = (\<lambda>_. False),
     seProduce = (\<lambda>_. None), seFaults = (\<lambda>_. (None, None)), seText = (\<lambda>_. ''error''), seNotifyText = (\<lambda>_. ''error''),
     seSqlErr = False \<rparr>"

lemma json_service_simps [simp]:
  "seNewClient json_service = (\<lambda>_ _. None)" "seUnmarshal json_service = unmarshal_order sample_codec"
  "seFaults json_service = (\<lambda>_. (None, None))" "seStopped json_service = (\<lambda>_. False)"
  "seProduce json_service = (\<lambda>_. None)" "seText json_service = (\<lambda>_. ''error'')"
  by (simp_all add: json_service_def)

lemma sample_publish:
  "\<exists>r. prod_PublishOrderEventBatch (marshal_order sample_codec) (\<lambda>_. None) [sample_event] = Some (None, [r])"
  by (simp add: prod_PublishOrderEventBatch_def prod_PublishOrderEvent_def publishOrderEvent_def marshal_order_def
      sample_codec_def sample_event_def GetQuoteAsset_def del: json_text.simps)

lemma sample_publish_trade:
  "\<exists>r. prod_PublishTradeStatusEvent (marshal_trade sample_codec) (\<lambda>_. None) sample_trade = Some (None, [r]) \<and>
     marshal_trade sample_codec sample_trade = Inr (krValue r)"
  by (simp add: prod_PublishTradeStatusEvent_def publishTradeStatusEvent_def marshal_trade_def sample_codec_def
      del: json_text.simps)





end
