(* ===== verification/Http_Router.thy ===== *)
theory Http_Router
  imports Commands Order_Http Notification
begin

text \<open>
  The HTTP surface: the routes and middleware of \<^verbatim>\<open>internal/adapter/handler/http/router.go\<close>, and the health endpoint
  (health.go). Routes are built as the code builds them, group by group, each with the middleware in force when it is
  registered. The bodies of the endpoints are in the theories of the components; here they are a parameter, a
  handler for each endpoint over a state \<open>'a\<close>. Panels of other packages (\<^verbatim>\<open>/metrics\<close>, \<^verbatim>\<open>/swagger\<close>, \<^verbatim>\<open>/monitoring\<close>, the
  admin panel) and the CORS middleware are parameters too.
\<close>

subsection \<open>Building the table\<close>

datatype http_method = GET | POST | DELETE

datatype endpoint =
    Health | AddAsset | PlaceLimit | PlaceMarket | CancelOrder | OrderEvents
  | RegisterUser | LoginUsername | LoginGmail | VerifyCode | ResendCode | MockLogin | Withdraw
  | MetricsPage | SwaggerPage | MonitoringPage | AdminPanel

datatype middleware =
    UseLogger | UseRecovery | UseMetrics | UseSecurityHeaders | UseForwarded | UseRateLimiter int | UseCors string
  | UseAuth | UseRole "string list"

record group =
  grPath :: string
  grChain :: "middleware list"

record route =
  rtMethod :: http_method
  rtPath :: string
  rtChain :: "middleware list"
  rtEndpoint :: endpoint

text \<open>gin joins the paths of a group and of what is added to it, keeping a final slash.\<close>

definition join_paths :: "string \<Rightarrow> string \<Rightarrow> string" where
  "join_paths absolute relative =
     (if relative = [] then absolute
      else let final = path_join [absolute, relative]
           in if last relative = CHR ''/'' \<and> last final \<noteq> CHR ''/'' then final @ ''/'' else final)"

definition sub_group :: "string \<Rightarrow> group \<Rightarrow> group" where
  "sub_group path g = g\<lparr>grPath := join_paths (grPath g) path\<rparr>"

definition add_mw :: "middleware \<Rightarrow> group \<Rightarrow> group" where
  "add_mw mw g = g\<lparr>grChain := grChain g @ [mw]\<rparr>"

definition add_route :: "http_method \<Rightarrow> string \<Rightarrow> endpoint \<Rightarrow> group \<Rightarrow> route" where
  "add_route meth path ep g =
     \<lparr> rtMethod = meth, rtPath = join_paths (grPath g) path, rtChain = grChain g, rtEndpoint = ep \<rparr>"

definition registerOrderWebsocketRoutes :: "group \<Rightarrow> route list" where
  "registerOrderWebsocketRoutes r =
     (let eventsGroup = add_mw (UseRole [RoleUser]) (sub_group ''/events'' r)
      in [add_route GET ''/ws'' OrderEvents eventsGroup])"

definition registerOrderRoutes :: "group \<Rightarrow> route list" where
  "registerOrderRoutes r =
     (let orderGroup = add_mw (UseRole [RoleUser]) (add_mw UseAuth (sub_group ''/order'' r))
      in [add_route POST ''/limit'' PlaceLimit orderGroup,
          add_route POST ''/market'' PlaceMarket orderGroup,
          add_route DELETE ''/cancel'' CancelOrder orderGroup] @ registerOrderWebsocketRoutes orderGroup)"

text \<open>The user group has its middleware and no endpoint.\<close>

definition registerUserRoutes :: "group \<Rightarrow> route list" where
  "registerUserRoutes r = (let userGroup = add_mw (UseRole [RoleUser]) (add_mw UseAuth (sub_group ''/user'' r)) in [])"

definition registerAuthRoutes :: "configuration \<Rightarrow> group \<Rightarrow> route list" where
  "registerAuthRoutes cfg r =
     (let authGroup = sub_group ''auth'' r
      in [add_route POST ''/register'' RegisterUser authGroup,
          add_route POST ''/login/username'' LoginUsername authGroup,
          add_route POST ''/login/gmail'' LoginGmail authGroup,
          add_route POST ''/verify/gmail-code'' VerifyCode authGroup,
          add_route POST ''/resend/gmail-code'' ResendCode authGroup] @
         (if appEnv cfg = ''DEVELOPMENT'' then [add_route POST ''/mock/login'' MockLogin authGroup] else []))"

definition registerTransactionRoutes :: "group \<Rightarrow> route list" where
  "registerTransactionRoutes r =
     (let transactionGroup = add_mw (UseRole [RoleUser]) (add_mw UseAuth (sub_group ''transaction'' r))
      in [add_route POST ''/withdraw'' Withdraw transactionGroup])"

definition registerSystemRoutes :: "group \<Rightarrow> route list" where
  "registerSystemRoutes r =
     (let systemGroup = add_mw (UseRole [RoleAdmin, RoleSystem]) (add_mw UseAuth (sub_group ''system'' r));
          operationGroup = sub_group ''operation'' systemGroup;
          assetOperationsGroup = sub_group ''asset'' operationGroup
      in [add_route POST ''/add'' AddAsset assetOperationsGroup])"

definition setupRoutes :: "configuration \<Rightarrow> group \<Rightarrow> route list" where
  "setupRoutes cfg r =
     [add_route GET ''/health'' Health r] @ registerSystemRoutes r @ registerUserRoutes r @ registerAuthRoutes cfg r @
     registerTransactionRoutes r @ registerOrderRoutes r"

text \<open>The chain of the routes; the admin panel is mounted before it and has the default one.\<close>

definition router_chain :: "configuration \<Rightarrow> middleware list" where
  "router_chain cfg =
     [UseLogger, UseRecovery] @ [UseRecovery, UseLogger, UseMetrics] @
     (if appEnv cfg \<noteq> ''DEVELOPMENT''
      then [UseSecurityHeaders, UseForwarded, UseRateLimiter 60, UseCors (originFrontend cfg)] else [])"

definition SetupRouter :: "(configuration \<Rightarrow> string option) \<Rightarrow> configuration \<Rightarrow> string + route list" where
  "SetupRouter adminErr cfg =
     (let router0 = \<lparr> grPath = ''/'', grChain = [UseLogger, UseRecovery] \<rparr>;
          admin = [add_route GET ''/admin/*any'' AdminPanel router0, add_route POST ''/admin/*any'' AdminPanel router0];
          router = \<lparr> grPath = ''/'', grChain = router_chain cfg \<rparr>
      in case adminErr cfg of
           Some err \<Rightarrow> Inl err
         | None \<Rightarrow> Inr (admin @
             [add_route GET ''/metrics'' MetricsPage router,
              add_route GET ''/swagger/*any'' SwaggerPage router,
              add_route GET ''/monitoring'' MonitoringPage router,
              add_route GET ''/monitoring/*any'' MonitoringPage router] @
             setupRoutes cfg (sub_group ''/v1'' router)))"

subsection \<open>Serving a request\<close>

text \<open>A path is that of its route, or extends a catch-all one.\<close>

definition path_matches :: "string \<Rightarrow> string \<Rightarrow> bool" where
  "path_matches pattern path =
     (if suffix ''*any'' pattern then prefix (take (length pattern - 4) pattern) path else pattern = path)"

record 'a serving =
  svJwtParse :: "string \<Rightarrow> string \<Rightarrow> string + (bool \<times> string option)"
  svSecret :: string
  svRoleFault :: "string option"
  svUuidParse :: "string \<Rightarrow> string option"
  svUsers :: "'a \<Rightarrow> user_db"
  svRedis :: "'a redis"
  svWindow :: time
  svFmtTime :: "time \<Rightarrow> string"
  svClock :: "int env"
  svCors :: "string \<Rightarrow> 'a rest \<Rightarrow> 'a rest"

text \<open>A recovered panic is answered with an empty 500. Logs and metrics are not part of the state.\<close>

definition recovery :: "'a rest \<Rightarrow> 'a rest" where
  "recovery next c s =
     (case next c s of
        (None, s') \<Rightarrow> (Some (respond \<lparr> anStatus = 500, anBody = NoBody \<rparr> c), s') | r \<Rightarrow> r)"

fun run_middleware :: "'a serving \<Rightarrow> middleware \<Rightarrow> 'a rest \<Rightarrow> 'a rest" where
  "run_middleware V UseLogger next = next"
| "run_middleware V UseMetrics next = next"
| "run_middleware V UseRecovery next = recovery next"
| "run_middleware V UseSecurityHeaders next = SecurityHeadersMiddleware next"
| "run_middleware V UseForwarded next = forwarded next"
| "run_middleware V (UseRateLimiter n) next = rateLimiter (svRedis V) (svWindow V) (svFmtTime V) (svClock V) 0 n next"
| "run_middleware V (UseCors origin) next = svCors V origin next"
| "run_middleware V UseAuth next = AuthMiddleware (svJwtParse V) (svSecret V) next"
| "run_middleware V (UseRole roles) next =
     (\<lambda>c s. RequireRole (svRoleFault V) (svUuidParse V) (svUsers V s) roles next c s)"

definition run_chain :: "'a serving \<Rightarrow> middleware list \<Rightarrow> 'a rest \<Rightarrow> 'a rest" where
  "run_chain V chain handler = foldr (run_middleware V) chain handler"

definition find_route :: "route list \<Rightarrow> http_method \<Rightarrow> string \<Rightarrow> route option" where
  "find_route routes meth path = find (\<lambda>r. rtMethod r = meth \<and> path_matches (rtPath r) path) routes"

text \<open>A path of no route passes the engine's middleware and is answered 404. (gin's redirect of a path that differs in a final
  slash is left out.)\<close>

definition page_not_found :: "'a rest" where
  "page_not_found c s = (Some (respond \<lparr> anStatus = 404, anBody = PlainText ''404 page not found'' \<rparr> c), s)"

definition serve ::
  "'a serving \<Rightarrow> configuration \<Rightarrow> route list \<Rightarrow> (endpoint \<Rightarrow> 'a rest) \<Rightarrow> http_method \<Rightarrow> string \<Rightarrow> 'a rest" where
  "serve V cfg routes handlers meth path =
     (case find_route routes meth path of
        None \<Rightarrow> run_chain V (router_chain cfg) page_not_found
      | Some r \<Rightarrow> run_chain V (rtChain r) (handlers (rtEndpoint r)))"

subsection \<open>Health (health.go)\<close>

text \<open>The services that are wired, with the error of their ping; \<open>dbErr\<close> is that of the pool, or of its ping.\<close>

definition health_checks ::
  "string option \<Rightarrow> string option \<Rightarrow> string option \<Rightarrow> 'd application \<Rightarrow> (string \<times> string option) list" where
  "health_checks dbErr redisErr kafkaErr app =
     (if apMySqlGorm app \<noteq> None then [(''postgres'', dbErr)] else []) @
     (if apRedisClient app \<noteq> None then [(''redis'', redisErr)] else []) @
     (if apEngineEventProducer app \<noteq> None then [(''kafka'', kafkaErr)] else [])"

definition HealthCheckHandler ::
  "string option \<Rightarrow> string option \<Rightarrow> string option \<Rightarrow> 'd application \<Rightarrow> gctx \<Rightarrow> gctx" where
  "HealthCheckHandler dbErr redisErr kafkaErr app c =
     (let checks = health_checks dbErr redisErr kafkaErr app;
          services = map (\<lambda>(name, err). case err of
            Some e \<Rightarrow> (name, ''error'', e) | None \<Rightarrow> (name, ''ok'', [])) checks;
          overall = (if list_ex (\<lambda>(_, err). err \<noteq> None) checks then ''degraded'' else ''ok'');
          statusCode = (if overall = ''degraded'' then 503 else 200)
      in respond \<lparr> anStatus = statusCode, anBody = HealthResponse overall services \<rparr> c)"

subsection \<open>The websocket endpoint (router.go)\<close>

text \<open>
  What stands around the listener of a connection: the user's identifier is the connection's too. \<open>unwrappable\<close> says
  whether the response writer can be unwrapped, \<open>acceptErr\<close> is the error of the handshake, \<open>c\<close> the new connection and
  \<open>reads\<close> its frames. A refusal before the handshake has a status, one after it a close reason.
\<close>

datatype ws_outcome = WsStatus nat | WsNotAccepted string | WsClosed string | WsServed "string option"

definition apiWebsocketHandler ::
  "bool \<Rightarrow> string option \<Rightarrow> (string \<Rightarrow> string option) \<Rightarrow> string option \<Rightarrow> user_db \<Rightarrow> string option \<Rightarrow> nat \<Rightarrow>
   (string + 'p message) list \<Rightarrow> hub \<Rightarrow> ws_outcome \<times> hub \<times> 'p sends" where
  "apiWebsocketHandler unwrappable acceptErr uuidParse fault db userID c reads h =
     (case userID of
        None \<Rightarrow> (WsStatus 401, h, [])
      | Some rawID \<Rightarrow>
          if \<not> unwrappable then (WsStatus 500, h, [])
          else case acceptErr of
            Some err \<Rightarrow> (WsNotAccepted err, h, [])
          | None \<Rightarrow>
              (case uuidParse rawID of
                 None \<Rightarrow> (WsClosed ''invalid user ID'', h, [])
               | Some parsedUserID \<Rightarrow>
                   (case GetUserByID fault parsedUserID db of
                      Inl _ \<Rightarrow> (WsClosed ''user lookup failed'', h, [])
                    | Inr user \<Rightarrow>
                        (case OrderEventEmitterWebsocketListener c reads
                                (h\<lparr>hbStore := (hbStore h)(c := NewClient (usID user) (usID user))\<rparr>) of
                           (err, h', out) \<Rightarrow> (WsServed err, h', out)))))"

subsection \<open>Lemmas\<close>

lemma join_paths_eq [simp]:
  "join_paths ''/'' ''/v1'' = ''/v1''" "join_paths ''/'' ''/metrics'' = ''/metrics''"
  "join_paths ''/'' ''/swagger/*any'' = ''/swagger/*any''" "join_paths ''/'' ''/monitoring'' = ''/monitoring''"
  "join_paths ''/'' ''/monitoring/*any'' = ''/monitoring/*any''" "join_paths ''/'' ''/admin/*any'' = ''/admin/*any''"
  "join_paths ''/v1'' ''/health'' = ''/v1/health''" "join_paths ''/v1'' ''system'' = ''/v1/system''"
  "join_paths ''/v1/system'' ''operation'' = ''/v1/system/operation''"
  "join_paths ''/v1/system/operation'' ''asset'' = ''/v1/system/operation/asset''"
  "join_paths ''/v1/system/operation/asset'' ''/add'' = ''/v1/system/operation/asset/add''"
  "join_paths ''/v1'' ''auth'' = ''/v1/auth''" "join_paths ''/v1/auth'' ''/register'' = ''/v1/auth/register''"
  "join_paths ''/v1/auth'' ''/login/username'' = ''/v1/auth/login/username''"
  "join_paths ''/v1/auth'' ''/login/gmail'' = ''/v1/auth/login/gmail''"
  "join_paths ''/v1/auth'' ''/verify/gmail-code'' = ''/v1/auth/verify/gmail-code''"
  "join_paths ''/v1/auth'' ''/resend/gmail-code'' = ''/v1/auth/resend/gmail-code''"
  "join_paths ''/v1/auth'' ''/mock/login'' = ''/v1/auth/mock/login''"
  "join_paths ''/v1'' ''transaction'' = ''/v1/transaction''"
  "join_paths ''/v1/transaction'' ''/withdraw'' = ''/v1/transaction/withdraw''"
  "join_paths ''/v1'' ''/order'' = ''/v1/order''" "join_paths ''/v1/order'' ''/limit'' = ''/v1/order/limit''"
  "join_paths ''/v1/order'' ''/market'' = ''/v1/order/market''" "join_paths ''/v1/order'' ''/cancel'' = ''/v1/order/cancel''"
  "join_paths ''/v1/order'' ''/events'' = ''/v1/order/events''" "join_paths ''/v1/order/events'' ''/ws'' = ''/v1/order/events/ws''"
  by code_simp+

lemmas router_defs = setupRoutes_def registerSystemRoutes_def registerUserRoutes_def registerAuthRoutes_def
  registerTransactionRoutes_def registerOrderRoutes_def registerOrderWebsocketRoutes_def Let_def add_route_def
  sub_group_def add_mw_def

text \<open>The table, written out.\<close>

definition guard :: "string list \<Rightarrow> middleware list" where
  "guard roles = [UseAuth, UseRole roles]"

definition the_routes :: "configuration \<Rightarrow> route list" where
  "the_routes cfg =
     (let G = router_chain cfg; open = (\<lambda>meth path ep. \<lparr> rtMethod = meth, rtPath = path, rtChain = G, rtEndpoint = ep \<rparr>);
          only = (\<lambda>roles meth path ep. \<lparr> rtMethod = meth, rtPath = path, rtChain = G @ guard roles, rtEndpoint = ep \<rparr>)
      in [\<lparr> rtMethod = GET, rtPath = ''/admin/*any'', rtChain = [UseLogger, UseRecovery], rtEndpoint = AdminPanel \<rparr>,
          \<lparr> rtMethod = POST, rtPath = ''/admin/*any'', rtChain = [UseLogger, UseRecovery], rtEndpoint = AdminPanel \<rparr>,
          open GET ''/metrics'' MetricsPage, open GET ''/swagger/*any'' SwaggerPage,
          open GET ''/monitoring'' MonitoringPage, open GET ''/monitoring/*any'' MonitoringPage,
          open GET ''/v1/health'' Health,
          only [RoleAdmin, RoleSystem] POST ''/v1/system/operation/asset/add'' AddAsset,
          open POST ''/v1/auth/register'' RegisterUser, open POST ''/v1/auth/login/username'' LoginUsername,
          open POST ''/v1/auth/login/gmail'' LoginGmail, open POST ''/v1/auth/verify/gmail-code'' VerifyCode,
          open POST ''/v1/auth/resend/gmail-code'' ResendCode] @
         (if appEnv cfg = ''DEVELOPMENT'' then [open POST ''/v1/auth/mock/login'' MockLogin] else []) @
         [only [RoleUser] POST ''/v1/transaction/withdraw'' Withdraw,
          only [RoleUser] POST ''/v1/order/limit'' PlaceLimit, only [RoleUser] POST ''/v1/order/market'' PlaceMarket,
          only [RoleUser] DELETE ''/v1/order/cancel'' CancelOrder,
          \<lparr> rtMethod = GET, rtPath = ''/v1/order/events/ws'', rtChain = G @ guard [RoleUser] @ [UseRole [RoleUser]],
            rtEndpoint = OrderEvents \<rparr>])"

lemma SetupRouter_eq:
  "SetupRouter adminErr cfg = (case adminErr cfg of Some err \<Rightarrow> Inl err | None \<Rightarrow> Inr (the_routes cfg))"
  by (simp add: SetupRouter_def router_defs the_routes_def guard_def split: option.split)

text \<open>Two rests of a chain that no request with these headers tells apart.\<close>

definition agree :: "(string \<Rightarrow> string) \<Rightarrow> 'a rest \<Rightarrow> 'a rest \<Rightarrow> bool" where
  "agree H n1 n2 = (\<forall>c s. gcHeaders c = H \<longrightarrow> n1 c s = n2 c s)"

lemma agreeD: "agree H n1 n2 \<Longrightarrow> gcHeaders c = H \<Longrightarrow> n1 c s = n2 c s"
  by (simp add: agree_def)

text \<open>What a CORS middleware documents: it answers a preflight itself or adds response headers and goes on.\<close>

definition cors_ok :: "'a serving \<Rightarrow> bool" where
  "cors_ok V = (\<forall>origin H n1 n2. agree H n1 n2 \<longrightarrow> agree H (svCors V origin n1) (svCors V origin n2))"

lemma headers_kept [simp]:
  "gcHeaders (set_key k v c) = gcHeaders c" "gcHeaders (set_out k v c) = gcHeaders c"
  "gcHeaders (fold (\<lambda>(k, v). set_out k v) kvs c) = gcHeaders c"
proof -
  show "gcHeaders (fold (\<lambda>(k, v). set_out k v) kvs c) = gcHeaders c"
    by (induction kvs arbitrary: c) (auto simp: set_out_def)
qed (simp_all add: set_key_def set_out_def)

lemma middleware_agree:
  assumes "agree H n1 n2" and "cors_ok V"
  shows "agree H (run_middleware V mw n1) (run_middleware V mw n2)"
proof (cases mw)
  case UseRecovery
  then show ?thesis using assms(1) by (simp add: agree_def recovery_def)
next
  case UseSecurityHeaders
  then show ?thesis using assms(1) by (simp add: agree_def SecurityHeadersMiddleware_def del: fold_simps)
next
  case UseForwarded
  then show ?thesis using assms(1) by (simp add: agree_def forwarded_def Let_def)
next
  case (UseRateLimiter n)
  then show ?thesis using assms(1) by (auto simp: agree_def rateLimiter_def Let_def split: prod.split sum.split)
next
  case (UseCors origin)
  then show ?thesis using assms by (simp add: cors_ok_def)
next
  case UseAuth
  then show ?thesis using assms(1) by (auto simp: agree_def AuthMiddleware_def Let_def split: sum.split option.split)
next
  case (UseRole roles)
  then show ?thesis using assms(1) by (auto simp: agree_def RequireRole_def split: sum.split option.split)
qed (use assms(1) in simp_all)

lemma chain_agree:
  assumes "agree H n1 n2" and "cors_ok V"
  shows "agree H (run_chain V chain n1) (run_chain V chain n2)"
  using assms by (induction chain) (simp_all add: run_chain_def middleware_agree)

lemma run_chain_append: "run_chain V (a @ b) h = run_chain V a (run_chain V b h)"
  by (simp add: run_chain_def)

definition authorised :: "'a serving \<Rightarrow> (string \<Rightarrow> string) \<Rightarrow> string list \<Rightarrow> bool" where
  "authorised V H roles = (\<exists>rawID userID user s0.
     svJwtParse V (svSecret V) (strip_bearer (H ''Authorization'')) = Inr (True, Some rawID) \<and>
     svUuidParse V rawID = Some userID \<and> GetUserByID (svRoleFault V) userID (svUsers V s0) = Inr user \<and>
     roName (usRole user) \<in> set roles)"

lemma guard_agree:
  assumes "\<not> authorised V H roles"
  shows "agree H (run_chain V (guard roles) h1) (run_chain V (guard roles) h2)"
  unfolding agree_def
proof (intro allI impI)
  fix c :: gctx and s assume H: "gcHeaders c = H"
  show "run_chain V (guard roles) h1 c s = run_chain V (guard roles) h2 c s"
  proof (cases "svJwtParse V (svSecret V) (strip_bearer (H ''Authorization''))")
    case (Inr r)
    obtain valid cls where r: "r = (valid, cls)" by fastforce
    have "RequireRole (svRoleFault V) (svUuidParse V) (svUsers V s) roles h1 (set_key ''userID'' rawID c) s =
        RequireRole (svRoleFault V) (svUuidParse V) (svUsers V s) roles h2 (set_key ''userID'' rawID c) s"
      if "valid" "cls = Some rawID" for rawID
      using assms Inr that unfolding r authorised_def
      by (auto simp: RequireRole_def set_key_def list_ex_iff split: option.split sum.split)
    then show ?thesis using Inr H by (auto simp: run_chain_def guard_def AuthMiddleware_def r Let_def split: option.split)
  qed (use H in \<open>simp add: run_chain_def guard_def AuthMiddleware_def Let_def\<close>)
qed

definition allowed_roles :: "endpoint \<Rightarrow> string list option" where
  "allowed_roles ep =
     (if ep = AddAsset then Some [RoleAdmin, RoleSystem]
      else if ep \<in> {PlaceLimit, PlaceMarket, CancelOrder, OrderEvents, Withdraw} then Some [RoleUser] else None)"

lemma routes_guarded:
  assumes "r \<in> set (the_routes cfg)" and "allowed_roles (rtEndpoint r) = Some roles"
  shows "\<exists>post. rtChain r = router_chain cfg @ guard roles @ post"
  using assms by (auto simp: the_routes_def Let_def allowed_roles_def split: if_splits)

lemma find_route_in: "find_route routes meth path = Some r \<Longrightarrow> r \<in> set routes"
  by (auto simp: find_route_def find_Some_iff)

text \<open>The two middleware before the limiter change only what the response says, when the client forwards nothing.\<close>

lemma headers_and_forwarding:
  assumes "gcHeaders c ''X-Forwarded-For'' = []" and "gcKeys c ''real-ip'' = None"
  obtains c2 where "limiter_ip c2 = gcClientIP c"
    "\<And>next s. run_middleware V UseSecurityHeaders (run_middleware V UseForwarded next) c s = next c2 s"
proof -
  obtain kvs where sec: "\<And>next s. run_middleware V UseSecurityHeaders next c s = next (fold (\<lambda>(k, v). set_out k v) kvs c) s"
    unfolding run_middleware.simps SecurityHeadersMiddleware_def by blast
  let ?c1 = "fold (\<lambda>(k, v). set_out k v) kvs c"
  let ?xfp = "gcHeaders c ''X-Forwarded-Proto''"
  have "gcKeys (fold (\<lambda>(k, v). set_out k v) kvs d) = gcKeys d \<and> gcClientIP (fold (\<lambda>(k, v). set_out k v) kvs d) = gcClientIP d" for d
    by (induction kvs arbitrary: d) (auto simp: set_out_def)
  then have "limiter_ip (if ?xfp \<noteq> [] then set_key ''real-proto'' ?xfp ?c1 else ?c1) = gcClientIP c"
    using assms(2) by (simp add: limiter_ip_def set_key_def)
  moreover have "run_middleware V UseForwarded next ?c1 s = next (if ?xfp \<noteq> [] then set_key ''real-proto'' ?xfp ?c1 else ?c1) s" for "next" s
    using assms(1) by (simp add: forwarded_def Let_def)
  ultimately show thesis by (intro that) (simp_all only: sec)
qed

text \<open>An address that has used up its requests of the window.\<close>

lemma spent_address:
  assumes "redis_counts (svRedis V) counter" and "n \<le> counter s (rate_key ip (window_of (svWindow V) (clock (svClock V) 0)))"
    and "limiter_ip c = ip"
  obtains s' where "\<And>next. run_middleware V (UseRateLimiter n) next c s =
     (Some (respond (failure 429 ''too many requests'') (set_out ''Retry-After'' (svFmtTime V (clock (svClock V) 1 + 60000000000)) c)), s')"
proof -
  let ?key = "rate_key ip (window_of (svWindow V) (clock (svClock V) 0))"
  obtain s1 where incr: "rdIncr (svRedis V) ?key s = (Inr (counter s ?key + 1), s1)"
    using assms(1) unfolding redis_counts_def by (metis prod.collapse)
  have "\<not> counter s ?key + 1 \<le> n" using assms(2) by simp
  then have "run_middleware V (UseRateLimiter n) next c s =
      (Some (respond (failure 429 ''too many requests'') (set_out ''Retry-After'' (svFmtTime V (clock (svClock V) 1 + 60000000000)) c)),
       if counter s ?key + 1 = 1 then rdExpire (svRedis V) ?key (svWindow V) s1 else s1)" for "next"
    by (simp add: rateLimiter_def Allow_def Let_def assms(3) incr)
  then show thesis by (rule that)
qed

lemma served_chain:
  assumes "SetupRouter adminErr cfg = Inr routes" and "\<not> prefix ''/admin/'' path"
  shows "\<exists>post h. serve V cfg routes handlers meth path = run_chain V (router_chain cfg) (run_chain V post h)"
proof (cases "find_route routes meth path")
  case None
  then show ?thesis by (intro exI [of _ "[]"] exI [of _ page_not_found]) (simp add: serve_def run_chain_def)
next
  case (Some r)
  have routes: "routes = the_routes cfg" using assms(1) by (simp add: SetupRouter_eq split: option.splits)
  have r: "r \<in> set (the_routes cfg)" "path_matches (rtPath r) path"
    using Some by (auto simp: find_route_def routes find_Some_iff)
  have "rtPath r \<noteq> ''/admin/*any''" using r(2) assms(2) by (auto simp: path_matches_def suffix_def)
  then have "\<exists>post. rtChain r = router_chain cfg @ post"
    using r(1) by (auto simp: the_routes_def Let_def split: if_splits)
  then obtain post where "rtChain r = router_chain cfg @ post" by blast
  then show ?thesis using Some
    by (intro exI [of _ post] exI [of _ "handlers (rtEndpoint r)"]) (simp add: serve_def run_chain_append)
qed

subsection \<open>Properties\<close>

text \<open>C10: No request without a valid token of a user with the right role has any effect behind the routes that need one:
  for the withdrawal, the orders, the event stream and the listing of assets, in every environment, the answer and
  the state after it are the same whatever the handlers do.\<close>

theorem unauthorised_requests_run_nothing:
  assumes "SetupRouter adminErr cfg = Inr routes" and "find_route routes meth path = Some r"
    and "allowed_roles (rtEndpoint r) = Some roles" and "cors_ok V" and "\<not> authorised V (gcHeaders c) roles"
  shows "serve V cfg routes handlers meth path c s = serve V cfg routes handlers' meth path c s"
proof -
  have "routes = the_routes cfg" using assms(1) by (simp add: SetupRouter_eq split: option.splits)
  with find_route_in [OF assms(2)] assms(3) obtain post where chain: "rtChain r = router_chain cfg @ guard roles @ post"
    using routes_guarded by blast
  have "agree (gcHeaders c) (run_chain V (rtChain r) (handlers (rtEndpoint r))) (run_chain V (rtChain r) (handlers' (rtEndpoint r)))"
    unfolding chain run_chain_append by (rule chain_agree [OF guard_agree [OF assms(5)] assms(4)])
  then show ?thesis by (simp add: serve_def assms(2) agree_def)
qed

definition sample_serving :: "(string \<Rightarrow> int) serving" where
  "sample_serving = \<lparr> svJwtParse = (\<lambda>_ _. Inl ''bad''), svSecret = ''k'', svRoleFault = None, svUuidParse = Some,
     svUsers = (\<lambda>_. \<lparr> udRoles = [], udUsers = [], udWallets = [] \<rparr>), svRedis = sample_redis, svWindow = 60000000000,
     svFmtTime = (\<lambda>_. ''later''), svClock = sample_env, svCors = (\<lambda>_ next. next) \<rparr>"

definition sample_visit :: gctx where
  "sample_visit = \<lparr> gcHeaders = (\<lambda>_. []), gcKeys = Map.empty, gcClientIP = ''1.1.1.1'', gcOut = [], gcAnswer = None \<rparr>"

lemma sample_routes:
  "SetupRouter (\<lambda>_. None) empty_configuration = Inr (the_routes empty_configuration)"
  "\<exists>r. find_route (the_routes empty_configuration) POST ''/v1/transaction/withdraw'' = Some r \<and> rtEndpoint r = Withdraw"
proof -
  show "SetupRouter (\<lambda>_. None) empty_configuration = Inr (the_routes empty_configuration)" by (simp add: SetupRouter_eq)
  show "\<exists>r. find_route (the_routes empty_configuration) POST ''/v1/transaction/withdraw'' = Some r \<and> rtEndpoint r = Withdraw"
    by (simp add: the_routes_def Let_def find_route_def path_matches_def suffix_def prefix_def empty_configuration_def)
qed

theorem unauthorised_requests_run_nothing_witness:
  "serve sample_serving empty_configuration (the_routes empty_configuration) (\<lambda>_ c s. (Some c, s(''sent'' := 1)))
     POST ''/v1/transaction/withdraw'' sample_visit (\<lambda>_. 0) =
   serve sample_serving empty_configuration (the_routes empty_configuration) (\<lambda>_ c s. (None, s))
     POST ''/v1/transaction/withdraw'' sample_visit (\<lambda>_. 0)"
proof -
  obtain r where r: "find_route (the_routes empty_configuration) POST ''/v1/transaction/withdraw'' = Some r" "rtEndpoint r = Withdraw"
    using sample_routes(2) by blast
  have "allowed_roles (rtEndpoint r) = Some [RoleUser]" by (simp add: r(2) allowed_roles_def)
  moreover have "cors_ok sample_serving" by (simp add: cors_ok_def sample_serving_def)
  moreover have "\<not> authorised sample_serving (gcHeaders sample_visit) [RoleUser]"
    by (simp add: authorised_def sample_serving_def)
  ultimately show ?thesis by (rule unauthorised_requests_run_nothing [OF sample_routes(1) r(1)])
qed

text \<open>C33: The routes behind no token are exactly those of sign-up, log-in and codes, health, metrics, the documentation, the
  task monitor and the admin panel, in production as well; the login without a password is there exactly in
  development; and no method and path is registered twice, which the router would refuse by a panic.\<close>

theorem route_table:
  assumes "SetupRouter adminErr cfg = Inr routes"
  shows "distinct (map (\<lambda>r. (rtMethod r, rtPath r)) routes) \<and>
    {rtEndpoint r |r. r \<in> set routes \<and> UseAuth \<notin> set (rtChain r)} =
      {AdminPanel, MetricsPage, SwaggerPage, MonitoringPage, Health, RegisterUser, LoginUsername, LoginGmail, VerifyCode,
       ResendCode} \<union> (if appEnv cfg = ''DEVELOPMENT'' then {MockLogin} else {}) \<and>
    (find_route routes POST ''/v1/auth/mock/login'' \<noteq> None) = (appEnv cfg = ''DEVELOPMENT'')"
proof -
  have routes: "routes = the_routes cfg" using assms by (simp add: SetupRouter_eq split: option.splits)
  have no: "UseAuth \<notin> set (router_chain cfg)" by (simp add: router_chain_def)
  have 1: "distinct (map (\<lambda>r. (rtMethod r, rtPath r)) routes)" by (simp add: routes the_routes_def Let_def)
  have 2: "rtEndpoint ` set (filter (\<lambda>r. UseAuth \<notin> set (rtChain r)) routes) =
      {AdminPanel, MetricsPage, SwaggerPage, MonitoringPage, Health, RegisterUser, LoginUsername, LoginGmail, VerifyCode,
       ResendCode} \<union> (if appEnv cfg = ''DEVELOPMENT'' then {MockLogin} else {})"
    using no by (auto simp: routes the_routes_def Let_def guard_def)
  have 3: "(find_route routes POST ''/v1/auth/mock/login'' \<noteq> None) = (appEnv cfg = ''DEVELOPMENT'')"
    by (simp add: routes the_routes_def Let_def find_route_def path_matches_def suffix_def)
  have "{rtEndpoint r |r. r \<in> set routes \<and> UseAuth \<notin> set (rtChain r)} =
      rtEndpoint ` set (filter (\<lambda>r. UseAuth \<notin> set (rtChain r)) routes)" by auto
  then show ?thesis using 1 2 3 by simp
qed

theorem route_table_witness:
  "MonitoringPage \<in> {rtEndpoint r |r. r \<in> set (the_routes empty_configuration) \<and> UseAuth \<notin> set (rtChain r)} \<and>
   find_route (the_routes empty_configuration) POST ''/v1/auth/mock/login'' = None"
proof -
  have e: "appEnv empty_configuration \<noteq> ''DEVELOPMENT''" by (simp add: empty_configuration_def)
  note table = route_table [OF sample_routes(1)]
  have "{rtEndpoint r |r. r \<in> set (the_routes empty_configuration) \<and> UseAuth \<notin> set (rtChain r)} =
      {AdminPanel, MetricsPage, SwaggerPage, MonitoringPage, Health, RegisterUser, LoginUsername, LoginGmail, VerifyCode, ResendCode}"
    using table e by (simp only: if_False Un_empty_right)
  moreover have "find_route (the_routes empty_configuration) POST ''/v1/auth/mock/login'' = None" using table e by simp
  ultimately show ?thesis by simp
qed

text \<open>Outside development a spent address is stopped before every handler: once an address has made its 60 requests of
  the window, a request from it to any path outside the admin panel is answered 429, whatever the handlers do.\<close>

theorem spent_address_gets_429:
  assumes "SetupRouter adminErr cfg = Inr routes" and "appEnv cfg \<noteq> ''DEVELOPMENT''" and "\<not> prefix ''/admin/'' path"
    and "redis_counts (svRedis V) counter" and "gcHeaders c ''X-Forwarded-For'' = []" and "gcKeys c ''real-ip'' = None"
    and "60 \<le> counter s (rate_key (gcClientIP c) (window_of (svWindow V) (clock (svClock V) 0)))"
  shows "\<exists>a s'. \<forall>handlers. serve V cfg routes handlers meth path c s = (Some a, s') \<and>
     gcAnswer a = Some (failure 429 ''too many requests'')"
proof -
  obtain c2 where ip: "limiter_ip c2 = gcClientIP c" and to2: "\<And>next s. run_middleware V UseSecurityHeaders
      (run_middleware V UseForwarded next) c s = next c2 s"
    by (rule headers_and_forwarding [OF assms(5,6), where V = V]) (assumption | blast)
  obtain a s' where lim: "\<And>next. run_middleware V (UseRateLimiter 60) next c2 s = (Some a, s')"
    and a: "gcAnswer a = Some (failure 429 ''too many requests'')"
    by (rule spent_address [OF assms(4,7) ip]) (simp add: respond_def)
  have "run_chain V (router_chain cfg) next c s = recovery (recovery (run_middleware V UseSecurityHeaders
      (run_middleware V UseForwarded (run_middleware V (UseRateLimiter 60) (svCors V (originFrontend cfg) next))))) c s" for "next"
    using assms(2) by (simp add: run_chain_def router_chain_def)
  then have chain: "run_chain V (router_chain cfg) next c s = (Some a, s')" for "next"
    unfolding recovery_def to2 lim by simp
  have "serve V cfg routes handlers meth path c s = (Some a, s')" for handlers
    using served_chain [OF assms(1,3), of V handlers meth] chain by (elim exE) simp
  then show ?thesis using a by blast
qed


theorem spent_address_gets_429_witness:
  "\<exists>a s'. serve sample_serving empty_configuration (the_routes empty_configuration) (\<lambda>_ c s. (Some c, s))
     GET ''/v1/health'' sample_visit (\<lambda>_. 60) = (Some a, s') \<and> gcAnswer a = Some (failure 429 ''too many requests'')"
proof -
  have h: "appEnv empty_configuration \<noteq> ''DEVELOPMENT''" "\<not> prefix ''/admin/'' ''/v1/health''"
    "redis_counts (svRedis sample_serving) (\<lambda>s. s)" "gcHeaders sample_visit ''X-Forwarded-For'' = []"
    "gcKeys sample_visit ''real-ip'' = None"
    by (simp_all add: empty_configuration_def sample_serving_def sample_redis_counts sample_visit_def)
  show ?thesis using spent_address_gets_429 [OF sample_routes(1) h(1-5), of "\<lambda>_. 60" GET] by auto
qed

text \<open>A user's second connection takes the first one's place, and closing the first takes the second down with it: after
  both are open, what is sent to the user goes to the second only; once the first one's socket closes, what is sent
  to the user reaches nobody, and no frame of the second connection changes that, though the join it asks for is
  confirmed to it.\<close>

theorem closing_one_connection_silences_the_other:
  fixes h :: hub
  assumes "\<not> IsOnline (usID user) h" and "c1 \<noteq> c2" and "uuidParse rawID = Some userID"
    and "GetUserByID fault userID db = Inr user"
    and "apiWebsocketHandler True None uuidParse fault db (Some rawID) c1 [] h = (o1, h1, out1)"
    and "apiWebsocketHandler True None uuidParse fault db (Some rawID) c2 [] h1 = (o2, h2, out2)"
    and "h3 = Unregister (clID (hbStore h2 c1)) h2"
  shows "BroadcastUser (usID user) msg h2 = [(c2, msg)] \<and> BroadcastUser (usID user) msg h3 = [] \<and>
    fst (handleMessage c2 frame h3) = h3 \<and>
    (msType frame = TypeJoin \<and> msRoom frame \<noteq> [] \<longrightarrow> map (\<lambda>(c, m). (c, msEvent m)) (snd (handleMessage c2 frame h3)) = [(c2, ''joined'')])"
proof -
  let ?u = "usID user"
  let ?s = "(hbStore h)(c1 := NewClient ?u ?u, c2 := NewClient ?u ?u)"
  have "h1 = Register c1 (h\<lparr>hbStore := (hbStore h)(c1 := NewClient ?u ?u)\<rparr>)"
    using assms(3-5) by (simp add: apiWebsocketHandler_def OrderEventEmitterWebsocketListener_def)
  moreover have "h2 = Register c2 (h1\<lparr>hbStore := (hbStore h1)(c2 := NewClient ?u ?u)\<rparr>)"
    using assms(3,4,6) by (simp add: apiWebsocketHandler_def OrderEventEmitterWebsocketListener_def)
  ultimately have h2: "hbStore h2 = ?s" "map_of (hbClients h2) ?u = Some c2"
    "hbPresence h2 = add_entry ?u ?u True (add_entry ?u ?u True (hbPresence h))"
    using assms(2) by (simp_all add: Register_def NewClient_def update_conv')
  have "inner (hbPresence h) ?u = []" using assms(1) by (simp add: IsOnline_def)
  then have p: "inner (hbPresence h2) ?u = [(?u, True)]"
    by (simp add: h2(3) add_entry_def inner_def update_conv')
  have h3: "h3 = Unregister ?u h2" using assms(2,7) by (simp add: h2(1) NewClient_def)
  have gone: "map_of (hbClients h3) ?u = None" "hbStore h3 = ?s" "inner (hbPresence h3) ?u = []"
    using p by (simp_all add: h3 Unregister_def h2 NewClient_def delete_conv' drop_entry_def inner_def)
  have "clID (hbStore h3 c2) = ?u" by (simp add: gone(2) NewClient_def)
  then have "fst (handleMessage c2 frame h3) = h3"
    by (simp add: handleMessage_def Let_def Join_def Leave_def gone(1))
  then show ?thesis
    using p gone(3) by (auto simp: BroadcastUser_def h2(2) handleMessage_def Let_def empty_message_def)
qed

definition sample_socket :: "nat \<Rightarrow> hub \<Rightarrow> ws_outcome \<times> hub \<times> nat sends" where
  "sample_socket c h = apiWebsocketHandler True None Some None sample_users (Some ''u-1'') c [] h"

definition two_sockets :: hub where
  "two_sockets = fst (snd (sample_socket 1 (fst (snd (sample_socket 0 (New (\<lambda>_. NewClient [] [])))))))"

theorem closing_one_connection_silences_the_other_witness:
  "BroadcastUser ''u-1'' (empty_message TypeEvent :: nat message) two_sockets = [(1, empty_message TypeEvent)] \<and>
   BroadcastUser ''u-1'' (empty_message TypeEvent :: nat message) (Unregister (clID (hbStore two_sockets 0)) two_sockets) = []"
proof -
  let ?h = "New (\<lambda>_. NewClient [] [])"
  have g: "GetUserByID None ''u-1'' sample_users = Inr (sample_user\<lparr>usWallet := zero_wallet, usRole := \<lparr> roID = 1, roName = RoleUser \<rparr>\<rparr>)"
    by (simp add: GetUserByID_def first_user_def sample_users_def sample_user_def wallet_of_def role_of_def NewUser_def)
  have u: "usID sample_user = ''u-1''" by (simp add: sample_user_def)
  obtain o1 h1 out1 where s1: "apiWebsocketHandler True None Some None sample_users (Some ''u-1'') 0 [] ?h = (o1, h1, out1 :: nat sends)"
    by (cases "apiWebsocketHandler True None Some None sample_users (Some ''u-1'') 0 [] ?h :: ws_outcome \<times> hub \<times> nat sends")
  obtain o2 h2 out2 where s2: "apiWebsocketHandler True None Some None sample_users (Some ''u-1'') 1 [] h1 = (o2, h2, out2 :: nat sends)"
    by (cases "apiWebsocketHandler True None Some None sample_users (Some ''u-1'') 1 [] h1 :: ws_outcome \<times> hub \<times> nat sends")
  have "two_sockets = h2" by (simp add: two_sockets_def sample_socket_def s1 s2 del: One_nat_def)
  moreover have "\<not> IsOnline (usID (sample_user\<lparr>usWallet := zero_wallet, usRole := \<lparr> roID = 1, roName = RoleUser \<rparr>\<rparr>)) ?h"
    by (simp add: IsOnline_def New_def inner_def)
  ultimately show ?thesis
    using closing_one_connection_silences_the_other [OF _ _ _ g s1 s2 refl, where msg = "empty_message TypeEvent :: nat message"
        and frame = "empty_message TypeEvent :: nat message"]
    by (simp add: u)
qed

end
