(* ===== verification/Chain_Listener.thy ===== *)
theory Chain_Listener
  imports Commands
begin

text \<open>
  The watcher of the chain: \<^verbatim>\<open>internal/adapter/handler/websockets/blockchain\<close> (client.go, token\_listener.go) and the
  command that runs it (\<^verbatim>\<open>cmd/watcher.go\<close>). The node, the contract ABI and the address encoding are the record
  \<open>listen_env\<close>. A turn of the loop is one event: an error of the subscription, with the outcome of the new one, a log,
  with the state of Redis and the clock at that moment, or a signal to the process, which the loop does not look at.
\<close>

record chain_log =
  lgTopics :: "string list"
  lgData :: string
  lgTxHash :: string
  lgAddress :: string
  lgBlockNumber :: nat
  lgRemoved :: bool

text \<open>\<open>leUnpack\<close> decodes the data of a log: its error, and the amount, nil when it was not decoded.\<close>

record 's listen_env =
  leRedis :: "'s redis"
  leUnpack :: "string \<Rightarrow> string \<Rightarrow> string option \<times> int option"
  leHexToAddress :: "string \<Rightarrow> string"
  leEnqueue :: "transfer_payload \<Rightarrow> string option"
  leTransferSig :: string
  leApprovalSig :: string
  leAbiErr :: "string option"
  leSubscribe :: "string list \<Rightarrow> int \<Rightarrow> string option"

datatype 's listen_event = SubscriptionError "string option" | LogArrived chain_log 's time | OsSignal

text \<open>\<^verbatim>\<open>String\<close> of a \<^verbatim>\<open>*big.Int\<close>, nil included.\<close>

definition big_string :: "int option \<Rightarrow> string" where
  "big_string v = (case v of None \<Rightarrow> ''<nil>'' | Some n \<Rightarrow> fmt_int n)"

text \<open>What the two cases read of a log: the second and third topic as addresses, and the amount. An error of decoding
  is logged and the amount stays nil; reading a missing topic is a panic.\<close>

definition two_topics :: "'s listen_env \<Rightarrow> chain_log \<Rightarrow> (string \<times> string) option" where
  "two_topics L tLog =
     (if length (lgTopics tLog) < 3 then None
      else Some (leHexToAddress L (lgTopics tLog ! 1), leHexToAddress L (lgTopics tLog ! 2)))"

definition on_log :: "'s listen_env \<Rightarrow> chain_log \<Rightarrow> 's \<Rightarrow> time \<Rightarrow> transfer_payload list option" where
  "on_log L tLog s now =
     (case lgTopics tLog of
        [] \<Rightarrow> None
      | sig # _ \<Rightarrow>
          if sig = leTransferSig L then
            (case two_topics L tLog of
               None \<Rightarrow> None
             | Some (fromAddr, toAddr) \<Rightarrow>
                 (let v = snd (leUnpack L ''Transfer'' (lgData tLog))
                  in Some (snd (handleTransferHunt (leRedis L) (leEnqueue L) now (lgTxHash tLog) fromAddr toAddr
                       (big_string v) (lgAddress tLog) (lgBlockNumber tLog) (lgRemoved tLog) s))))
          else if sig = leApprovalSig L then
            (case two_topics L tLog of None \<Rightarrow> None | Some _ \<Rightarrow> Some [])
          else Some [])"

text \<open>The loop: the tasks it has queued after these events, and the subscription in use; \<open>None\<close> is a panic.\<close>

fun listen_loop :: "'s listen_env \<Rightarrow> nat \<Rightarrow> 's listen_event list \<Rightarrow> (nat \<times> transfer_payload list) option" where
  "listen_loop L sub [] = Some (sub, [])"
| "listen_loop L sub (SubscriptionError reconnectErr # evs) =
     listen_loop L (if reconnectErr = None then sub + 1 else sub) evs"
| "listen_loop L sub (LogArrived tLog s now # evs) =
     (case on_log L tLog s now of
        None \<Rightarrow> None
      | Some queued \<Rightarrow>
          (case listen_loop L sub evs of None \<Rightarrow> None | Some (sub', later) \<Rightarrow> Some (sub', queued @ later)))"
| "listen_loop L sub (OsSignal # evs) = listen_loop L sub evs"

datatype listener = ListenFailed string | Listening nat "transfer_payload list" | ListenPanic

definition startEVMTokenBalanceListener ::
  "'s listen_env \<Rightarrow> string list \<Rightarrow> int \<Rightarrow> 's listen_event list \<Rightarrow> listener" where
  "startEVMTokenBalanceListener L tokenContractAddresses fromBlock evs =
     (case leAbiErr L of
        Some err \<Rightarrow> ListenFailed err
      | None \<Rightarrow>
          (case leSubscribe L tokenContractAddresses fromBlock of
             Some err \<Rightarrow> ListenFailed err
           | None \<Rightarrow>
               (case listen_loop L 0 evs of None \<Rightarrow> ListenPanic | Some (sub, queued) \<Rightarrow> Listening sub queued)))"

fun contract_addresses :: "'s listen_env \<Rightarrow> asset list \<Rightarrow> string list option" where
  "contract_addresses L [] = Some []"
| "contract_addresses L (a # as) =
     (case asAddress a of
        None \<Rightarrow> None
      | Some ca \<Rightarrow> (case contract_addresses L as of None \<Rightarrow> None | Some cas \<Rightarrow> Some (leHexToAddress L ca # cas)))"

text \<open>A nil client or cache would be a panic; the watcher wires all of them.\<close>

definition StartOnchainListener ::
  "'s listen_env \<Rightarrow> string option \<Rightarrow> asset list \<Rightarrow> int \<Rightarrow> 'd application \<Rightarrow> 's listen_event list \<Rightarrow> listener" where
  "StartOnchainListener L assetsFault assets fromBlock app evs =
     (if \<not> has_database app then ListenPanic
      else case GetAvailableAssets assetsFault assets of
        Inl err \<Rightarrow> ListenFailed err
      | Inr availableAssets \<Rightarrow>
          (case contract_addresses L availableAssets of
             None \<Rightarrow> ListenPanic
           | Some cas \<Rightarrow>
               if apETHWebsocketClient app = None \<or> apPendingTransactionsCache app = None \<or> apAsynqClient app = None
               then ListenPanic
               else (case startEVMTokenBalanceListener L cas fromBlock evs of
                       ListenFailed err \<Rightarrow> ListenFailed (''failed to start EVM token balance listener: '' @ err)
                     | r \<Rightarrow> r)))"

subsection \<open>The command (watcher.go)\<close>

text \<open>\<^verbatim>\<open>strconv.Atoi\<close>: a sign, digits, and the range of an int.\<close>

definition Atoi :: "string \<Rightarrow> int option" where
  "Atoi s = (case SetString10 s of
     None \<Rightarrow> None | Some n \<Rightarrow> if - (2 ^ 63) \<le> n \<and> n < 2 ^ 63 then Some n else None)"

datatype watcher = WatcherExited nat | Watching "transfer_payload list"

text \<open>A listener that is set up does not come back, so the command's own signal handling is never reached: it would
  follow the call.\<close>

definition RunOnchainWatcher ::
  "'b boot_env \<Rightarrow> 's listen_env \<Rightarrow> string option \<Rightarrow> configuration \<Rightarrow> 'b \<Rightarrow> string \<Rightarrow> 's listen_event list \<Rightarrow> watcher" where
  "RunOnchainWatcher B L assetsFault cfg broker fromBlock evs =
     (case (NewApplication B cfg [watcher_options] broker :: (int application \<times> 'b) boot) of
        Fatal _ _ \<Rightarrow> WatcherExited 1
      | BootPanic \<Rightarrow> WatcherExited 2
      | Up (app, _) \<Rightarrow>
          if fromBlock = [] then WatcherExited 1
          else (case Atoi fromBlock of
                  None \<Rightarrow> WatcherExited 1
                | Some fromBlockInt \<Rightarrow>
                    (case StartOnchainListener L assetsFault (ldAssets (beListings B)) fromBlockInt app evs of
                       ListenFailed _ \<Rightarrow> WatcherExited 1
                     | ListenPanic \<Rightarrow> WatcherExited 2
                     | Listening _ queued \<Rightarrow> Watching queued)))"

subsection \<open>Lemmas\<close>

text \<open>What a log should put in the queue: the task of a transfer whose hash waits in the cache.\<close>

definition transfer_task :: "'s listen_env \<Rightarrow> chain_log \<Rightarrow> time \<Rightarrow> transfer_payload" where
  "transfer_task L tLog now = RegisterTransferEventTask now (lgTxHash tLog) (leHexToAddress L (lgTopics tLog ! 1))
     (leHexToAddress L (lgTopics tLog ! 2)) (big_string (snd (leUnpack L ''Transfer'' (lgData tLog)))) (lgAddress tLog)
     (lgBlockNumber tLog) (lgRemoved tLog)"

definition followed :: "'s listen_env \<Rightarrow> chain_log \<Rightarrow> 's \<Rightarrow> bool" where
  "followed L tLog s = (lgTopics tLog \<noteq> [] \<and> hd (lgTopics tLog) = leTransferSig L \<and>
     (case GetPendingTransaction (leRedis L) (lgTxHash tLog) s of Inl _ \<Rightarrow> False | Inr _ \<Rightarrow> True))"

definition tasks_due :: "'s listen_env \<Rightarrow> 's listen_event list \<Rightarrow> transfer_payload list" where
  "tasks_due L evs = concat (map (\<lambda>ev. case ev of
     LogArrived tLog s now \<Rightarrow>
       if followed L tLog s \<and> leEnqueue L (transfer_task L tLog now) = None then [transfer_task L tLog now] else []
   | _ \<Rightarrow> []) evs)"

text \<open>A log the loop survives: of another event, or with its three topics.\<close>

definition well_topiced :: "'s listen_env \<Rightarrow> chain_log \<Rightarrow> bool" where
  "well_topiced L tLog = (lgTopics tLog \<noteq> [] \<and>
     (hd (lgTopics tLog) \<in> {leTransferSig L, leApprovalSig L} \<longrightarrow> 3 \<le> length (lgTopics tLog)))"

lemma on_log_well:
  "on_log L tLog s now = (if well_topiced L tLog
     then Some (if followed L tLog s \<and> leEnqueue L (transfer_task L tLog now) = None then [transfer_task L tLog now] else [])
     else None)"
  by (cases "lgTopics tLog") (auto simp: on_log_def well_topiced_def followed_def two_topics_def transfer_task_def
      handleTransferHunt_def Let_def split: sum.splits option.splits)

definition survives :: "'s listen_env \<Rightarrow> 's listen_event list \<Rightarrow> bool" where
  "survives L evs = list_all (\<lambda>ev. case ev of LogArrived tLog _ _ \<Rightarrow> well_topiced L tLog | _ \<Rightarrow> True) evs"

lemma listen_loop_due:
  "listen_loop L sub evs = (if survives L evs
     then Some (sub + length (filter (\<lambda>ev. ev = SubscriptionError None) evs), tasks_due L evs) else None)"
proof (induction evs arbitrary: sub)
  case (Cons ev evs)
  then show ?case
    by (cases ev) (auto simp: on_log_well survives_def tasks_due_def)
qed (simp add: survives_def tasks_due_def)

lemma contract_addresses_listed:
  "list_all (\<lambda>a. asAddress a \<noteq> None) as \<Longrightarrow> \<exists>cas. contract_addresses L as = Some cas"
  by (induction as) auto

lemma watching_queue:
  assumes "RunOnchainWatcher B L f cfg broker fromBlock evs = Watching queued"
  shows "survives L evs \<and> queued = tasks_due L evs"
  using assms by (auto simp: RunOnchainWatcher_def StartOnchainListener_def startEVMTokenBalanceListener_def listen_loop_due
      split: boot.splits prod.splits if_splits option.splits listener.splits sum.splits)

text \<open>A watcher that nothing outside fails is set up, and then its loop is the process.\<close>

lemma watcher_listens:
  assumes "calm B cfg" and "list_all (\<lambda>a. asAddress a \<noteq> None) (ldAssets (beListings B))" and "leAbiErr L = None"
    and "\<And>cas n. leSubscribe L cas n = None" and "Atoi fromBlock = Some n"
  shows "RunOnchainWatcher B L None cfg broker fromBlock evs =
     (if survives L evs then Watching (tasks_due L evs) else WatcherExited 2)"
proof -
  let ?app = "wired_application B cfg watcher_options :: int application"
  have "can_boot B (boot_engine B :: int engine option) cfg watcher_options broker broker"
    using assms(1) by (simp add: can_boot_def calm_def command_options_defs)
  then have up: "NewApplication B cfg [watcher_options] broker = Up (?app, broker)" by (simp add: NewApplication_Up)
  have fields: "has_database ?app" "apETHWebsocketClient ?app \<noteq> None" "apPendingTransactionsCache ?app \<noteq> None"
    "apAsynqClient ?app \<noteq> None"
    by (simp_all add: has_database_def wired_application_def given_def command_options_defs)
  have "list_all (\<lambda>a. asAddress a \<noteq> None) (filter (\<lambda>a. asStatus a = AssetStatusActive) (ldAssets (beListings B)))"
    using assms(2) by (auto simp: list_all_iff)
  from contract_addresses_listed [OF this] obtain cas where
    cas: "contract_addresses L (filter (\<lambda>a. asStatus a = AssetStatusActive) (ldAssets (beListings B))) = Some cas" ..
  have "fromBlock \<noteq> []" using assms(5) by (auto simp: Atoi_def SetString10_def)
  then show ?thesis
    by (simp add: RunOnchainWatcher_def up assms(3-5) StartOnchainListener_def fields GetAvailableAssets_def cas
        startEVMTokenBalanceListener_def listen_loop_due)
qed

subsection \<open>Properties\<close>

text \<open>C21: When nothing outside fails, the watcher queues exactly one task for each transfer whose hash waits in the cache
  when its log arrives (and that the queue takes), in the logs' sequence, and nothing else; a log without the topics its
  event needs ends the process.\<close>

theorem watcher_queues_waiting_transfers:
  assumes "calm B cfg" and "listing_ok (beListings B)" and "leAbiErr L = None"
    and "\<And>cas n. leSubscribe L cas n = None" and "Atoi fromBlock = Some n"
  shows "RunOnchainWatcher B L None cfg broker fromBlock evs =
     (if survives L evs then Watching (tasks_due L evs) else WatcherExited 2)"
proof (rule watcher_listens [OF assms(1) _ assms(3-5)])
  show "list_all (\<lambda>a. asAddress a \<noteq> None) (ldAssets (beListings B))"
    using assms(2) by (auto simp: listing_ok_def list_all_iff)
qed

definition sample_listen :: "(string \<Rightarrow> string option) listen_env" where
  "sample_listen = \<lparr> leRedis = aeRedis sample_auth, leUnpack = (\<lambda>_ d. if d = [] then (Some ''short'', None) else (None, Some 500)),
     leHexToAddress = (\<lambda>s. s), leEnqueue = (\<lambda>_. None), leTransferSig = ''0xddf2'', leApprovalSig = ''0x8c5b'',
     leAbiErr = None, leSubscribe = (\<lambda>_ _. None) \<rparr>"

definition sample_log :: "string \<Rightarrow> chain_log" where
  "sample_log h = \<lparr> lgTopics = [''0xddf2'', ''0xa'', ''0xb''], lgData = ''01'', lgTxHash = h, lgAddress = ''0xtoken'',
     lgBlockNumber = 7, lgRemoved = False \<rparr>"

definition sample_arrivals :: "(string \<Rightarrow> string option) listen_event list" where
  "sample_arrivals = [LogArrived (sample_log ''0x1'') [pending_key ''0x1'' \<mapsto> ''0x1''] 5, OsSignal,
     LogArrived (sample_log ''0x2'') [pending_key ''0x1'' \<mapsto> ''0x1''] 6]"

lemma sample_watch:
  "calm (sample_boot None) empty_configuration" "listing_ok (beListings (sample_boot None))" "leAbiErr sample_listen = None"
  "leSubscribe sample_listen cas m = None" "Atoi ''10334076'' = Some 10334076" "survives sample_listen sample_arrivals"
  "map tpTrxHash (tasks_due sample_listen sample_arrivals) = [''0x1'']"
proof -
  show "calm (sample_boot None) empty_configuration" by (rule sample_boot_facts)
  show "listing_ok (beListings (sample_boot None))" using sample_boot_facts(2) [of None] by (simp add: bookable_def)
  show "leAbiErr sample_listen = None" "leSubscribe sample_listen cas m = None" by (simp_all add: sample_listen_def)
  show "Atoi ''10334076'' = Some 10334076" by code_simp
  show "survives sample_listen sample_arrivals"
    by (simp add: survives_def sample_arrivals_def well_topiced_def sample_log_def)
  show "map tpTrxHash (tasks_due sample_listen sample_arrivals) = [''0x1'']"
    by (simp add: tasks_due_def sample_arrivals_def followed_def sample_log_def sample_listen_def transfer_task_def
        RegisterTransferEventTask_def json_exported_def GetPendingTransaction_def pending_key_def PENDING_TRANSACTION_PREFIX_def
        sample_auth_def)
qed

theorem watcher_queues_waiting_transfers_witness:
  "\<exists>queued. RunOnchainWatcher (sample_boot None) sample_listen None empty_configuration (\<lambda>_. Some 3) ''10334076''
     sample_arrivals = Watching queued \<and> map tpTrxHash queued = [''0x1'']"
  using watcher_queues_waiting_transfers [OF sample_watch(1-5), of "\<lambda>_. Some 3" sample_arrivals] sample_watch(6,7) by simp

text \<open>No deposit from outside is ever followed: whatever the logs, a transfer whose hash was not waiting in the cache
  when its log arrived is not among the tasks the watcher queued.\<close>

theorem unknown_transfers_are_not_followed:
  assumes "RunOnchainWatcher B L f cfg broker fromBlock evs = Watching queued"
    and "\<And>tLog s now. LogArrived tLog s now \<in> set evs \<Longrightarrow> lgTxHash tLog = h \<Longrightarrow>
       \<exists>err. GetPendingTransaction (leRedis L) h s = Inl err"
  shows "h \<notin> tpTrxHash ` set queued"
proof
  assume "h \<in> tpTrxHash ` set queued"
  then obtain tLog s now where "LogArrived tLog s now \<in> set evs" "followed L tLog s" "tpTrxHash (transfer_task L tLog now) = h"
    using watching_queue [OF assms(1)] by (auto simp: tasks_due_def split: listen_event.splits if_splits)
  moreover from this have "lgTxHash tLog = h"
    by (simp add: transfer_task_def RegisterTransferEventTask_def json_exported_def)
  ultimately show False using assms(2) by (fastforce simp: followed_def)
qed

theorem unknown_transfers_are_not_followed_witness:
  "\<exists>queued. RunOnchainWatcher (sample_boot None) sample_listen None empty_configuration (\<lambda>_. Some 3) ''10334076''
     sample_arrivals = Watching queued \<and> ''0x2'' \<notin> tpTrxHash ` set queued"
proof -
  have r: "RunOnchainWatcher (sample_boot None) sample_listen None empty_configuration (\<lambda>_. Some 3) ''10334076''
      sample_arrivals = Watching (tasks_due sample_listen sample_arrivals)"
    by (subst watcher_listens [OF sample_watch(1) _ sample_watch(3-5)])
      (use sample_watch(2,6) in \<open>auto simp: listing_ok_def list_all_iff\<close>)
  have "\<exists>err. GetPendingTransaction (leRedis sample_listen) ''0x2'' s = Inl err"
    if "LogArrived tLog s now \<in> set sample_arrivals" for tLog s now
    using that by (auto simp: sample_arrivals_def GetPendingTransaction_def pending_key_def PENDING_TRANSACTION_PREFIX_def
        sample_listen_def sample_auth_def)
  then show ?thesis using unknown_transfers_are_not_followed [OF r, of "''0x2''"] r by auto
qed

text \<open>No signal stops a watcher that listens: the signals that arrive change nothing, and after any events the process
  still listens, unless a log made it panic.\<close>

theorem signals_do_not_stop_the_watcher:
  assumes "RunOnchainWatcher B L f cfg broker fromBlock [] = Watching []"
  shows "RunOnchainWatcher B L f cfg broker fromBlock evs =
       RunOnchainWatcher B L f cfg broker fromBlock (filter (\<lambda>ev. ev \<noteq> OsSignal) evs) \<and>
     (survives L evs = (\<exists>queued. RunOnchainWatcher B L f cfg broker fromBlock (evs @ [OsSignal]) = Watching queued))"
proof -
  have any: "RunOnchainWatcher B L f cfg broker fromBlock es = (if survives L es then Watching (tasks_due L es) else WatcherExited 2)" for es
    using assms by (auto simp: RunOnchainWatcher_def StartOnchainListener_def startEVMTokenBalanceListener_def listen_loop_due
        split: boot.splits prod.splits if_splits option.splits listener.splits sum.splits)
  have "survives L (filter (\<lambda>ev. ev \<noteq> OsSignal) evs) = survives L evs"
    "tasks_due L (filter (\<lambda>ev. ev \<noteq> OsSignal) evs) = tasks_due L evs"
    by (induction evs) (auto simp: survives_def tasks_due_def)
  moreover have "survives L (evs @ [OsSignal]) = survives L evs" by (simp add: survives_def)
  ultimately show ?thesis by (simp add: any)
qed

theorem signals_do_not_stop_the_watcher_witness:
  "\<exists>queued. RunOnchainWatcher (sample_boot None) sample_listen None empty_configuration (\<lambda>_. Some 3) ''10334076''
     (sample_arrivals @ [OsSignal]) = Watching queued"
proof -
  have "RunOnchainWatcher (sample_boot None) sample_listen None empty_configuration (\<lambda>_. Some 3) ''10334076'' [] = Watching []"
    by (subst watcher_listens [OF sample_watch(1) _ sample_watch(3-5)])
      (use sample_watch(2) in \<open>auto simp: listing_ok_def list_all_iff survives_def tasks_due_def\<close>)
  from signals_do_not_stop_the_watcher [OF this, of sample_arrivals] sample_watch(6) show ?thesis by simp
qed

end
