(* ===== verification/Task_Worker.thy ===== *)
theory Task_Worker
  imports Chain_Listener
begin

text \<open>
  The background worker: the tasks the program queues (\<^verbatim>\<open>internal/adapter/tasks\<close>: tasks.go and the three constructors) and
  the handlers of \<^verbatim>\<open>internal/infrastructure/worker/worker.go\<close>. A payload is the value that was encoded; decoding one kind
  as another finds none of its fields, and gives zero values. The queue's multiplexer is a parameter.
\<close>

definition EvmTransactionUpdateStatusV1 :: string where
  "EvmTransactionUpdateStatusV1 = ''transaction.evmtransaction.update.v1''"

definition UserUpdateEmailVerificaitonV1 :: string where
  "UserUpdateEmailVerificaitonV1 = ''user.email.update.v1''"

definition TransferEventCreateV1 :: string where
  "TransferEventCreateV1 = ''transfer_event.create.v1''"

datatype task_payload =
    StatusPayload string int | EmailPayload email_payload | TransferPayload transfer_payload | Garbled string

record task =
  tkType :: string
  tkPayload :: task_payload
  tkQueue :: string
  tkMaxRetry :: nat
  tkDelay :: time

definition status_task :: "string \<Rightarrow> int \<Rightarrow> task" where
  "status_task trxHash chainId = \<lparr> tkType = EvmTransactionUpdateStatusV1, tkPayload = StatusPayload trxHash chainId,
     tkQueue = ''transaction'', tkMaxRetry = 50, tkDelay = 10000000000 \<rparr>"

definition email_task :: "email_payload \<Rightarrow> task" where
  "email_task p = \<lparr> tkType = UserUpdateEmailVerificaitonV1, tkPayload = EmailPayload p, tkQueue = ''email'',
     tkMaxRetry = 1, tkDelay = 0 \<rparr>"

definition transfer_event_task :: "transfer_payload \<Rightarrow> task" where
  "transfer_event_task p = \<lparr> tkType = TransferEventCreateV1, tkPayload = TransferPayload p, tkQueue = ''transaction'',
     tkMaxRetry = 2, tkDelay = 5000000000 \<rparr>"

definition zero_email :: email_payload where
  "zero_email = \<lparr> epRequestTime = [], epIP = [], epLocation = [], epDevice = [], epYear = [], epReceiverEmail = [], epUsername = [] \<rparr>"

definition zero_transfer :: transfer_payload where
  "zero_transfer = \<lparr> tpTrxHash = [], tpBlockNumber = 0, tpFrom = [], tpTo = [], tpIsRemoved = False, tpValue = [],
     tpTokenCA = [], tpTime = 0 \<rparr>"

definition as_status :: "task_payload \<Rightarrow> string + string \<times> int" where
  "as_status p = (case p of StatusPayload h c \<Rightarrow> Inr (h, c) | Garbled err \<Rightarrow> Inl err | _ \<Rightarrow> Inr ([], 0))"

definition as_email :: "task_payload \<Rightarrow> string + email_payload" where
  "as_email p = (case p of EmailPayload e \<Rightarrow> Inr e | Garbled err \<Rightarrow> Inl err | _ \<Rightarrow> Inr zero_email)"

definition as_transfer :: "task_payload \<Rightarrow> string + transfer_payload" where
  "as_transfer p = (case p of TransferPayload e \<Rightarrow> Inr e | Garbled err \<Rightarrow> Inl err | _ \<Rightarrow> Inr zero_transfer)"

subsection \<open>The worker (worker.go)\<close>

definition worker_queues :: "(string \<times> nat) list" where
  "worker_queues = [(''transaction'', 5), (''email'', 5)]"

definition worker_patterns :: "string list" where
  "worker_patterns = [EvmTransactionUpdateStatusV1, UserUpdateEmailVerificaitonV1, TransferEventCreateV1]"

record 's worker_env =
  wkMux :: "string list \<Rightarrow> string \<Rightarrow> string option"
  wkLookupFault :: "string option"
  wkUpdateFault :: "string option"
  wkHexToHash :: "string \<Rightarrow> string"
  wkOnChain :: "string \<Rightarrow> string + bool"
  wkReceipt :: "string \<Rightarrow> string + nat"
  wkRandom :: "nat \<Rightarrow> nat \<Rightarrow> nat option"
  wkTemplateErr :: "string option"
  wkSendMail :: "string \<Rightarrow> string \<Rightarrow> string option"
  wkTransfer :: "'s transfer_env"
  wkEnv :: string

record 's worker_state =
  wkState :: "'s transfer_state"
  wkTxs :: "evm_tx list"
  wkMails :: "(string \<times> string) list"

datatype task_error = NoHandler | StatusTask status_error | EmailTask string | TransferTask transfer_error

text \<open>\<open>None\<close> is a panic in the handler.\<close>

definition RegisterWorkerHandler ::
  "'s worker_env \<Rightarrow> task \<Rightarrow> 's worker_state \<Rightarrow> task_error option option \<times> 's worker_state" where
  "RegisterWorkerHandler W t st =
     (case wkMux W worker_patterns (tkType t) of
        None \<Rightarrow> (Some (Some NoHandler), st)
      | Some pattern \<Rightarrow>
          if pattern = EvmTransactionUpdateStatusV1 then
            (case HandleTransactionStatus (wkLookupFault W) (wkUpdateFault W) (wkHexToHash W) (wkOnChain W) (wkReceipt W)
                    (as_status (tkPayload t)) (wkTxs st) of
               (r, txs) \<Rightarrow> (map_option (map_option StatusTask) r, st\<lparr>wkTxs := txs\<rparr>))
          else if pattern = UserUpdateEmailVerificaitonV1 then
            (case HandleEmailVerificationCodeSendOp (teRedis (wkTransfer W)) (wkRandom W) (wkTemplateErr W) (wkSendMail W)
                    (as_email (tkPayload t)) (tsRedis (wkState st)) of
               (r, mails, rd) \<Rightarrow> (Some (map_option EmailTask r),
                 st\<lparr>wkState := (wkState st)\<lparr>tsRedis := rd\<rparr>, wkMails := wkMails st @ mails\<rparr>))
          else if pattern = TransferEventCreateV1 then
            (case HandleTransferEventTask (wkTransfer W) (as_transfer (tkPayload t)) (wkState st) of
               (r, ts) \<Rightarrow> (map_option (map_option TransferTask) r, st\<lparr>wkState := ts\<rparr>))
          else (Some (Some NoHandler), st))"

text \<open>The error handler: what it reports of a failed task.\<close>

definition reported_errors :: "'s worker_env \<Rightarrow> task_error option option \<Rightarrow> task_error list" where
  "reported_errors W r = (case r of Some (Some err) \<Rightarrow> if wkEnv W = ''PRODUCTION'' then [err] else [] | _ \<Rightarrow> [])"

subsection \<open>Properties\<close>

text \<open>What the queue documents of its multiplexer: a task whose type is registered goes to that handler.\<close>

definition mux_exact :: "(string list \<Rightarrow> string \<Rightarrow> string option) \<Rightarrow> bool" where
  "mux_exact mux = (\<forall>patterns t. t \<in> set patterns \<longrightarrow> mux patterns t = Some t)"

text \<open>C30: Every task the program queues is in a queue the worker serves, and reaches the handler of its kind with the
  payload it was queued with: the status task its transaction's hash, the mail task its receiver, the transfer task
  its transfer.\<close>

theorem queued_tasks_reach_their_handler:
  assumes "mux_exact (wkMux W)"
  shows "tkQueue (status_task h c) \<in> fst ` set worker_queues \<and> tkQueue (email_task e) \<in> fst ` set worker_queues \<and>
     tkQueue (transfer_event_task p) \<in> fst ` set worker_queues \<and>
     (\<exists>r txs. HandleTransactionStatus (wkLookupFault W) (wkUpdateFault W) (wkHexToHash W) (wkOnChain W) (wkReceipt W)
         (Inr (h, c)) (wkTxs st) = (r, txs) \<and>
       RegisterWorkerHandler W (status_task h c) st = (map_option (map_option StatusTask) r, st\<lparr>wkTxs := txs\<rparr>)) \<and>
     (\<exists>r mails rd. HandleEmailVerificationCodeSendOp (teRedis (wkTransfer W)) (wkRandom W) (wkTemplateErr W) (wkSendMail W)
         (Inr e) (tsRedis (wkState st)) = (r, mails, rd) \<and>
       RegisterWorkerHandler W (email_task e) st =
         (Some (map_option EmailTask r), st\<lparr>wkState := (wkState st)\<lparr>tsRedis := rd\<rparr>, wkMails := wkMails st @ mails\<rparr>)) \<and>
     (\<exists>r ts. HandleTransferEventTask (wkTransfer W) (Inr p) (wkState st) = (r, ts) \<and>
       RegisterWorkerHandler W (transfer_event_task p) st = (map_option (map_option TransferTask) r, st\<lparr>wkState := ts\<rparr>))"
proof -
  have mux: "wkMux W worker_patterns t = Some t" if "t \<in> set worker_patterns" for t
    using assms that by (simp add: mux_exact_def)
  have types: "EvmTransactionUpdateStatusV1 \<noteq> UserUpdateEmailVerificaitonV1"
    "EvmTransactionUpdateStatusV1 \<noteq> TransferEventCreateV1" "UserUpdateEmailVerificaitonV1 \<noteq> TransferEventCreateV1"
    by (simp_all add: EvmTransactionUpdateStatusV1_def UserUpdateEmailVerificaitonV1_def TransferEventCreateV1_def)
  have member: "EvmTransactionUpdateStatusV1 \<in> set worker_patterns" "UserUpdateEmailVerificaitonV1 \<in> set worker_patterns"
    "TransferEventCreateV1 \<in> set worker_patterns" by (simp_all add: worker_patterns_def)
  show ?thesis
    by (simp add: RegisterWorkerHandler_def status_task_def email_task_def transfer_event_task_def worker_queues_def
        mux member types types [symmetric] as_status_def as_email_def as_transfer_def split: prod.split)
qed

definition sample_worker :: "(string \<Rightarrow> string option) worker_env" where
  "sample_worker = \<lparr> wkMux = (\<lambda>ps t. if t \<in> set ps then Some t else None), wkLookupFault = None, wkUpdateFault = None,
     wkHexToHash = (\<lambda>s. s), wkOnChain = (\<lambda>_. Inr False), wkReceipt = (\<lambda>_. Inr 1), wkRandom = (\<lambda>_ _. Some 7),
     wkTemplateErr = None, wkSendMail = (\<lambda>_ _. None), wkTransfer = deposit_env, wkEnv = ''PRODUCTION'' \<rparr>"

theorem queued_tasks_reach_their_handler_witness:
  "\<exists>txs st'. RegisterWorkerHandler sample_worker (status_task ''0x1'' 1)
      \<lparr> wkState = deposit_state, wkTxs = [pending_row ''0x1''], wkMails = [] \<rparr> = (Some None, st') \<and>
     map etStatus (wkTxs st') = [ConfirmedStatus]"
proof -
  let ?st = "\<lparr> wkState = deposit_state, wkTxs = [pending_row ''0x1''], wkMails = [] \<rparr>"
  have "mux_exact (wkMux sample_worker)" by (simp add: mux_exact_def sample_worker_def)
  from queued_tasks_reach_their_handler [OF this, of "''0x1''" 1 zero_email zero_transfer ?st]
  obtain r txs where h: "HandleTransactionStatus (wkLookupFault sample_worker) (wkUpdateFault sample_worker)
      (wkHexToHash sample_worker) (wkOnChain sample_worker) (wkReceipt sample_worker) (Inr (''0x1'', 1)) [pending_row ''0x1''] = (r, txs)"
    and r: "RegisterWorkerHandler sample_worker (status_task ''0x1'' 1) ?st =
       (map_option (map_option StatusTask) r, ?st\<lparr>wkTxs := txs\<rparr>)" by auto
  have "r = Some None \<and> map etStatus txs = [ConfirmedStatus]"
    using h by (auto simp: sample_worker_def HandleTransactionStatus_def GetTransactionByHash_def UpdateTransactionStatus_def
        pending_row_def NewEVMTransaction_def Let_def split: if_splits)
  with r show ?thesis by simp
qed

end
