(* ===== verification/Server_Commands.thy ===== *)
theory Server_Commands
  imports Http_Router Task_Worker
begin

text \<open>
  The commands that serve until a signal and then close what they hold: \<^verbatim>\<open>cmd/api.go\<close> and \<^verbatim>\<open>cmd/worker.go\<close>.
  \<open>listenErr\<close> is an error of \<^verbatim>\<open>ListenAndServe\<close> other than its being closed, \<open>serverErr\<close> that of the task server's
  \<^verbatim>\<open>Run\<close>, which returns after a signal; \<open>sqlErr\<close> is the error of asking gorm for its connection pool. No goroutine
  is ever added to the wait group of the API.
\<close>

datatype api_run = ApiExited nat | ApiServing "route list" | ApiStopped "route list" "conn list"

definition RunApi ::
  "'s boot_env \<Rightarrow> (configuration \<Rightarrow> string option) \<Rightarrow> string option \<Rightarrow> bool \<Rightarrow> bool \<Rightarrow> configuration \<Rightarrow> 's \<Rightarrow> api_run" where
  "RunApi B adminErr listenErr signalled sqlErr cfg s =
     (case (NewApplication B cfg [api_options] s :: (int application \<times> 's) boot) of
        Fatal _ _ \<Rightarrow> ApiExited 1
      | BootPanic \<Rightarrow> ApiExited 2
      | Up (app, _) \<Rightarrow>
          (case SetupRouter adminErr (apConfigs app) of
             Inl _ \<Rightarrow> ApiExited 1
           | Inr routes \<Rightarrow>
               if listenErr \<noteq> None then ApiExited 1
               else if signalled then ApiStopped routes (Shutdown False sqlErr app)
               else ApiServing routes))"

text \<open>The tasks are those delivered until the signal; a task that fails or panics leaves the server running.\<close>

datatype 's worker_run = WorkerExited nat | WorkerStopped "conn list" 's

definition RunWorker ::
  "'b boot_env \<Rightarrow> 's worker_env \<Rightarrow> string option \<Rightarrow> bool \<Rightarrow> configuration \<Rightarrow> 'b \<Rightarrow> task list \<Rightarrow> 's worker_state \<Rightarrow>
   's worker_state worker_run" where
  "RunWorker B W serverErr sqlErr cfg s tasks st =
     (case (NewApplication B cfg [worker_options] s :: (int application \<times> 'b) boot) of
        Fatal _ _ \<Rightarrow> WorkerExited 1
      | BootPanic \<Rightarrow> WorkerExited 2
      | Up (app, _) \<Rightarrow>
          if serverErr \<noteq> None then WorkerExited 1
          else WorkerStopped (Shutdown False sqlErr app) (fold (\<lambda>t st. snd (RegisterWorkerHandler W t st)) tasks st))"

lemma api_up:
  assumes "calm B cfg" and "bookable (beListings B)" and "topics_synced B s s1"
  shows "NewApplication B cfg [api_options] s = Up (wired_application B cfg api_options :: int application, s1)"
    and "boot_engine B \<noteq> (None :: int engine option)"
proof -
  note calm = assms(1) [unfolded calm_def]
  obtain me :: "int engine" where me: "boot_engine B = Some me"
    using boot_engine_bookable [OF assms(2), where ?'d = int] calm by metis
  then have "can_boot B (boot_engine B :: int engine option) cfg api_options s s1"
    by (simp add: can_boot_def calm assms(3) command_options_defs)
  then show "NewApplication B cfg [api_options] s = Up (wired_application B cfg api_options :: int application, s1)"
    by (simp add: NewApplication_Up)
  show "boot_engine B \<noteq> (None :: int engine option)" by (simp add: me)
qed

lemma worker_up:
  assumes "calm B cfg"
  shows "NewApplication B cfg [worker_options] s = Up (wired_application B cfg worker_options :: int application, s)"
proof -
  note calm = assms(1) [unfolded calm_def]
  have "can_boot B (boot_engine B :: int engine option) cfg worker_options s s"
    by (simp add: can_boot_def calm command_options_defs)
  then show ?thesis by (simp add: NewApplication_Up)
qed

subsection \<open>Properties\<close>



end
