(* ===== verification/Web3_Utils.thy ===== *)
theory Web3_Utils
  imports Chain_Listener
begin

text \<open>
  \<^verbatim>\<open>pkg/utils/web3.go\<close>: addresses, gas and signatures. An argument of any type is a datatype of the types the code
  looks for. \<open>hexOf\<close> is the checksummed text of an address, \<open>toAddress\<close> and \<open>decode\<close> are go-ethereum's readers of
  hexadecimal text. The two conversions between a decimal and its wei are left out: they rest on the rounding of the
  decimal package.
\<close>

type_synonym bytes = "8 word list"

datatype address_arg = TextAddress string | RawAddress bytes | OtherAddress

definition valid_address :: "string \<Rightarrow> bool" where
  "valid_address s = (take 2 s = ''0x'' \<and> length (drop 2 s) = 40 \<and> list_all is_hex (drop 2 s))"

definition IsValidAddress :: "(bytes \<Rightarrow> string) \<Rightarrow> address_arg \<Rightarrow> bool" where
  "IsValidAddress hexOf iaddress =
     (case iaddress of TextAddress v \<Rightarrow> valid_address v | RawAddress v \<Rightarrow> valid_address (hexOf v) | OtherAddress \<Rightarrow> False)"

definition IsZeroAddress :: "(string \<Rightarrow> bytes) \<Rightarrow> address_arg \<Rightarrow> bool" where
  "IsZeroAddress toAddress iaddress =
     (case iaddress of
        TextAddress v \<Rightarrow> toAddress v = replicate 20 0 | RawAddress v \<Rightarrow> v = replicate 20 0 | OtherAddress \<Rightarrow> False)"

text \<open>The gas limit is converted to a signed 64-bit integer first.\<close>

definition CalcGasCost :: "64 word \<Rightarrow> int \<Rightarrow> int" where
  "CalcGasCost gasLimit gasPrice = (let gasLimitBig = sint gasLimit in gasLimitBig * gasPrice)"

subsection \<open>Signatures\<close>

definition byte_hex :: "8 word \<Rightarrow> string" where
  "byte_hex b = [hex_digit (unat b div 16), hex_digit (unat b mod 16)]"

definition Bytes2Hex :: "bytes \<Rightarrow> string" where
  "Bytes2Hex bs = concat (map byte_hex bs)"

text \<open>\<^verbatim>\<open>FromHex\<close> on an even number of lower-case digits.\<close>

fun FromHex :: "string \<Rightarrow> bytes" where
  "FromHex (c # d # s) = of_nat (16 * hex_value c + hex_value d) # FromHex s"
| "FromHex s = []"

datatype sig_arg = RawSig bytes | TextSig string | OtherSig

text \<open>A text that cannot be decoded gives no bytes; slicing too short a text panics (\<open>None\<close>).\<close>

definition SigRSV :: "(string \<Rightarrow> bytes option) \<Rightarrow> sig_arg \<Rightarrow> (bytes \<times> bytes \<times> 8 word) option" where
  "SigRSV decode isig =
     (let sig = (case isig of RawSig v \<Rightarrow> v | TextSig v \<Rightarrow> (case decode v of None \<Rightarrow> [] | Some bs \<Rightarrow> bs) | OtherSig \<Rightarrow> []);
          sigstr = Bytes2Hex sig
      in if length sigstr < 130 then None
         else let R = FromHex (take 64 sigstr);
                  S = FromHex (take 64 (drop 64 sigstr));
                  vI = (case Atoi (take 2 (drop 128 sigstr)) of None \<Rightarrow> 0 | Some n \<Rightarrow> n)
              in Some (R, S, word_of_int (vI + 27)))"

subsection \<open>Lemmas\<close>

lemma Bytes2Hex_simps [simp]:
  "Bytes2Hex [] = []" "Bytes2Hex (b # bs) = byte_hex b @ Bytes2Hex bs" "length (byte_hex b) = 2"
  by (simp_all add: Bytes2Hex_def byte_hex_def)

lemma length_Bytes2Hex [simp]: "length (Bytes2Hex bs) = 2 * length bs"
  by (induction bs) simp_all

lemma take_Bytes2Hex: "take (2 * n) (Bytes2Hex bs) = Bytes2Hex (take n bs)"
proof (induction bs arbitrary: n)
  case (Cons b bs)
  then show ?case by (cases n) (simp_all add: byte_hex_def)
qed simp

lemma drop_Bytes2Hex: "drop (2 * n) (Bytes2Hex bs) = Bytes2Hex (drop n bs)"
proof (induction bs arbitrary: n)
  case (Cons b bs)
  then show ?case by (cases n) (simp_all add: byte_hex_def)
qed simp

lemma FromHex_Bytes2Hex [simp]: "FromHex (Bytes2Hex bs) = bs"
proof (induction bs)
  case (Cons b bs)
  have "unat b < 2 ^ LENGTH(8)" by (rule unsigned_less)
  then have "16 * hex_value (hex_digit (unat b div 16)) + hex_value (hex_digit (unat b mod 16)) = unat b"
    by (simp add: hex_value_digit)
  with Cons show ?case by (simp add: byte_hex_def)
qed simp

lemma is_digit_hex: "n < 16 \<Longrightarrow> is_digit (hex_digit n) \<longleftrightarrow> n < 10"
  by (simp add: is_digit_def of_char_hex_digit)

lemma hex_digit_sign: "n < 16 \<Longrightarrow> hex_digit n \<noteq> CHR ''-''" "n < 16 \<Longrightarrow> hex_digit n \<noteq> CHR ''+''"
  using of_char_hex_digit [of n] by (auto split: if_splits)

lemma Atoi_hex:
  assumes "a < 16" and "c < 16"
  shows "Atoi [hex_digit a, hex_digit c] = (if a < 10 \<and> c < 10 then Some (int (10 * a + c)) else None)"
proof -
  have i: "int (of_char (hex_digit n)) = (if n < 10 then 48 + int n else 87 + int n)" if "n < 16" for n
    using of_char_hex_digit [OF that] by simp
  show ?thesis using assms hex_digit_sign [OF assms(1)]
    by (simp add: Atoi_def SetString10_def digits_value_def is_digit_hex i [simplified])
qed

subsection \<open>Properties\<close>

lemma word_plus_27: "word_of_int (int n + 27) = (of_nat (n + 27) :: 8 word)"
  by simp

lemma word_27: "word_of_int 27 = (27 :: 8 word)"
  by simp

text \<open>The first 64 bytes of a signature are split right. Its last byte is the recovery ID only below 10: it is read back
  from its hexadecimal text as a decimal number, so that 16 counts as 10, and 28, which Ethereum itself writes for the
  ID 1, has a letter and counts as the ID 0.\<close>

theorem signature_parts:
  assumes "65 \<le> length sig"
  shows "SigRSV decode (RawSig sig) = Some (take 32 sig, take 32 (drop 32 sig),
     (let v = unat (sig ! 64)
      in if v div 16 < 10 \<and> v mod 16 < 10 then of_nat (10 * (v div 16) + v mod 16 + 27) else 27))"
proof -
  have "unat (sig ! 64) < 2 ^ LENGTH(8)" by (rule unsigned_less)
  then have v: "unat (sig ! 64) div 16 < 16" "unat (sig ! 64) mod 16 < 16" by (simp_all add: less_mult_imp_div_less)
  have d: "drop 64 sig = sig ! 64 # drop 65 sig" using assms Cons_nth_drop_Suc [of 64 sig] by simp
  have "take 2 (drop 128 (Bytes2Hex sig)) = byte_hex (sig ! 64)"
    using drop_Bytes2Hex [of 64 sig] by (simp add: d byte_hex_def)
  moreover have "take 64 (Bytes2Hex sig) = Bytes2Hex (take 32 sig)" using take_Bytes2Hex [of 32 sig] by simp
  moreover have "take 64 (drop 64 (Bytes2Hex sig)) = Bytes2Hex (take 32 (drop 32 sig))"
    using drop_Bytes2Hex [of 32 sig] take_Bytes2Hex [of 32 "drop 32 sig"] by simp
  moreover have "\<not> length (Bytes2Hex sig) < 130" using assms by simp
  ultimately have "SigRSV decode (RawSig sig) = Some (take 32 sig, take 32 (drop 32 sig), word_of_int
      ((case Atoi (byte_hex (sig ! 64)) of None \<Rightarrow> 0 | Some n \<Rightarrow> n) + 27))"
    by (simp only: SigRSV_def sig_arg.case Let_def if_False FromHex_Bytes2Hex)
  then show ?thesis by (simp only: byte_hex_def Atoi_hex [OF v] Let_def) (auto simp only: option.case if_True if_False word_plus_27 add_0 word_27 split: if_split)
qed

theorem signature_parts_witness:
  "SigRSV (\<lambda>_. None) (RawSig (replicate 64 5 @ [28])) = Some (replicate 32 5, replicate 32 5, 27)"
proof -
  have "65 \<le> length (replicate 64 (5 :: 8 word) @ [28])" by simp
  from signature_parts [OF this] show ?thesis by (simp add: nth_append)
qed

lemma gas_limit_signed:
  "sint (w :: 64 word) = (if uint w < 2 ^ 63 then uint w else uint w - 2 ^ 64)"
proof -
  have "uint w < 2 ^ LENGTH(64)" by (rule unsigned_less)
  moreover have "odd (x div 2 ^ 63) \<longleftrightarrow> 2 ^ 63 \<le> x" if "0 \<le> x" "x < 2 ^ 64" for x :: int
  proof (cases "x < 2 ^ 63")
    case False
    have "x div 2 ^ 63 = 1" by (rule int_div_pos_eq [where r = "x - 2 ^ 63"]) (use that False in auto)
    with False show ?thesis by simp
  qed (use that in \<open>simp add: div_pos_pos_trivial\<close>)
  ultimately have "odd (uint w div 2 ^ 63) \<longleftrightarrow> 2 ^ 63 \<le> uint w" by simp
  then show ?thesis
    by (simp add: sint_uint signed_take_bit_eq_take_bit_minus bit_iff_odd take_bit_int_eq_self \<open>uint w < 2 ^ LENGTH(64)\<close> [simplified])
qed

text \<open>The cost of gas is right below half the range of a gas limit; above, the limit counts as a negative number.\<close>

theorem gas_cost:
  "CalcGasCost gasLimit gasPrice =
     (if uint gasLimit < 2 ^ 63 then uint gasLimit * gasPrice else (uint gasLimit - 2 ^ 64) * gasPrice)"
proof -
  have "sint gasLimit = (if uint gasLimit < 2 ^ 63 then uint gasLimit else uint gasLimit - 2 ^ 64)"
    using gas_limit_signed by simp
  then show ?thesis by (simp add: CalcGasCost_def)
qed

end
