(* ===== verification/Chain_Queries.thy ===== *)
theory Chain_Queries
  imports Web3_Utils
begin

text \<open>
  The two balance queries of \<^verbatim>\<open>internal/domain/services/wallet_service.go\<close>, which nothing calls, and the validator of
  \<^verbatim>\<open>handler/http/validators\<close>, of which the schemas have a copy in use. The chain client and the token binding are
  parameters. A query that fails gives zero beside its error.
\<close>

definition GetNativeETHBalance :: "(string \<Rightarrow> bytes) \<Rightarrow> (bytes \<Rightarrow> string + int) \<Rightarrow> string \<Rightarrow> int \<times> string option" where
  "GetNativeETHBalance toAddress balanceAt walletAddress =
     (let account = toAddress walletAddress
      in case balanceAt account of Inl err \<Rightarrow> (0, Some err) | Inr balance \<Rightarrow> (balance, None))"

definition GetTokenBalance ::
  "(string \<Rightarrow> bytes) \<Rightarrow> (bytes \<Rightarrow> string + 't) \<Rightarrow> ('t \<Rightarrow> bytes \<Rightarrow> string + int) \<Rightarrow> string \<Rightarrow> string \<Rightarrow> int \<times> string option" where
  "GetTokenBalance toAddress newToken balanceOf tokenContractAddress walletAddress =
     (let tokenAddress = toAddress tokenContractAddress; callerAddress = toAddress walletAddress
      in case newToken tokenAddress of
           Inl err \<Rightarrow> (0, Some err)
         | Inr inst \<Rightarrow> (case balanceOf inst callerAddress of Inl err \<Rightarrow> (0, Some err) | Inr balance \<Rightarrow> (balance, None)))"

definition validators_WalletAddressCheck :: "string \<Rightarrow> bool" where
  "validators_WalletAddressCheck walletAddress =
     (take 2 walletAddress = ''0x'' \<and> length (drop 2 walletAddress) = 40 \<and> list_all is_hex (drop 2 walletAddress))"

text \<open>A caller that ignores the error takes a failed query for an empty wallet.\<close>

lemma failed_balance_is_zero:
  "GetNativeETHBalance ta ba a = (b, Some err) \<Longrightarrow> b = 0"
  "GetTokenBalance ta nt bo c a = (b, Some err) \<Longrightarrow> b = 0"
  by (auto simp: GetNativeETHBalance_def GetTokenBalance_def Let_def split: sum.splits)

text \<open>The validator and the helper of \<^verbatim>\<open>pkg/utils\<close> take the same texts, all of 42 characters.\<close>

lemma validators_agree: "validators_WalletAddressCheck s = IsValidAddress hexOf (TextAddress s)"
  by (simp add: validators_WalletAddressCheck_def IsValidAddress_def valid_address_def)

lemma validators_length: "validators_WalletAddressCheck s \<Longrightarrow> length s = 42"
  by (cases "length s < 2") (auto simp: validators_WalletAddressCheck_def)

end
