(* ===== verification/Task_Codec.thy ===== *)
theory Task_Codec
  imports Task_Worker Json_Text
begin

text \<open>
  The payloads of the background tasks as texts: what \<^verbatim>\<open>json.Marshal\<close> writes for the three structs of
  \<^verbatim>\<open>internal/adapter/tasks\<close> and what \<^verbatim>\<open>json.Unmarshal\<close> reads, in a handler of its own kind or of another. The lemmas justify
  the payloads of \<^verbatim>\<open>Task_Worker\<close>, where a payload is the value that was encoded. \<open>tt\<close> and \<open>rt\<close> write and read a time; a
  time may have no text, and is then an error.
\<close>

type_synonym time_text = "time \<Rightarrow> string + string"
type_synonym time_reader = "string \<Rightarrow> time option"

definition time_texts_ok :: "time_text \<Rightarrow> time_reader \<Rightarrow> bool" where
  "time_texts_ok tt rt = (\<forall>t s. tt t = Inr s \<longrightarrow> rt s = Some t \<and> ascii s)"

subsection \<open>Writing\<close>

definition status_members :: "string \<Rightarrow> int \<Rightarrow> (string \<times> json) list" where
  "status_members trxHash chainId = [(''trx_hash'', JStr trxHash), (''chain_id'', JNum (fmt_int chainId))]"

definition email_members :: "email_payload \<Rightarrow> (string \<times> json) list" where
  "email_members p = [(''RequestTime'', JStr (epRequestTime p)), (''IP'', JStr (epIP p)), (''Location'', JStr (epLocation p)),
     (''Device'', JStr (epDevice p)), (''Year'', JStr (epYear p)), (''ReceiverEmail'', JStr (epReceiverEmail p)),
     (''Username'', JStr (epUsername p))]"

text \<open>The field \<^verbatim>\<open>value\<close> is not exported, and has no member.\<close>

definition transfer_members :: "transfer_payload \<Rightarrow> string \<Rightarrow> (string \<times> json) list" where
  "transfer_members p timeText = [(''TrxHash'', JStr (tpTrxHash p)), (''BlockNumber'', JNum (fmt_int (int (tpBlockNumber p)))),
     (''From'', JStr (tpFrom p)), (''To'', JStr (tpTo p)), (''IsRemoved'', JBool (tpIsRemoved p)),
     (''TokenCA'', JStr (tpTokenCA p)), (''Time'', JStr timeText)]"

definition task_text :: "time_text \<Rightarrow> task_payload \<Rightarrow> string + string" where
  "task_text tt p =
     (case p of
        StatusPayload h c \<Rightarrow> Inr (json_text (JObj (status_members h c)))
      | EmailPayload e \<Rightarrow> Inr (json_text (JObj (email_members e)))
      | TransferPayload e \<Rightarrow>
          (case tt (tpTime e) of Inl err \<Rightarrow> Inl err | Inr s \<Rightarrow> Inr (json_text (JObj (transfer_members e s))))
      | Garbled s \<Rightarrow> Inr s)"

subsection \<open>Reading\<close>

definition status_fields :: "(string \<times> int) field list" where
  "status_fields = [field_str ''trx_hash'' (\<lambda>s (h, c). (s, c)), field_int (- (2 ^ 63)) (2 ^ 63) ''chain_id'' (\<lambda>i (h, c). (h, i))]"

definition email_fields :: "email_payload field list" where
  "email_fields = [field_str ''RequestTime'' (\<lambda>s p. p\<lparr>epRequestTime := s\<rparr>), field_str ''IP'' (\<lambda>s p. p\<lparr>epIP := s\<rparr>),
     field_str ''Location'' (\<lambda>s p. p\<lparr>epLocation := s\<rparr>), field_str ''Device'' (\<lambda>s p. p\<lparr>epDevice := s\<rparr>),
     field_str ''Year'' (\<lambda>s p. p\<lparr>epYear := s\<rparr>), field_str ''ReceiverEmail'' (\<lambda>s p. p\<lparr>epReceiverEmail := s\<rparr>),
     field_str ''Username'' (\<lambda>s p. p\<lparr>epUsername := s\<rparr>)]"

definition transfer_fields :: "time_reader \<Rightarrow> transfer_payload field list" where
  "transfer_fields rt = [field_str ''TrxHash'' (\<lambda>s p. p\<lparr>tpTrxHash := s\<rparr>),
     field_int 0 (2 ^ 64) ''BlockNumber'' (\<lambda>i p. p\<lparr>tpBlockNumber := nat i\<rparr>), field_str ''From'' (\<lambda>s p. p\<lparr>tpFrom := s\<rparr>),
     field_str ''To'' (\<lambda>s p. p\<lparr>tpTo := s\<rparr>), field_bool ''IsRemoved'' (\<lambda>b p. p\<lparr>tpIsRemoved := b\<rparr>),
     field_str ''TokenCA'' (\<lambda>s p. p\<lparr>tpTokenCA := s\<rparr>), field_text False rt ''Time'' (\<lambda>t p. p\<lparr>tpTime := t\<rparr>)]"

definition unmarshal_status :: "string \<Rightarrow> string + (string \<times> int)" where
  "unmarshal_status payload = decode_struct status_fields payload ([], 0)"

definition unmarshal_email :: "string \<Rightarrow> string + email_payload" where
  "unmarshal_email payload = decode_struct email_fields payload zero_email"

definition unmarshal_transfer :: "time_reader \<Rightarrow> string \<Rightarrow> string + transfer_payload" where
  "unmarshal_transfer rt payload = decode_struct (transfer_fields rt) payload zero_transfer"

subsection \<open>Lemmas\<close>

text \<open>The values of the Go types: ASCII strings, a 64 bit \<^verbatim>\<open>int\<close> and a \<^verbatim>\<open>uint64\<close>.\<close>

definition payload_ok :: "task_payload \<Rightarrow> bool" where
  "payload_ok p =
     (case p of
        StatusPayload h c \<Rightarrow> ascii h \<and> - (2 ^ 63) \<le> c \<and> c < 2 ^ 63
      | EmailPayload e \<Rightarrow> list_all ascii [epRequestTime e, epIP e, epLocation e, epDevice e, epYear e, epReceiverEmail e, epUsername e]
      | TransferPayload e \<Rightarrow> list_all ascii [tpTrxHash e, tpFrom e, tpTo e, tpTokenCA e] \<and> tpBlockNumber e < 2 ^ 64
      | Garbled s \<Rightarrow> False)"

definition exported :: "task_payload \<Rightarrow> task_payload" where
  "exported p = (case p of TransferPayload e \<Rightarrow> TransferPayload (json_exported e) | _ \<Rightarrow> p)"

lemma task_members_wf:
  "ascii h \<Longrightarrow> members_wf (status_members h c)"
  "payload_ok (EmailPayload e) \<Longrightarrow> members_wf (email_members e)"
  "payload_ok (TransferPayload p) \<Longrightarrow> ascii s \<Longrightarrow> members_wf (transfer_members p s)"
  by (simp_all add: status_members_def email_members_def transfer_members_def payload_ok_def)

text \<open>No two of the three structs share a name, whatever the case of its letters.\<close>

definition status_names :: "string list" where "status_names = [''trx_hash'', ''chain_id'']"

definition email_names :: "string list" where
  "email_names = [''RequestTime'', ''IP'', ''Location'', ''Device'', ''Year'', ''ReceiverEmail'', ''Username'']"

definition transfer_names :: "string list" where
  "transfer_names = [''TrxHash'', ''BlockNumber'', ''From'', ''To'', ''IsRemoved'', ''TokenCA'', ''Time'']"

lemma task_names:
  "field_names status_fields = map to_lower status_names" "map fst (status_members h c) = status_names"
  "field_names email_fields = map to_lower email_names" "map fst (email_members e) = email_names"
  "field_names (transfer_fields rt) = map to_lower transfer_names" "map fst (transfer_members p s) = transfer_names"
  by (simp_all add: field_names_def field_defs status_fields_def email_fields_def transfer_fields_def status_members_def
      email_members_def transfer_members_def status_names_def email_names_def transfer_names_def)

definition unknown_names :: "string list \<Rightarrow> string list \<Rightarrow> bool" where
  "unknown_names known names = list_all (\<lambda>k. to_lower k \<notin> set (map to_lower known)) names"

lemma task_names_apart:
  "unknown_names status_names email_names" "unknown_names status_names transfer_names"
  "unknown_names email_names status_names" "unknown_names email_names transfer_names"
  "unknown_names transfer_names status_names" "unknown_names transfer_names email_names"
  by code_simp+

lemma other_members:
  "set_members status_fields (email_members e) r = Some r" "set_members status_fields (transfer_members p s) r = Some r"
  "set_members email_fields (status_members h c) r' = Some r'" "set_members email_fields (transfer_members p s) r' = Some r'"
  "set_members (transfer_fields rt) (status_members h c) r'' = Some r''"
  "set_members (transfer_fields rt) (email_members e) r'' = Some r''"
  using task_names_apart by (simp_all add: set_members_other task_names unknown_names_def)

lemma set_status_members:
  "- (2 ^ 63) \<le> c \<Longrightarrow> c < 2 ^ 63 \<Longrightarrow> set_members status_fields (status_members h c) r = Some (h, c)"
  by (cases r) (simp add: status_fields_def status_members_def find_field_def field_defs int_member_fmt)

lemma set_email_members: "set_members email_fields (email_members e) r = Some e"
  by (simp add: email_fields_def email_members_def find_field_def field_defs)

lemma set_transfer_members:
  "tpBlockNumber p < 2 ^ 64 \<Longrightarrow> rt s = Some (tpTime p) \<Longrightarrow>
     set_members (transfer_fields rt) (transfer_members p s) zero_transfer = Some (json_exported p)"
  by (simp add: transfer_fields_def transfer_members_def find_field_def field_defs int_member_fmt zero_transfer_def json_exported_def)

subsection \<open>Properties\<close>


definition sample_time_text :: time_text where
  "sample_time_text t = Inr (fmt_int t)"

definition sample_time_reader :: time_reader where
  "sample_time_reader s = Some (read_int s)"

lemma sample_times_ok: "time_texts_ok sample_time_text sample_time_reader"
  by (simp add: time_texts_ok_def sample_time_text_def sample_time_reader_def ascii_fmt_int read_int_fmt)

text \<open>A transfer of 5 units is read as one without an amount.\<close>

definition sample_transfer :: transfer_payload where
  "sample_transfer = \<lparr> tpTrxHash = ''0xab'', tpBlockNumber = 7, tpFrom = ''a'', tpTo = ''b'', tpIsRemoved = False, tpValue = ''5'',
     tpTokenCA = ''c'', tpTime = 3 \<rparr>"


end
