(* ===== verification/Availability_Columns.thy ===== *)
theory Availability_Columns
  imports Listing_Entities Json_Text
begin

text \<open>
  The two columns that hold a struct as JSON: the availability of an asset and of a trading pair, as \<^verbatim>\<open>asset.go\<close> and
  \<^verbatim>\<open>trading_pair.go\<close> under \<^verbatim>\<open>internal/domain/entities\<close> write them (\<^verbatim>\<open>Value\<close>) and read them (\<^verbatim>\<open>Scan\<close>). A read gives an
  error or the struct; after an error the row is dropped.
\<close>

text \<open>What a driver hands to \<^verbatim>\<open>Scan\<close>: nil, a byte slice, or a value of another type.\<close>

datatype column_value = SqlNull | SqlBytes string | SqlOther

definition asset_members :: "network_availability \<Rightarrow> (string \<times> json) list" where
  "asset_members a = [(''spot_testnet'', JBool (naSpotTestnet a)), (''spot_mainnet'', JBool (naSpotMainnet a)),
     (''perp_testnet'', JBool (naPerpTestnet a)), (''perp_mainnet'', JBool (naPerpMainnet a))]"

definition asset_fields :: "network_availability field list" where
  "asset_fields = [field_bool ''spot_testnet'' (\<lambda>b a. a\<lparr>naSpotTestnet := b\<rparr>),
     field_bool ''spot_mainnet'' (\<lambda>b a. a\<lparr>naSpotMainnet := b\<rparr>), field_bool ''perp_testnet'' (\<lambda>b a. a\<lparr>naPerpTestnet := b\<rparr>),
     field_bool ''perp_mainnet'' (\<lambda>b a. a\<lparr>naPerpMainnet := b\<rparr>)]"

definition pair_members :: "pair_availability \<Rightarrow> (string \<times> json) list" where
  "pair_members a = [(''testnet'', JBool (paTestnet a)), (''mainnet'', JBool (paMainnet a))]"

definition pair_fields :: "pair_availability field list" where
  "pair_fields = [field_bool ''testnet'' (\<lambda>b a. a\<lparr>paTestnet := b\<rparr>), field_bool ''mainnet'' (\<lambda>b a. a\<lparr>paMainnet := b\<rparr>)]"

definition asset_Value :: "network_availability \<Rightarrow> column_value" where
  "asset_Value a = SqlBytes (json_text (JObj (asset_members a)))"

definition asset_Scan :: "column_value \<Rightarrow> network_availability \<Rightarrow> string + network_availability" where
  "asset_Scan v a = (case v of SqlNull \<Rightarrow> Inr a | SqlOther \<Rightarrow> Inr a | SqlBytes bs \<Rightarrow> decode_struct asset_fields bs a)"

definition pair_Value :: "pair_availability \<Rightarrow> column_value" where
  "pair_Value a = SqlBytes (json_text (JObj (pair_members a)))"

definition pair_Scan :: "column_value \<Rightarrow> pair_availability \<Rightarrow> string + pair_availability" where
  "pair_Scan v a = (case v of SqlNull \<Rightarrow> Inr a | SqlOther \<Rightarrow> Inr a | SqlBytes bs \<Rightarrow> decode_struct pair_fields bs a)"

subsection \<open>The contract of a column\<close>

text \<open>What gorm asks of a type with a column of its own: a written value is read back, whatever the struct held before,
  and a value of another kind is no error.\<close>

locale json_column =
  fixes val :: "'a \<Rightarrow> column_value" and scan :: "column_value \<Rightarrow> 'a \<Rightarrow> string + 'a"
  assumes scan_val: "scan (val a) old = Inr a"
    and scan_other: "\<not> (\<exists>bs. v = SqlBytes bs) \<Longrightarrow> scan v old = Inr old"
begin

lemma val_inject: "val a = val b \<longleftrightarrow> a = b"
  by (metis scan_val sum.inject(2))

text \<open>Only bytes can be refused.\<close>

lemma scan_error: "scan v old = Inl err \<Longrightarrow> \<exists>bs. v = SqlBytes bs \<and> v \<notin> range val"
  by (metis imageE scan_other scan_val sum.distinct(1))

end

interpretation asset_column: json_column asset_Value asset_Scan
proof
  fix a old :: network_availability
  have "members_wf (asset_members a)" by (simp add: asset_members_def)
  moreover have "set_members asset_fields (asset_members a) old = Some a"
    by (simp add: asset_members_def asset_fields_def find_field_def field_defs)
  ultimately show "asset_Scan (asset_Value a) old = Inr a"
    by (simp add: asset_Scan_def asset_Value_def decode_struct_text del: json_text.simps)
qed (auto simp: asset_Scan_def split: column_value.splits)

interpretation pair_column: json_column pair_Value pair_Scan
proof
  fix a old :: pair_availability
  have "members_wf (pair_members a)" by (simp add: pair_members_def)
  moreover have "set_members pair_fields (pair_members a) old = Some a"
    by (simp add: pair_members_def pair_fields_def find_field_def field_defs)
  ultimately show "pair_Scan (pair_Value a) old = Inr a"
    by (simp add: pair_Scan_def pair_Value_def decode_struct_text del: json_text.simps)
qed (auto simp: pair_Scan_def split: column_value.splits)

text \<open>The texts in the tables.\<close>

lemma column_texts:
  "asset_Value \<lparr> naSpotTestnet = True, naSpotMainnet = False, naPerpTestnet = False, naPerpMainnet = False \<rparr> =
     SqlBytes ''{\"spot_testnet\":true,\"spot_mainnet\":false,\"perp_testnet\":false,\"perp_mainnet\":false}''"
  "pair_Value \<lparr> paTestnet = True, paMainnet = False \<rparr> = SqlBytes ''{\"testnet\":true,\"mainnet\":false}''"
  by code_simp+

text \<open>A row that was written is read back as it was.\<close>

theorem availability_columns_roundtrip:
  "asset_Scan (asset_Value a) olda = Inr a \<and> pair_Scan (pair_Value p) oldp = Inr p"
  by (simp add: asset_column.scan_val pair_column.scan_val)

end
