(* ===== verification/Mail_Client.thy ===== *)
theory Mail_Client
  imports Task_Worker
begin

text \<open>
  \<^verbatim>\<open>internal/adapter/mail/client.go\<close>: the mail with a verification code. The template package and the SMTP dialer are
  parameters: \<open>execute\<close> fills the template or fails, \<open>formatAddress\<close> writes a sender, \<open>dialAndSend\<close> is the error of sending.
  The lemmas put the client in the place of the mailer that \<^verbatim>\<open>Task_Worker\<close> has as a parameter.
\<close>

record mail_data =
  mdCode :: string
  mdExpiryMinute :: string
  mdRequestTime :: string
  mdIP :: string
  mdLocation :: string
  mdDevice :: string
  mdYear :: string
  mdReceiverEmail :: string

record mail_message =
  mmFrom :: string
  mmTo :: string
  mmSubject :: string
  mmContentType :: string
  mmBody :: string

record mail_env =
  maParse :: "string option"
  maExecute :: "mail_data \<Rightarrow> string + string"
  maFormatAddress :: "string \<Rightarrow> string \<Rightarrow> string"
  maUsername :: string
  maDialAndSend :: "mail_message \<Rightarrow> string option"

definition SetupAuthVerificationMailTemplate :: "mail_env \<Rightarrow> string option" where
  "SetupAuthVerificationMailTemplate M = maParse M"

text \<open>The error of a call and the message it handed to the dialer.\<close>

definition SendAuthVerificationCode ::
  "mail_env \<Rightarrow> string \<Rightarrow> string \<Rightarrow> string \<Rightarrow> string \<Rightarrow> string \<Rightarrow> string \<Rightarrow> string \<Rightarrow> string \<Rightarrow> string option \<times> mail_message option" where
  "SendAuthVerificationCode M toMail verificationCode expiryMinute requestTime ip location device year =
     (let data = \<lparr> mdCode = verificationCode, mdExpiryMinute = expiryMinute, mdRequestTime = requestTime, mdIP = ip,
            mdLocation = location, mdDevice = device, mdYear = year, mdReceiverEmail = toMail \<rparr>
      in case maExecute M data of
           Inl err \<Rightarrow> (Some (''failed to render email template: '' @ err), None)
         | Inr body \<Rightarrow>
             (let m = \<lparr> mmFrom = maFormatAddress M (maUsername M) ''Coinhub'', mmTo = toMail,
                    mmSubject = ''Verify Your Email - Coinhub'', mmContentType = ''text/html'', mmBody = body \<rparr>
              in case maDialAndSend M m of
                   Some err \<Rightarrow> (Some (''failed to send email: '' @ err), Some m)
                 | None \<Rightarrow> (None, Some m)))"

text \<open>The call the mail task makes, for its payload: the lifetime is printed as a Go duration.\<close>

definition task_mail :: "mail_env \<Rightarrow> email_payload \<Rightarrow> string \<Rightarrow> string \<Rightarrow> string option \<times> mail_message option" where
  "task_mail M p toMail code = SendAuthVerificationCode M toMail code ''1m0s'' (epRequestTime p) (epIP p) (epLocation p)
     (epDevice p) (epYear p)"

definition mail_task ::
  "'s redis \<Rightarrow> (nat \<Rightarrow> nat \<Rightarrow> nat option) \<Rightarrow> mail_env \<Rightarrow> string + email_payload \<Rightarrow> 's \<Rightarrow>
   string option \<times> (string \<times> string) list \<times> 's" where
  "mail_task rd rnd M payload s =
     (case payload of
        Inl err \<Rightarrow> HandleEmailVerificationCodeSendOp rd rnd (SetupAuthVerificationMailTemplate M) (\<lambda>_ _. None) (Inl err) s
      | Inr p \<Rightarrow> HandleEmailVerificationCodeSendOp rd rnd (SetupAuthVerificationMailTemplate M)
          (\<lambda>toMail code. fst (task_mail M p toMail code)) (Inr p) s)"

subsection \<open>Lemmas\<close>

lemma SendAuthVerificationCode_cases:
  assumes "SendAuthVerificationCode M toMail code expiry t ip loc dev year = (err, sent)"
  obtains e where "sent = None" "err = Some (''failed to render email template: '' @ e)"
  | m where "sent = Some m" "mmTo m = toMail" "err = map_option (\<lambda>e. ''failed to send email: '' @ e) (maDialAndSend M m)"
  using assms by (auto simp: SendAuthVerificationCode_def Let_def split: sum.splits option.splits)

text \<open>The body of a message that was handed over is the template filled with the code and the receiver's own request.\<close>

lemma sent_body:
  "SendAuthVerificationCode M toMail code expiry t ip loc dev year = (err, Some m) \<Longrightarrow>
     maExecute M \<lparr> mdCode = code, mdExpiryMinute = expiry, mdRequestTime = t, mdIP = ip, mdLocation = loc, mdDevice = dev,
       mdYear = year, mdReceiverEmail = toMail \<rparr> = Inr (mmBody m)"
  by (auto simp: SendAuthVerificationCode_def Let_def split: sum.splits option.splits)

text \<open>A mail is counted as sent when the dialer took it, and then it was addressed to the receiver of the task.\<close>

lemma mail_task_sends:
  assumes "mail_task rd rnd M (Inr p) s = (err, mails, s')" and "mails \<noteq> []"
  shows "\<exists>code m. mails = [(epReceiverEmail p, code)] \<and> task_mail M p (epReceiverEmail p) code = (None, Some m) \<and>
     mmTo m = epReceiverEmail p \<and> maDialAndSend M m = None \<and> code = GenerateRandomString rnd EMAIL_VERIFICATION_CODE_LENGTH"
proof -
  let ?code = "GenerateRandomString rnd EMAIL_VERIFICATION_CODE_LENGTH"
  obtain e sent where t: "task_mail M p (epReceiverEmail p) ?code = (e, sent)" by fastforce
  have "e = None" "mails = [(epReceiverEmail p, ?code)]"
    using assms t by (auto simp: mail_task_def HandleEmailVerificationCodeSendOp_def Let_def split: option.splits prod.splits)
  moreover from this t obtain m where "sent = Some m" "mmTo m = epReceiverEmail p" "maDialAndSend M m = None"
    by (auto simp: task_mail_def elim!: SendAuthVerificationCode_cases)
  ultimately show ?thesis using t by auto
qed

text \<open>A code that was not mailed is not cached.\<close>

lemma mail_task_unsent: "mail_task rd rnd M payload s = (err, [], s') \<Longrightarrow> s' = s \<and> err \<noteq> None"
  by (auto simp: mail_task_def HandleEmailVerificationCodeSendOp_def Let_def split: sum.splits option.splits prod.splits; metis)

end
