(* ===== verification/Observability.thy ===== *)
theory Observability
  imports Commands
begin

text \<open>
  How the process starts and reports: \<^verbatim>\<open>cmd/root.go\<close> (\<^verbatim>\<open>init\<close>), \<^verbatim>\<open>internal/infrastructure/logger\<close>, and the labels of
  \<^verbatim>\<open>internal/infrastructure/metrics/middleware.go\<close>. The zone database, the packages zap and Sentry are parameters. A
  level is zap's number: debug is -1 and fatal is 5.
\<close>

definition DebugLevel :: int where [go_enum]: "DebugLevel = -1"
definition InfoLevel :: int where [go_enum]: "InfoLevel = 0"
definition WarnLevel :: int where [go_enum]: "WarnLevel = 1"
definition ErrorLevel :: int where [go_enum]: "ErrorLevel = 2"
definition DPanicLevel :: int where [go_enum]: "DPanicLevel = 3"
definition PanicLevel :: int where [go_enum]: "PanicLevel = 4"
definition FatalLevel :: int where [go_enum]: "FatalLevel = 5"

subsection \<open>The logger (logger.go)\<close>

record 'z logger =
  lgZone :: 'z
  lgLevel :: int

text \<open>\<open>None\<close> as the logger is the global one before \<^verbatim>\<open>InitLogger\<close>, which writes nothing.\<close>

definition InitLogger :: "(string \<Rightarrow> string + 'z) \<Rightarrow> configuration \<Rightarrow> string + 'z logger" where
  "InitLogger loadLocation cfg =
     (case loadLocation (appTimeZone cfg) of
        Inl err \<Rightarrow> Inl (''failed to load timezone: '' @ err)
      | Inr loc \<Rightarrow> Inr \<lparr> lgZone = loc, lgLevel = observeLogLevel cfg \<rparr>)"

text \<open>\<open>SyncLogger\<close> reads the variable of the package; \<open>InitLogger\<close> assigns a local one of the same name, so that it stays nil.\<close>

definition SyncLogger :: "('z logger \<Rightarrow> string option) \<Rightarrow> 'z logger option \<Rightarrow> string option" where
  "SyncLogger flush zapLogger = (case zapLogger of Some l \<Rightarrow> flush l | None \<Rightarrow> None)"

text \<open>Whether an entry is written.\<close>

definition written :: "'z logger option \<Rightarrow> int \<Rightarrow> bool" where
  "written lg level = (case lg of None \<Rightarrow> False | Some l \<Rightarrow> lgLevel l \<le> level)"

subsection \<open>Sentry (sentry.go)\<close>

record sentry_options =
  soDsn :: string
  soDebug :: bool
  soServerName :: string
  soEnvironment :: string
  soRelease :: string
  soAttachStacktrace :: bool
  soEnableTracing :: bool
  soEnableLogs :: bool
  soTracesSampleRate :: nat
  soSampleRate :: nat
  soTracesSampler :: "string \<Rightarrow> nat"

definition traces_sample_rate :: "string \<Rightarrow> nat" where
  "traces_sample_rate span = (if span = ''GET /health'' then 0 else 1)"

definition InitializeSentry :: "(sentry_options \<Rightarrow> string option) \<Rightarrow> configuration \<Rightarrow> string option" where
  "InitializeSentry sentryInit cfg =
     (if appEnv cfg \<noteq> ''PRODUCTION'' then None
      else sentryInit \<lparr> soDsn = observeSentryDSN cfg, soDebug = appDebug cfg, soServerName = appName cfg,
             soEnvironment = appEnv cfg, soRelease = appVersion cfg, soAttachStacktrace = True,
             soEnableTracing = True, soEnableLogs = True, soTracesSampleRate = 1, soSampleRate = 1,
             soTracesSampler = traces_sample_rate \<rparr>)"

record sentry_core =
  scLevel :: int
  scBreadcrumbLevel :: int
  scTags :: "(string \<times> string) list"

definition newSentryCore :: "(sentry_core \<Rightarrow> string + 'c) \<Rightarrow> configuration \<Rightarrow> int \<Rightarrow> string + 'c" where
  "newSentryCore newCore cfg zapLevel = newCore \<lparr> scLevel = zapLevel, scBreadcrumbLevel = zapLevel,
     scTags = [(''component'', ''aih-service-api''), (''app_name'', appName cfg), (''app_env'', appEnv cfg),
       (''app_ver'', appVersion cfg), (''instance'', appInstType cfg)] \<rparr>"

definition logLevelFromConfig :: "string \<Rightarrow> int" where
  "logLevelFromConfig configLevel =
     (let s = to_lower configLevel
      in if s = ''debug'' then DebugLevel
         else if s = ''info'' then InfoLevel
         else if s = ''warn'' \<or> s = ''warning'' then WarnLevel
         else if s = ''error'' then ErrorLevel
         else if s = ''d-panic'' then DPanicLevel
         else if s = ''panic'' then PanicLevel
         else if s = ''fatal'' then FatalLevel
         else DebugLevel)"

text \<open>The name zap prints for a level.\<close>

definition level_name :: "int \<Rightarrow> string" where
  "level_name l = (if l = DebugLevel then ''debug'' else if l = InfoLevel then ''info'' else if l = WarnLevel then ''warn''
     else if l = ErrorLevel then ''error'' else if l = DPanicLevel then ''dpanic'' else if l = PanicLevel then ''panic''
     else if l = FatalLevel then ''fatal'' else ''Level('' @ fmt_int l @ '')'')"

subsection \<open>Start of the process (root.go)\<close>

text \<open>What \<^verbatim>\<open>init\<close> leaves: the configuration, the logger, the head of the API documentation, and the commands.\<close>

record docs_info =
  diTitle :: string
  diDescription :: string
  diVersion :: string

record 'z started =
  stConfig :: configuration
  stLogger :: "'z logger"
  stDocs :: docs_info
  stCommands :: "app_options list"

definition InitSwagger :: "configuration \<Rightarrow> docs_info" where
  "InitSwagger cfg = \<lparr> diTitle = ''Coinhub-API-Service'', diDescription = ''Coinhub Centralized Exchange'',
     diVersion = appVersion cfg \<rparr>"

text \<open>Each failure is fatal; \<open>Inl\<close> says whether its reason is written: \<^verbatim>\<open>LoadConfig\<close> ends the process through the
  standard library's log, and the other failure goes through the global logger of that moment. \<^verbatim>\<open>InitSwagger\<close> cannot fail.\<close>

definition cmd_init ::
  "(string \<Rightarrow> configuration \<Rightarrow> string option \<times> configuration) \<Rightarrow> (configuration \<Rightarrow> string option \<times> configuration) \<Rightarrow>
   (string \<Rightarrow> string + 'z) \<Rightarrow> bool + 'z started" where
  "cmd_init readConfig readEnv loadLocation =
     (case LoadConfig readConfig readEnv ''.env'' of
        None \<Rightarrow> Inl True
      | Some cfg \<Rightarrow>
          (case InitLogger loadLocation cfg of
             Inl err \<Rightarrow> Inl (written (None :: 'z logger option) FatalLevel)
           | Inr lg \<Rightarrow> Inr \<lparr> stConfig = cfg, stLogger = lg, stDocs = InitSwagger cfg, stCommands = command_options \<rparr>))"

subsection \<open>Metrics of requests (middleware.go)\<close>

text \<open>The labels a request is counted under, and those its duration is.\<close>

definition HTTPMiddleware :: "string \<Rightarrow> string \<Rightarrow> int \<Rightarrow> string list \<times> string list" where
  "HTTPMiddleware requestMethod fullPath statusCode =
     (let path = (if fullPath = [] then ''unmatched'' else fullPath); status = fmt_int statusCode
      in ([requestMethod, path, status], [requestMethod, path]))"

subsection \<open>Lemmas\<close>

text \<open>The name of a level is read back as that level but for one: \<^verbatim>\<open>dpanic\<close> is spelt with a dash, and becomes debug.\<close>

lemma logLevelFromConfig_name:
  "-1 \<le> l \<Longrightarrow> l \<le> 5 \<Longrightarrow> logLevelFromConfig (level_name l) = (if l = DPanicLevel then DebugLevel else l)"
proof -
  assume "-1 \<le> l" "l \<le> 5"
  then have "l \<in> {-1, 0, 1, 2, 3, 4, 5}" by auto
  moreover have "list_all (\<lambda>l. logLevelFromConfig (level_name l) = (if l = DPanicLevel then DebugLevel else l)) [-1, 0, 1, 2, 3, 4, 5]"
    by code_simp
  ultimately show ?thesis by auto
qed

lemma logLevelFromConfig_range: "DebugLevel \<le> logLevelFromConfig s \<and> logLevelFromConfig s \<le> FatalLevel"
  by (simp add: logLevelFromConfig_def Let_def go_enum)

text \<open>A time zone that is not known ends the process without a word: the reason is logged before there is a logger.\<close>

lemma cmd_init_silent:
  "cmd_init rc re ll = Inl False \<longleftrightarrow> (\<exists>cfg err. LoadConfig rc re ''.env'' = Some cfg \<and> ll (appTimeZone cfg) = Inl err)"
  by (auto simp: cmd_init_def InitLogger_def written_def split: option.splits sum.splits)

lemma cmd_init_iff:
  "(\<exists>st. cmd_init rc re ll = Inr st) \<longleftrightarrow>
     (\<exists>cfg loc. LoadConfig rc re ''.env'' = Some cfg \<and> ll (appTimeZone cfg) = Inr loc)"
  by (auto simp: cmd_init_def InitLogger_def split: option.splits sum.splits)

text \<open>A process that started filters by the configured level and knows every command; its environment is in upper case.\<close>

lemma cmd_init_started:
  assumes "cmd_init rc re ll = Inr st"
  shows "lgLevel (stLogger st) = observeLogLevel (stConfig st)" and "diVersion (stDocs st) = appVersion (stConfig st)"
    and "stCommands st = command_options" and "\<exists>s. appEnv (stConfig st) = to_upper s"
  using assms
  by (auto simp: cmd_init_def InitLogger_def InitSwagger_def LoadConfig_def PrepareConfig_def split: option.splits sum.splits prod.splits)

text \<open>Requests that match no route are one series, whatever their path.\<close>

lemma HTTPMiddleware_unmatched: "HTTPMiddleware m [] c = ([m, ''unmatched'', fmt_int c], [m, ''unmatched''])"
  by (simp add: HTTPMiddleware_def Let_def)

end
