(* ===== verification/Spec2Isabelle.thy ===== *)
theory Spec2Isabelle
  imports Engine_Steps Engine_Service Event_Journey Server_Commands Listings Price_Feed Chain_Queries Task_Codec
    Availability_Columns Mail_Client Observability
begin

text \<open>
  CoinHub is an exchange that runs as a set of processes started by one binary: an HTTP API, a matching engine, two
  consumers of Kafka topics (one writes order rows, one notifies sockets), a worker of background tasks and a watcher of
  a chain. An order is accepted by the API, stored and published; the engine routes it to the book of its pair, matches
  it and publishes what happened; the projection consumer updates the order's row. This library models these processes
  from the Go source under \<^verbatim>\<open>src/\<close> and proves what they guarantee, and where they do not do what they mean to.

  \<^bold>\<open>Foundations.\<close> \<open>Prelude\<close> has the environment (fresh IDs, the clock and the text of a decimal, each indexed by a tick), strings
  as ASCII byte strings, time in nanoseconds as an integer, and the lemmas the components share. \<open>Text_Numbers\<close> is what the source uses
  of number formatting, scanning and base64. \<open>Json_Text\<close> is what it uses of \<^verbatim>\<open>encoding/json\<close>: the text of a value, the
  reader of a text, the assignment of members to the fields of a struct, and their round trip. \<open>Samples\<close> has the concrete values of witnesses. \<open>Tables\<close> and
  \<open>Domain_Entities\<close>, \<open>Listing_Entities\<close> are the rows of the database (\<^verbatim>\<open>internal/domain/entities\<close>).

  \<^bold>\<open>The engine\<close> (\<^verbatim>\<open>internal/engine\<close>). \<open>Engine_Order\<close> is \<^verbatim>\<open>order.go\<close>: orders live in a store from references to
  records, because levels share them by pointer. \<open>Level_Tree\<close> is the B-tree package as an ordered list of levels behind a
  locale of its documented laws, which \<open>Book_Side\<close> (\<^verbatim>\<open>price_level.go\<close>, \<^verbatim>\<open>side.go\<close>) is proved from, with the well-formedness of
  a side. \<open>Orderbook_State\<close> is the book; \<open>Orderbook_Limit\<close>, \<open>Orderbook_Market\<close> and \<open>Orderbook_Cancel\<close> are the three
  routines of \<^verbatim>\<open>orderbook.go\<close>. Each keeps the book well formed; matching is shown equal to a greedy reference on the
  queue of offers in price-time priority, with conservation of quantity, price bounds and self-trade lemmas. \<open>Book_Reaper\<close>
  is \<^verbatim>\<open>expiry.go\<close>; \<open>Match_Engine\<close> the operations of \<^verbatim>\<open>engine.go\<close>; \<open>Engine_Steps\<close> their
  interleaving as an inductive step relation (consume an event, a worker's turn, the reaper), with first-in-first-out
  delivery and well-formed books in every reachable state; \<open>Engine_Service\<close> the goroutines' lives under \<^verbatim>\<open>cmd/engine.go\<close>.

  \<^bold>\<open>Messaging.\<close> \<open>Event_Types\<close>, \<open>Event_Producer\<close> and \<open>Topic_Manager\<close> are \<^verbatim>\<open>internal/adapter/messaging/kafka\<close>.
  \<open>Consumer_Runner\<close> is the loop of every consumer: its locale \<open>record_handler\<close> states what a handler must keep, and its
  lemmas give what a whole run then guarantees about committed records. \<open>Order_Projection\<close> and \<open>Notification\<close> are the
  handlers; \<open>Consumer_Services\<close> interprets the locale on both and proves the two processes end to end. \<open>Event_Codec\<close> has the
  payloads of both event types and the reader of the consumers, and \<open>Event_Journey\<close> joins the producers to the projection:
  what is published is applied, event by event, and trade events never are; a published submission joins the channel of its pair.

  \<^bold>\<open>Requests.\<close> \<open>Http_Schema\<close> has request types, validators and answers, \<open>Http_Security\<close> the middleware,
  \<open>Http_Router\<close> the route table with the chain of each route and the serving of a request, \<open>Order_Http\<close> and
  \<open>Order_Usecases\<close> orders, \<open>Auth\<close>, \<open>Users_Store\<close>, \<open>Password_Hash\<close> and \<open>Caches\<close> accounts, \<open>Wallet_Flow\<close> withdrawals and
  deposits, \<open>Listings\<close> assets and pairs, \<open>Price_Feed\<close> prices, \<open>Ws_Hub\<close> the sockets.

  \<^bold>\<open>Processes.\<close> \<open>Configs\<close> is the configuration; \<open>App_Boot\<close> the registration steps of \<^verbatim>\<open>internal/application.go\<close> as a fold,
  characterised exactly, and the shutdown; \<open>Commands\<close> the options of each command, migrations and the end of the process;
  \<open>Server_Commands\<close> the API and the worker, \<open>Chain_Listener\<close> the watcher, \<open>Task_Worker\<close> the tasks, with their payloads as
  texts in \<open>Task_Codec\<close> and the mail they send in \<open>Mail_Client\<close>. \<open>Observability\<close> is the start of every process, its logger and
  Sentry. \<open>Availability_Columns\<close> has the two JSON columns behind one locale. \<open>Web3_Utils\<close> is \<^verbatim>\<open>pkg/utils\<close>, \<open>Chain_Queries\<close>
  the balance queries.

  \<^bold>\<open>How the code is read.\<close> A decimal is an element of a linearly ordered integral domain, so that the theorems hold for
  exact decimals; witnesses take integers. Machine integers are words where their width matters (the counters of the
  runner, partition counts, argon2's parameters, the gas limit). Go's enumerations are the strings they are. An error is a value, \<open>Inl\<close> or
  \<open>Some\<close>; a panic, an endless recursion and a fatal log are \<open>None\<close> or a constructor of their own. A database table is
  the list of its rows, and an ORM call its documented effect. Code that is not in the repository is a parameter: the Kafka
  client, HTTP, Redis, the chain, the JWT package, argon2, random numbers, the mailer and the task queue; every
  fault they may report is an argument, as are the texts of times and decimals inside JSON; and the laws the theorems need of them (that Redis counts what is incremented,
  that the queue's multiplexer finds the pattern that equals a task's type) are named hypotheses, each met by the instance of a witness. The matching routines assume that
  the publisher returns; the publisher's errors are ignored by the code and change nothing.

  \<^bold>\<open>Termination.\<close> Every loop of the model is total: the retries by the distance to the limit, the sweeps by the
  number of orders left, parsing by the length of the text. The reader of JSON, three mutually recursive functions, takes fuel: one more than twice
  the length of the text, which \<open>read_fuel\<close> of \<open>Json_Text\<close> shows to give what any larger amount gives. The one recursion of the code that does not end, the reaper's
  \<^verbatim>\<open>Push\<close> and \<^verbatim>\<open>Pop\<close>, is a \<open>partial_function\<close> whose value is proved to be \<open>None\<close>.

  \<^bold>\<open>Not modelled.\<close> Generated code (the ERC20 binding, the API documentation); the admin panel and the monitoring pages,
  which configure third-party handlers; the declarations of counters and the format of log lines; the home page and the
  balance row, which nothing uses; the wrappers of the Kafka client, which forward to it; texts beyond ASCII and the nesting
  limit of the JSON reader; the decimal conversions of \<^verbatim>\<open>pkg/utils\<close>, which rest on the rounding of the decimal package;
  the interfaces of the repositories, of which the model uses the only implementations; and the reading of flags and of the
  environment.
\<close>

end
